(* ===== verification/Sha1_Spec.thy ===== *)
theory Sha1_Spec
  imports Prelude
begin

text \<open>
  SHA-1 as FIPS 180 defines it, on lists of bytes: the reference the two implementations under
  \<^verbatim>\<open>peer/crypto\<close> are verified against. Nothing here is translated from the sources; the
  names follow the standard (rotations, the round functions, the 80-word schedule, the padding).
\<close>

section \<open>Words and bytes\<close>

definition rol :: "u32 \<Rightarrow> nat \<Rightarrow> u32" where
  "rol x n = push_bit n x OR drop_bit (32 - n) x"

definition be32 :: "u8 \<Rightarrow> u8 \<Rightarrow> u8 \<Rightarrow> u8 \<Rightarrow> u32" where
  "be32 a b c d = push_bit 24 (ucast a) OR push_bit 16 (ucast b) OR push_bit 8 (ucast c) OR ucast d"

definition be32_bytes :: "u32 \<Rightarrow> u8 list" where
  "be32_bytes x = [ucast (drop_bit 24 x), ucast (drop_bit 16 x), ucast (drop_bit 8 x), ucast x]"

definition be64_bytes :: "u64 \<Rightarrow> u8 list" where
  "be64_bytes x = map (\<lambda>i. ucast (drop_bit (8 * (7 - i)) x)) [0..<8]"

definition block_word :: "u8 list \<Rightarrow> nat \<Rightarrow> u32" where
  "block_word b t = be32 (b ! (4 * t)) (b ! (4 * t + 1)) (b ! (4 * t + 2)) (b ! (4 * t + 3))"

section \<open>The compression function\<close>

definition Ch :: "u32 \<Rightarrow> u32 \<Rightarrow> u32 \<Rightarrow> u32" where
  "Ch x y z = (x AND y) XOR (NOT x AND z)"

definition Parity :: "u32 \<Rightarrow> u32 \<Rightarrow> u32 \<Rightarrow> u32" where
  "Parity x y z = x XOR y XOR z"

definition Maj :: "u32 \<Rightarrow> u32 \<Rightarrow> u32 \<Rightarrow> u32" where
  "Maj x y z = (x AND y) XOR (x AND z) XOR (y AND z)"

definition F_round :: "nat \<Rightarrow> u32 \<Rightarrow> u32 \<Rightarrow> u32 \<Rightarrow> u32" where
  "F_round t = (if t < 20 then Ch else if t < 40 then Parity else if t < 60 then Maj else Parity)"

definition K_round :: "nat \<Rightarrow> u32" where
  "K_round t = (if t < 20 then 0x5a827999 else if t < 40 then 0x6ed9eba1
     else if t < 60 then 0x8f1bbcdc else 0xca62c1d6)"

fun schedule :: "(nat \<Rightarrow> u32) \<Rightarrow> nat \<Rightarrow> u32" where
  "schedule m t = (if t < 16 then m t
     else rol (schedule m (t - 3) XOR schedule m (t - 8) XOR schedule m (t - 14)
               XOR schedule m (t - 16)) 1)"

declare schedule.simps [simp del]

lemma schedule_lt: "t < 16 \<Longrightarrow> schedule m t = m t"
  by (simp add: schedule.simps)

lemma schedule_ge: "16 \<le> t \<Longrightarrow> schedule m t =
    rol (schedule m (t - 3) XOR schedule m (t - 8) XOR schedule m (t - 14) XOR schedule m (t - 16)) 1"
  by (simp add: schedule.simps [of m t])

type_synonym regs = "u32 \<times> u32 \<times> u32 \<times> u32 \<times> u32"

fun round_step :: "(nat \<Rightarrow> u32) \<Rightarrow> nat \<Rightarrow> regs \<Rightarrow> regs" where
  "round_step w t (a, b, c, d, e) =
     (rol a 5 + F_round t b c d + e + K_round t + w t, a, rol b 30, c, d)"

primrec rounds :: "(nat \<Rightarrow> u32) \<Rightarrow> nat \<Rightarrow> regs \<Rightarrow> regs" where
  "rounds w 0 r = r"
| "rounds w (Suc n) r = round_step w n (rounds w n r)"

fun regs_add :: "regs \<Rightarrow> regs \<Rightarrow> regs" where
  "regs_add (a, b, c, d, e) (a', b', c', d', e') = (a + a', b + b', c + c', d + d', e + e')"

fun regs_list :: "regs \<Rightarrow> u32 list" where
  "regs_list (a, b, c, d, e) = [a, b, c, d, e]"

definition compress :: "regs \<Rightarrow> u8 list \<Rightarrow> regs" where
  "compress h b = regs_add h (rounds (schedule (block_word b)) 80 h)"

definition H_init :: regs where
  "H_init = (0x67452301, 0xefcdab89, 0x98badcfe, 0x10325476, 0xc3d2e1f0)"

section \<open>Whole messages\<close>

text \<open>Absorb the full 64-byte blocks of a byte list; \<open>tail\<close> is what is left over.\<close>

function absorb :: "regs \<Rightarrow> u8 list \<Rightarrow> regs" where
  "absorb h bs = (if length bs < 64 then h else absorb (compress h (take 64 bs)) (drop 64 bs))"
  by pat_completeness auto
termination
  by (relation "measure (\<lambda>(h, bs). length bs)") auto

declare absorb.simps [simp del]

definition rest :: "u8 list \<Rightarrow> u8 list" where
  "rest bs = drop (64 * (length bs div 64)) bs"

definition pad_zeros :: "nat \<Rightarrow> nat" where
  "pad_zeros n = (119 - n mod 64) mod 64"

definition pad :: "u8 list \<Rightarrow> u8 list" where
  "pad m = m @ [0x80] @ replicate (pad_zeros (length m)) 0 @ be64_bytes (of_nat (8 * length m))"

definition sha1_spec :: "u8 list \<Rightarrow> u8 list" where
  "sha1_spec m = concat (map be32_bytes (regs_list (absorb H_init (pad m))))"

section \<open>Blockwise reasoning\<close>

lemma absorb_short: "length bs < 64 \<Longrightarrow> absorb h bs = h"
  by (simp add: absorb.simps)

lemma absorb_Nil [simp]: "absorb h [] = h"
  by (simp add: absorb_short)

lemma absorb_long: "64 \<le> length bs \<Longrightarrow> absorb h bs = absorb (compress h (take 64 bs)) (drop 64 bs)"
  by (simp add: absorb.simps [of h bs])

lemma absorb_block: "length b = 64 \<Longrightarrow> absorb h (b @ bs) = absorb (compress h b) bs"
  by (simp add: absorb_long)

lemma absorb_one: "length b = 64 \<Longrightarrow> absorb h b = compress h b"
  using absorb_block [of b h "[]"] by simp

lemma absorb_append: "64 dvd length xs \<Longrightarrow> absorb h (xs @ ys) = absorb (absorb h xs) ys"
proof (induction h xs rule: absorb.induct)
  case (1 h xs)
  show ?case
  proof (cases "length xs < 64")
    case True
    with 1 have "xs = []" by (auto dest: dvd_imp_le)
    then show ?thesis by simp
  next
    case False
    moreover have "64 dvd length (drop 64 xs)"
      using 1 False by (auto intro: dvd_diff_nat)
    ultimately show ?thesis
      using "1.IH" by (simp add: absorb_long)
  qed
qed

lemma length_rest: "length (rest bs) = length bs mod 64"
  by (simp add: rest_def modulo_nat_def minus_div_mult_eq_mod [symmetric] mult.commute)

lemma rest_less: "length (rest bs) < 64"
  by (simp add: length_rest)

lemma split_rest:
  obtains xs where "bs = xs @ rest bs" "64 dvd length xs" "length xs = 64 * (length bs div 64)"
proof
  show "bs = take (64 * (length bs div 64)) bs @ rest bs"
    by (simp add: rest_def)
  have le: "64 * (length bs div 64) \<le> length bs"
    by (rule times_div_less_eq_dividend)
  then show l: "length (take (64 * (length bs div 64)) bs) = 64 * (length bs div 64)"
    by simp
  show "64 dvd length (take (64 * (length bs div 64)) bs)"
    by (simp only: l) simp
qed

lemma absorb_rest: "absorb h (bs @ cs) = absorb (absorb h bs) (rest bs @ cs)"
proof -
  obtain xs where xs: "bs = xs @ rest bs" "64 dvd length xs"
    by (rule split_rest)
  have a: "absorb h bs = absorb h xs"
    by (subst xs(1)) (simp add: absorb_append [OF xs(2)] absorb_short rest_less)
  have "absorb h (bs @ cs) = absorb h (xs @ (rest bs @ cs))"
    by (subst xs(1)) simp
  also have "\<dots> = absorb (absorb h bs) (rest bs @ cs)"
    by (simp only: absorb_append [OF xs(2)] a)
  finally show ?thesis .
qed

lemma rest_short: "length bs < 64 \<Longrightarrow> rest bs = bs"
  by (simp add: rest_def)

lemma rest_blocks: "length b = 64 * k \<Longrightarrow> rest (b @ bs) = rest bs"
  by (simp add: rest_def distrib_left)

lemma rest_append: "rest (bs @ cs) = rest (rest bs @ cs)"
proof -
  obtain xs where xs: "bs = xs @ rest bs" "length xs = 64 * (length bs div 64)"
    by (rule split_rest)
  show ?thesis
    by (subst xs(1)) (simp only: append_assoc rest_blocks [OF xs(2)])
qed

lemma rest_block: "length b = 64 \<Longrightarrow> rest (b @ bs) = rest bs"
  using rest_blocks [of b 1 bs] by simp

lemma rest_Nil [simp]: "rest [] = []"
  by (simp add: rest_short)

lemma length_be64 [simp]: "length (be64_bytes x) = 8"
  by (simp add: be64_bytes_def)

lemma length_regs_list [simp]: "length (regs_list r) = 5"
  by (cases r rule: regs_list.cases) simp

lemma length_sha1_spec [simp]: "length (sha1_spec m) = 20"
  by (cases "absorb H_init (pad m)" rule: regs_list.cases)
    (simp add: sha1_spec_def be32_bytes_def)

text \<open>The padded message is the message's full blocks and one or two final blocks.\<close>

definition final_blocks :: "u8 list \<Rightarrow> u64 \<Rightarrow> u8 list" where
  "final_blocks r n = r @ [0x80] @ replicate (pad_zeros (length r)) 0 @ be64_bytes n"

lemma pad_zeros_mod: "pad_zeros (n mod 64) = pad_zeros n"
  by (simp add: pad_zeros_def)

lemma absorb_pad: "absorb h (pad m) =
    absorb (absorb h m) (final_blocks (rest m) (of_nat (8 * length m)))"
proof -
  have "pad_zeros (length (rest m)) = pad_zeros (length m)"
    by (simp add: length_rest pad_zeros_mod)
  then show ?thesis
    unfolding pad_def final_blocks_def by (subst absorb_rest) simp
qed

lemma length_final_blocks:
  "length r < 64 \<Longrightarrow> length (final_blocks r n) = (if length r < 56 then 64 else 128)"
proof -
  assume r: "length r < 64"
  show ?thesis
  proof (cases "length r < 56")
    case True
    then have "(119 - length r) mod 64 = 55 - length r"
      by (simp add: mod_if)
    with True r show ?thesis
      by (simp add: final_blocks_def pad_zeros_def)
  next
    case False
    with r have "(119 - length r) mod 64 = 119 - length r"
      by simp
    with False r show ?thesis
      by (simp add: final_blocks_def pad_zeros_def)
  qed
qed

lemma final_blocks_short:
  "length r < 56 \<Longrightarrow> final_blocks r n = (r @ 0x80 # replicate (55 - length r) 0) @ be64_bytes n"
  by (simp add: final_blocks_def pad_zeros_def mod_if)

lemma final_blocks_long:
  assumes "56 \<le> length r" "length r < 64"
  shows "final_blocks r n = (r @ 0x80 # replicate (63 - length r) 0) @ replicate 56 0 @ be64_bytes n"
proof -
  have "119 - length r = 63 - length r + 56" using assms by simp
  then show ?thesis
    using assms by (simp add: final_blocks_def pad_zeros_def) (simp flip: replicate_add)
qed

section \<open>Byte order\<close>

lemma bit_be32: "bit (be32 a b c d) n \<longleftrightarrow>
    (if n < 8 then bit d n else if n < 16 then bit c (n - 8)
     else if n < 24 then bit b (n - 16) else bit a (n - 24))"
  by (auto simp: be32_def bit_or_iff bit_push_bit_iff bit_ucast_iff dest: bit_imp_le_length)

section \<open>The interface of a streaming implementation\<close>

text \<open>
  \<^verbatim>\<open>crypto.h\<close> promises its clients three operations on a context: reset it, add bytes to it, and
  ask for the digest. What the clients rely on is that the digest is the standard's function of all
  the bytes added since the reset, in order, however they were cut into pieces. \<open>fits\<close> bounds the
  message lengths an implementation accepts.
\<close>

locale hash_stream =
  fixes reset :: "'c \<Rightarrow> 'c"
    and add :: "'c \<Rightarrow> u8 list \<Rightarrow> bool \<times> 'c"
    and result :: "'c \<Rightarrow> bool \<times> u8 list \<times> 'c"
    and repr :: "'c \<Rightarrow> u8 list \<Rightarrow> bool"
    and valid :: "'c \<Rightarrow> bool"
    and fits :: "nat \<Rightarrow> bool"
  assumes repr_reset: "valid c \<Longrightarrow> repr (reset c) []"
    and add_ok: "repr c m \<Longrightarrow> fits (length (m @ bs)) \<Longrightarrow> fst (add c bs)"
    and repr_add: "repr c m \<Longrightarrow> fits (length (m @ bs)) \<Longrightarrow> repr (snd (add c bs)) (m @ bs)"
    and result_ok: "repr c m \<Longrightarrow> fits (length m) \<Longrightarrow> fst (result c)"
    and result_spec: "repr c m \<Longrightarrow> fits (length m) \<Longrightarrow> fst (snd (result c)) = sha1_spec m"
    and fits_mono: "fits n \<Longrightarrow> k \<le> n \<Longrightarrow> fits k"
begin

lemma repr_fold:
  "repr c m \<Longrightarrow> fits (length (m @ concat bss)) \<Longrightarrow>
   repr (fold (\<lambda>bs c. snd (add c bs)) bss c) (m @ concat bss)"
proof (induction bss arbitrary: c m)
  case Nil
  then show ?case by simp
next
  case (Cons bs bss)
  then have "fits (length (m @ bs))"
    by (auto elim: fits_mono)
  with Cons.prems have "repr (snd (add c bs)) (m @ bs)"
    by (intro repr_add)
  from Cons.IH [OF this] Cons.prems show ?case by simp
qed

lemma digest_pieces:
  assumes "valid c" "fits (length (concat bss))"
  shows "fst (result (fold (\<lambda>bs c. snd (add c bs)) bss (reset c)))"
    and "fst (snd (result (fold (\<lambda>bs c. snd (add c bs)) bss (reset c)))) = sha1_spec (concat bss)"
  using repr_fold [OF repr_reset, of c bss] assms by (auto intro: result_ok result_spec)

lemma digest_once:
  assumes "valid c" "fits (length bs)"
  shows "fst (snd (result (snd (add (reset c) bs)))) = sha1_spec bs"
  using digest_pieces(2) [of c "[bs]"] assms by simp

end

end
