(* ===== verification/Sha1_Avr.thy ===== *)
theory Sha1_Avr
  imports Sha1_Spec
begin

text \<open>
  \<^verbatim>\<open>peer/crypto/avr/sha1.c\<close>, the SHA-1 the program is built with (AVR-Crypto-Lib), and
  \<^verbatim>\<open>peer/crypto/avr/crypto-impl.c\<close>, the streaming interface on top of it. The block function
  keeps a rolling window of 16 schedule words; it is proved equal to the 80-word schedule of the
  standard, and the streaming interface to one evaluation of the standard's function on everything
  that was added. The target is little endian: \<^verbatim>\<open>((uint32_t*)block)[t]\<close> is a little endian load
  and the \<^verbatim>\<open>LITTLE_ENDIAN\<close> branches are the ones taken.
\<close>

section \<open>Helpers of sha1.c\<close>

definition rotl32 :: "u32 \<Rightarrow> nat \<Rightarrow> u32" where
  "rotl32 n bits = push_bit bits n OR drop_bit (32 - bits) n"

definition change_endian32 :: "u32 \<Rightarrow> u32" where
  "change_endian32 x = push_bit 24 x OR drop_bit 24 x
     OR push_bit 8 (x AND 0x0000ff00) OR drop_bit 8 (x AND 0x00ff0000)"

definition ch :: "u32 \<Rightarrow> u32 \<Rightarrow> u32 \<Rightarrow> u32" where
  "ch x y z = (x AND y) XOR (NOT x AND z)"

definition maj :: "u32 \<Rightarrow> u32 \<Rightarrow> u32 \<Rightarrow> u32" where
  "maj x y z = (x AND y) XOR (x AND z) XOR (y AND z)"

definition parity :: "u32 \<Rightarrow> u32 \<Rightarrow> u32 \<Rightarrow> u32" where
  "parity x y z = (x XOR y) XOR z"

text \<open>Little endian access to a 32-bit word in memory.\<close>

definition load_le32 :: "u8 list \<Rightarrow> nat \<Rightarrow> u32" where
  "load_le32 p t = be32 (p ! (4 * t + 3)) (p ! (4 * t + 2)) (p ! (4 * t + 1)) (p ! (4 * t))"

definition store_le32 :: "u32 \<Rightarrow> u8 list" where
  "store_le32 x = [ucast x, ucast (drop_bit 8 x), ucast (drop_bit 16 x), ucast (drop_bit 24 x)]"

section \<open>The context and the block function\<close>

record sha1_ctx_t =
  ctx_h :: "u32 list"
  ctx_length :: u64

definition sha1_init :: "sha1_ctx_t \<Rightarrow> sha1_ctx_t" where
  "sha1_init state = state\<lparr>ctx_h := [0x67452301, 0xefcdab89, 0x98badcfe, 0x10325476, 0xc3d2e1f0],
     ctx_length := 0\<rparr>"

definition f_table :: "(u32 \<Rightarrow> u32 \<Rightarrow> u32 \<Rightarrow> u32) list" where
  "f_table = [ch, parity, maj, parity]"

definition k_table :: "u32 list" where
  "k_table = [0x5a827999, 0x6ed9eba1, 0x8f1bbcdc, 0xca62c1d6]"

text \<open>
  One iteration of the main loop, on the registers \<open>a\<close>, the window \<open>w\<close> and the round-group
  counters \<open>fi\<close> and \<open>fib\<close>. \<^verbatim>\<open>memmove(&a[1], &a[0], 16)\<close> shifts the registers up by one.
\<close>

fun nextBlock_step :: "nat \<Rightarrow> u32 list \<times> u32 list \<times> nat \<times> nat \<Rightarrow> u32 list \<times> u32 list \<times> nat \<times> nat" where
  "nextBlock_step t (a, w, fi, fib) =
    (let s = t AND 0xf;
         w = (if t \<ge> 16
              then w[s := rotl32 (w ! ((s + 13) AND 0xf) XOR w ! ((s + 8) AND 0xf)
                                  XOR w ! ((s + 2) AND 0xf) XOR w ! s) 1]
              else w);
         dtemp = (f_table ! fi) (a ! 1) (a ! 2) (a ! 3);
         temp = rotl32 (a ! 0) 5 + dtemp + a ! 4 + k_table ! fi + w ! s;
         a = memcpy_at a 1 (take 4 a);
         a = a[0 := temp];
         a = a[2 := rotl32 (a ! 2) 30];
         fib = fib + 1;
         (fib, fi) = (if fib = 20 then (0, (fi + 1) mod 4) else (fib, fi))
     in (a, w, fi, fib))"

definition sha1_nextBlock :: "sha1_ctx_t \<Rightarrow> u8 list \<Rightarrow> sha1_ctx_t" where
  "sha1_nextBlock state block =
    (let w = map (\<lambda>t. change_endian32 (load_le32 block t)) [0..<16];
         (a, w, fi, fib) = fold nextBlock_step [0..<80] (take 5 (ctx_h state), w, 0, 0)
     in state\<lparr>ctx_h := map (\<lambda>t. ctx_h state ! t + a ! t) [0..<5],
              ctx_length := ctx_length state + 512\<rparr>)"

function sha1_lastBlock_full :: "sha1_ctx_t \<Rightarrow> u8 list \<Rightarrow> u16 \<Rightarrow> sha1_ctx_t \<times> u8 list \<times> u16" where
  "sha1_lastBlock_full state block len =
    (if len \<ge> 512
     then sha1_lastBlock_full (sha1_nextBlock state (take 64 block)) (drop 64 block) (len - 512)
     else (state, block, len))"
  by pat_completeness auto
termination
  by (relation "measure (\<lambda>(s, b, l). unat l)")
    (auto simp: unat_sub_fits word_le_nat_alt)

declare sha1_lastBlock_full.simps [simp del]

definition sha1_lastBlock :: "sha1_ctx_t \<Rightarrow> u8 list \<Rightarrow> u16 \<Rightarrow> sha1_ctx_t" where
  "sha1_lastBlock state block len =
    (let (state, block, len) = sha1_lastBlock_full state block len;
         state = state\<lparr>ctx_length := ctx_length state + ucast len\<rparr>;
         lb = replicate 64 0;
         lb = memcpy_at lb 0 (take (unat (drop_bit 3 (len + 7))) block);
         i = unat (drop_bit 3 len);
         lb = lb[i := lb ! i OR drop_bit (unat (len AND 0x07)) 0x80];
         (state, lb) = (if len > 512 - 64 - 1
            then (let state = sha1_nextBlock state lb
                  in (state\<lparr>ctx_length := ctx_length state - 512\<rparr>, replicate 64 0))
            else (state, lb));
         lb = fold (\<lambda>i lb. lb[56 + i := ucast (drop_bit (8 * (7 - i)) (ctx_length state))]) [0..<8] lb
     in sha1_nextBlock state lb)"

definition sha1_ctx2hash :: "sha1_ctx_t \<Rightarrow> u8 list" where
  "sha1_ctx2hash state = concat (map (\<lambda>i. store_le32 (change_endian32 (ctx_h state ! i))) [0..<5])"

section \<open>The message in memory\<close>

text \<open>
  \<^verbatim>\<open>sha1\<close> hashes a message that is in memory as a whole; its length is in bits. The memory may be longer than the
  message, and the local context \<open>s\<close> has arbitrary contents.
\<close>

lemma and_not_511: "(len :: u32) AND NOT 0x0001ff \<noteq> 0 \<longleftrightarrow> 512 \<le> unat len"
proof -
  have m: "(0x0001ff :: u32) = mask 9" by (simp add: mask_eq_exp_minus_1)
  have "len AND NOT (mask 9) = push_bit 9 (drop_bit 9 len)"
    by (rule bit_word_eqI) (auto simp: bit_and_iff bit_not_iff bit_mask_iff bit_push_bit_iff bit_drop_bit_eq)
  moreover have "push_bit 9 (drop_bit 9 len) = 0 \<longleftrightarrow> drop_bit 9 len = 0"
  proof
    assume "push_bit 9 (drop_bit 9 len) = 0"
    moreover have "drop_bit 9 (push_bit 9 (drop_bit 9 len)) = drop_bit 9 len"
      by (rule bit_word_eqI) (auto simp: bit_push_bit_iff bit_drop_bit_eq dest: bit_imp_le_length)
    ultimately show "drop_bit 9 len = 0" by simp
  qed simp
  moreover have "drop_bit 9 len = 0 \<longleftrightarrow> unat len div 512 = 0"
  proof -
    have "unat (drop_bit 9 len) = unat len div 512"
      by (simp only: unat_drop_bit) (simp add: drop_bit_eq_div)
    then show ?thesis by (metis unat_eq_zero)
  qed
  ultimately show ?thesis by (simp add: m div_eq_0_iff not_less)
qed

function sha1_blocks :: "sha1_ctx_t \<Rightarrow> u8 list \<Rightarrow> u32 \<Rightarrow> sha1_ctx_t \<times> u8 list \<times> u32" where
  "sha1_blocks s msg len =
    (if len AND NOT 0x0001ff \<noteq> 0
     then sha1_blocks (sha1_nextBlock s (take 64 msg)) (drop 64 msg) (len - 512)
     else (s, msg, len))"
  by pat_completeness auto
termination
  by (relation "measure (\<lambda>(s, m, l). unat l)") (simp_all only: in_measure prod.case and_not_511 wf_measure,
    simp add: unat_sub_fits word_le_nat_alt)

declare sha1_blocks.simps [simp del]

definition sha1 :: "sha1_ctx_t \<Rightarrow> u8 list \<Rightarrow> u32 \<Rightarrow> u8 list" where
  "sha1 s msg len =
    (let s = sha1_init s;
         (s, msg, len) = sha1_blocks s msg len;
         s = sha1_lastBlock s msg (ucast len)
     in sha1_ctx2hash s)"

section \<open>The streaming interface of crypto-impl.c\<close>

record sha1_context =
  sha1_state :: sha1_ctx_t
  next_length :: nat
  next_block :: "u8 list"

definition sha1_reset :: "sha1_context \<Rightarrow> sha1_context" where
  "sha1_reset context = context\<lparr>sha1_state := sha1_init (sha1_state context), next_length := 0\<rparr>"

function sha1_add_full :: "sha1_context \<Rightarrow> u8 list \<Rightarrow> sha1_context \<times> u8 list" where
  "sha1_add_full context src =
    (if length src \<ge> 64
     then sha1_add_full (context\<lparr>sha1_state := sha1_nextBlock (sha1_state context) (take 64 src)\<rparr>) (drop 64 src)
     else (context, src))"
  by pat_completeness auto
termination
  by (relation "measure (\<lambda>(c, s). length s)") auto

declare sha1_add_full.simps [simp del]

definition sha1_add_fill :: "sha1_context \<Rightarrow> u8 list \<Rightarrow> sha1_context \<times> u8 list" where
  "sha1_add_fill context src =
    (if next_length context \<noteq> 0 then
       (let copy_len = min (length src) (64 - next_length context);
            context = context\<lparr>next_block :=
              memcpy_at (next_block context) (next_length context) (take copy_len src)\<rparr>;
            context = context\<lparr>next_length := next_length context + copy_len\<rparr>;
            src = drop copy_len src
        in if next_length context = 64
           then (context\<lparr>sha1_state := sha1_nextBlock (sha1_state context) (next_block context),
                         next_length := 0\<rparr>, src)
           else (context, src))
     else (context, src))"

definition sha1_add :: "sha1_context \<Rightarrow> u8 list \<Rightarrow> bool \<times> sha1_context" where
  "sha1_add context src =
    (let (context, src) = sha1_add_fill context src;
         (context, src) = sha1_add_full context src;
         context = (if length src > 0
           then context\<lparr>next_block := memcpy_at (next_block context) 0 src,
                        next_length := length src\<rparr>
           else context)
     in (True, context))"

definition sha1_result :: "sha1_context \<Rightarrow> bool \<times> u8 list \<times> sha1_context" where
  "sha1_result context =
    (let context = context\<lparr>sha1_state :=
           sha1_lastBlock (sha1_state context) (next_block context) (of_nat (next_length context * 8))\<rparr>
     in (True, sha1_ctx2hash (sha1_state context), context))"

section \<open>The block function computes the standard's compression\<close>

lemma and_0xf: "(n :: nat) AND 0xf = n mod 16"
proof -
  have "n AND 0xf = n AND mask 4" by (simp add: mask_eq_exp_minus_1)
  then show ?thesis by (simp add: take_bit_eq_mod flip: take_bit_eq_mask)
qed

lemma rotl32_rol: "rotl32 x n = rol x n"
  by (simp add: rotl32_def rol_def)

lemma masks32: "(0x0000ff00 :: u32) = push_bit 8 (mask 8)" "(0x00ff0000 :: u32) = push_bit 16 (mask 8)"
  by (simp_all add: mask_eq_exp_minus_1 push_bit_eq_mult)

lemma change_endian_be32: "change_endian32 (be32 a b c d) = be32 d c b a"
  unfolding change_endian32_def masks32
  by (rule bit_eqI)
    (auto simp: bit_be32 bit_or_iff bit_and_iff bit_push_bit_iff bit_drop_bit_eq bit_mask_iff dest: bit_imp_le_length)

lemma load_block_word: "change_endian32 (load_le32 b t) = block_word b t"
  by (simp add: load_le32_def block_word_def change_endian_be32)

lemma be32_of_bytes: "be32 (ucast (drop_bit 24 x)) (ucast (drop_bit 16 x)) (ucast (drop_bit 8 x)) (ucast x) = x"
  by (rule bit_eqI) (auto simp: bit_be32 bit_ucast_iff bit_drop_bit_eq)

lemma be32_bytes_be32: "be32_bytes (be32 a b c d) = [a, b, c, d]"
  by (auto simp: be32_bytes_def bit_eq_iff bit_ucast_iff bit_drop_bit_eq bit_be32 dest: bit_imp_le_length)

lemma store_le32_rev: "store_le32 x = rev (be32_bytes x)"
  by (simp add: store_le32_def be32_bytes_def)

lemma store_change: "store_le32 (change_endian32 x) = be32_bytes x"
  by (subst (1 2) be32_of_bytes [of x, symmetric])
    (simp only: change_endian_be32 store_le32_rev be32_bytes_be32 rev.simps append.simps)

definition window_ok :: "(nat \<Rightarrow> u32) \<Rightarrow> nat \<Rightarrow> u32 list \<Rightarrow> bool" where
  "window_ok m n w \<longleftrightarrow> length w = 16 \<and>
     (\<forall>j. (if n \<le> 16 then j < 16 else n - 16 \<le> j \<and> j < n) \<longrightarrow> w ! (j mod 16) = schedule m j)"

lemma window_step:
  assumes w: "window_ok m n w" and n: "16 \<le> n"
  shows "window_ok m (Suc n) (w[n mod 16 := rol (w ! ((n mod 16 + 13) mod 16) XOR w ! ((n mod 16 + 8) mod 16)
     XOR w ! ((n mod 16 + 2) mod 16) XOR w ! (n mod 16)) 1])"
proof -
  have get: "w ! (j mod 16) = schedule m j" if "n - 16 \<le> j" "j < n" for j
    using w that n by (auto simp: window_ok_def split: if_splits)
  have "(n mod 16 + k) mod 16 = (n - (16 - k)) mod 16" if "k \<le> 16" for k
  proof -
    have "(n mod 16 + k) mod 16 = (n + k) mod 16" by (simp add: mod_add_left_eq)
    also have "n + k = (n - (16 - k)) + 16" using n that by simp
    finally show ?thesis by simp
  qed
  then have k: "w ! ((n mod 16 + k) mod 16) = schedule m (n - (16 - k))" if "k < 16" for k
    using that n get [of "n - (16 - k)"] by simp
  have "w ! (n mod 16) = schedule m (n - 16)"
    using k [of 0] by simp
  moreover have "w ! ((n mod 16 + 13) mod 16) = schedule m (n - 3)"
    using k [of 13] by simp
  moreover have "w ! ((n mod 16 + 8) mod 16) = schedule m (n - 8)"
    using k [of 8] by simp
  moreover have "w ! ((n mod 16 + 2) mod 16) = schedule m (n - 14)"
    using k [of 2] by simp
  ultimately have v: "w ! ((n mod 16 + 13) mod 16) XOR w ! ((n mod 16 + 8) mod 16)
     XOR w ! ((n mod 16 + 2) mod 16) XOR w ! (n mod 16) =
     schedule m (n - 3) XOR schedule m (n - 8) XOR schedule m (n - 14) XOR schedule m (n - 16)"
    by simp
  have ne: "j mod 16 \<noteq> n mod 16" if j: "Suc n - 16 \<le> j" "j < n" for j
  proof
    assume "j mod 16 = n mod 16"
    with j have "16 dvd n - j"
      using mod_eq_dvd_iff_nat [of j n 16] by simp
    with j n show False
      by (auto dest: dvd_imp_le)
  qed
  let ?v = "rol (schedule m (n - 3) XOR schedule m (n - 8) XOR schedule m (n - 14) XOR schedule m (n - 16)) 1"
  have len: "length w = 16"
    using w by (simp add: window_ok_def)
  have "w[n mod 16 := ?v] ! (j mod 16) = schedule m j" if j: "Suc n - 16 \<le> j" "j < Suc n" for j
  proof (cases "j = n")
    case True
    with n len show ?thesis by (simp add: schedule_ge)
  next
    case False
    with j have "j < n" by simp
    with j ne [of j] get [of j] show ?thesis by simp
  qed
  with len n show ?thesis
    unfolding v by (simp add: window_ok_def)
qed

lemma window_get: "window_ok m n w \<Longrightarrow> n < 16 \<Longrightarrow> w ! (n mod 16) = schedule m n"
  by (auto simp: window_ok_def)

lemma window_get_late: "window_ok m (Suc n) w \<Longrightarrow> 16 \<le> n \<Longrightarrow> w ! (n mod 16) = schedule m n"
  by (auto simp: window_ok_def)

lemma window_init: "window_ok m n w \<Longrightarrow> n < 16 \<Longrightarrow> window_ok m (Suc n) w"
  by (auto simp: window_ok_def split: if_splits)

lemma round_functions: "ch = Ch" "maj = Maj" "parity = Parity"
  by (intro ext; simp only: ch_def Ch_def maj_def Maj_def parity_def Parity_def xor.assoc)+

lemma table_nth:
  "f_table ! 0 = Ch" "f_table ! 1 = Parity" "f_table ! 2 = Maj" "f_table ! 3 = Parity"
  "k_table ! 0 = 0x5a827999" "k_table ! 1 = 0x6ed9eba1" "k_table ! 2 = 0x8f1bbcdc" "k_table ! 3 = 0xca62c1d6"
  by (simp_all add: f_table_def k_table_def round_functions)

lemma f_k_group:
  assumes "q = 0 \<and> t < 20 \<or> q = 1 \<and> 20 \<le> t \<and> t < 40 \<or> q = 2 \<and> 40 \<le> t \<and> t < 60 \<or> q = (3::nat) \<and> 60 \<le> t"
  shows "f_table ! (q mod 4) = F_round t \<and> k_table ! (q mod 4) = K_round t"
proof -
  have "q mod 4 = q" using assms by auto
  then show ?thesis
    using assms by (elim disjE) (simp_all add: table_nth [simplified] F_round_def K_round_def)
qed

lemma f_k_tables:
  assumes "t < 80"
  shows "f_table ! (t div 20 mod 4) = F_round t" "k_table ! (t div 20 mod 4) = K_round t"
proof -
  consider "t < 20" | "20 \<le> t" "t < 40" | "40 \<le> t" "t < 60" | "60 \<le> t"
    by (meson linorder_not_less)
  then have "t div 20 = 0 \<and> t < 20 \<or> t div 20 = 1 \<and> 20 \<le> t \<and> t < 40
      \<or> t div 20 = 2 \<and> 40 \<le> t \<and> t < 60 \<or> t div 20 = 3 \<and> 60 \<le> t"
  proof cases
    case 2
    then have "t div 20 = 1" by (intro div_nat_eqI) simp_all
    with 2 show ?thesis by blast
  next
    case 3
    then have "t div 20 = 2" by (intro div_nat_eqI) simp_all
    with 3 show ?thesis by blast
  next
    case 4
    with assms have "t div 20 = 3" by (intro div_nat_eqI) simp_all
    with 4 show ?thesis by blast
  qed simp
  from f_k_group [OF this]
  show "f_table ! (t div 20 mod 4) = F_round t" "k_table ! (t div 20 mod 4) = K_round t"
    by (rule conjunct1, rule conjunct2)
qed

lemma group_step: "(if Suc (n mod 20) = 20 then (0, Suc (n div 20 mod 4) mod 4) else (Suc (n mod 20), n div 20 mod 4))
   = (Suc n mod 20, Suc n div 20 mod 4)"
  by (auto simp: mod_Suc div_Suc)

lemma nextBlock_step_regs:
  "nextBlock_step t ([a, b, c, d, e], w, fi, fib) =
    (let w' = (if 16 \<le> t then w[t mod 16 := rol (w ! ((t mod 16 + 13) mod 16) XOR w ! ((t mod 16 + 8) mod 16)
     XOR w ! ((t mod 16 + 2) mod 16) XOR w ! (t mod 16)) 1] else w);
         g = (if Suc fib = 20 then (0, Suc fi mod 4) else (Suc fib, fi))
     in ([rol a 5 + (f_table ! fi) b c d + e + k_table ! fi + w' ! (t mod 16), a, rol b 30, c, d],
         w', snd g, fst g))"
  by (simp add: Let_def rotl32_rol and_0xf memcpy_at_def split: prod.split)

lemma nextBlock_loop:
  assumes w: "window_ok m 0 w" and n: "n \<le> 80"
  shows "\<exists>w'. fold nextBlock_step [0..<n] (regs_list h, w, 0, 0) =
    (regs_list (rounds (schedule m) n h), w', n div 20 mod 4, n mod 20) \<and> window_ok m n w'"
  using n
proof (induction n)
  case 0
  with w show ?case by simp
next
  case (Suc n)
  then obtain w' where f: "fold nextBlock_step [0..<n] (regs_list h, w, 0, 0) =
    (regs_list (rounds (schedule m) n h), w', n div 20 mod 4, n mod 20)" and w': "window_ok m n w'"
    by auto
  obtain a b c d e where r: "rounds (schedule m) n h = (a, b, c, d, e)"
    by (cases "rounds (schedule m) n h" rule: regs_list.cases)
  let ?w = "if 16 \<le> n then w'[n mod 16 := rol (w' ! ((n mod 16 + 13) mod 16) XOR w' ! ((n mod 16 + 8) mod 16)
     XOR w' ! ((n mod 16 + 2) mod 16) XOR w' ! (n mod 16)) 1] else w'"
  have ok: "window_ok m (Suc n) ?w"
    using window_step [OF w'] window_init [OF w'] by auto
  have g: "?w ! (n mod 16) = schedule m n"
    using window_get_late [OF ok] window_get [OF w'] by (cases "16 \<le> n") auto
  have "nextBlock_step n ([a, b, c, d, e], w', n div 20 mod 4, n mod 20) =
    (regs_list (round_step (schedule m) n (a, b, c, d, e)), ?w, Suc n div 20 mod 4, Suc n mod 20)"
    using Suc.prems g group_step [of n]
    by (simp only: nextBlock_step_regs Let_def f_k_tables round_step.simps regs_list.simps fst_conv snd_conv)
  with f ok r show ?case by auto
qed

lemma window_start: "window_ok m 0 (map m [0..<16])"
  by (auto simp: window_ok_def schedule_lt)

lemma regs_list_add: "map (\<lambda>t. regs_list h ! t + regs_list r ! t) [0..<5] = regs_list (regs_add h r)"
  by (cases h rule: regs_list.cases; cases r rule: regs_list.cases) (simp add: upt_rec)

lemma nextBlock_compress:
  assumes h: "ctx_h st = regs_list h"
  shows "sha1_nextBlock st b = st\<lparr>ctx_h := regs_list (compress h b), ctx_length := ctx_length st + 512\<rparr>"
proof -
  obtain w' where f: "fold nextBlock_step [0..<80] (regs_list h, map (block_word b) [0..<16], 0, 0) =
      (regs_list (rounds (schedule (block_word b)) 80 h), w', 80 div 20 mod 4, 80 mod 20)"
    using nextBlock_loop [of "block_word b" "map (block_word b) [0..<16]" 80 h, OF window_start] by auto
  have w: "map (\<lambda>t. change_endian32 (load_le32 b t)) [0..<16] = map (block_word b) [0..<16]"
    by (simp only: load_block_word)
  have t: "take 5 (regs_list h) = regs_list h"
    by simp
  show ?thesis
    unfolding sha1_nextBlock_def Let_def h w t f split_beta fst_conv snd_conv regs_list_add compress_def ..
qed

lemma lastBlock_full_short: "len < 512 \<Longrightarrow> sha1_lastBlock_full st b len = (st, b, len)"
  by (subst sha1_lastBlock_full.simps) (simp only: leD not_le [THEN iffD2] if_False)

lemma store_length:
  assumes "length lb = 64"
  shows "fold (\<lambda>i lb. lb[56 + i := ucast (drop_bit (8 * (7 - i)) (n :: u64))]) [0..<8] lb = take 56 lb @ be64_bytes n"
proof (rule nth_equalityI)
  show "length (fold (\<lambda>i lb. lb[56 + i := ucast (drop_bit (8 * (7 - i)) n)]) [0..<8] lb) = length (take 56 lb @ be64_bytes n)"
    using assms by (simp add: upt_rec)
next
  fix i assume "i < length (fold (\<lambda>i lb. lb[56 + i := ucast (drop_bit (8 * (7 - i)) n)]) [0..<8] lb)"
  then have i: "i < 64" using assms by (simp add: upt_rec)
  show "fold (\<lambda>i lb. lb[56 + i := ucast (drop_bit (8 * (7 - i)) n)]) [0..<8] lb ! i = (take 56 lb @ be64_bytes n) ! i"
  proof (cases "i < 56")
    case True
    then show ?thesis using assms by (simp add: upt_rec nth_append)
  next
    case False
    with i have "i = 56 \<or> i = 57 \<or> i = 58 \<or> i = 59 \<or> i = 60 \<or> i = 61 \<or> i = 62 \<or> i = 63" by linarith
    then show ?thesis using assms by (elim disjE) (simp_all add: upt_rec nth_append be64_bytes_def)
  qed
qed

lemma lastBlock_bits:
  assumes "n < 64" and len: "len = (of_nat (n * 8) :: u16)"
  shows "unat len = 8 * n" "unat (drop_bit 3 (len + 7)) = n" "unat (drop_bit 3 len) = n"
    "unat (len AND 7) = 0" "len < 512" "512 - 64 - 1 < len \<longleftrightarrow> 56 \<le> n" "(ucast len :: u64) = of_nat (8 * n)"
proof -
  show l: "unat len = 8 * n"
    using assms(1) by (simp only: len unat_of_nat) simp
  have "unat (len + 7) = 8 * n + 7"
    using assms(1) l by (simp add: unat_add_fits)
  then show "unat (drop_bit 3 (len + 7)) = n"
    by (simp only: unat_drop_bit) (simp add: drop_bit_eq_div)
  show "unat (drop_bit 3 len) = n"
    by (simp only: unat_drop_bit l) (simp add: drop_bit_eq_div)
  have "unat (len AND 7) = 8 * n AND mask 3"
    by (simp add: unat_and l mask_eq_exp_minus_1)
  then show "unat (len AND 7) = 0"
    by (simp add: take_bit_eq_mod flip: take_bit_eq_mask)
  show "len < 512" "512 - 64 - 1 < len \<longleftrightarrow> 56 \<le> n"
    using assms(1) by (auto simp: word_less_nat_alt l)
  show "(ucast len :: u64) = of_nat (8 * n)"
    by (metis l of_nat_unat)
qed

lemma lastBlock_absorb:
  assumes h: "ctx_h st = regs_list r" and rs: "take (length rs) b = rs" "length rs < 64"
    and l: "len = of_nat (length rs * 8)"
  shows "ctx_h (sha1_lastBlock st b len) =
    regs_list (absorb r (final_blocks rs (ctx_length st + ucast len)))"
proof -
  let ?n = "length rs"
  let ?lb = "rs @ 0x80 # replicate (63 - ?n) 0"
  let ?m = "ctx_length st + ucast len"
  let ?st = "st\<lparr>ctx_length := ?m\<rparr>"
  note bits = lastBlock_bits [OF rs(2) l]
  have lb: "(memcpy_at (replicate 64 0) 0 (take ?n b))
      [?n := memcpy_at (replicate 64 0) 0 (take ?n b) ! ?n OR drop_bit 0 0x80] = ?lb"
  proof -
    have "replicate (64 - ?n) (0 :: u8) = 0 # replicate (63 - ?n) 0"
      using rs(2) by (simp add: Suc_diff_le flip: replicate_Suc)
    with rs show ?thesis by (simp add: memcpy_at_def nth_append list_update_append)
  qed
  have len: "length ?lb = 64" using rs by simp
  show ?thesis
  proof (cases "?n < 56")
    case True
    then have "take 56 ?lb = rs @ 0x80 # replicate (55 - ?n) 0"
      by (simp add: take_Cons' min_def)
    then have f: "take 56 ?lb @ be64_bytes m = final_blocks rs m" for m
      using True by (simp add: final_blocks_def pad_zeros_def mod_if)
    have c: "(512 - 64 - 1 < len) = False"
      using True bits(6) by simp
    have "sha1_lastBlock st b len = sha1_nextBlock ?st (final_blocks rs ?m)"
      unfolding sha1_lastBlock_def lastBlock_full_short [OF bits(5)] Let_def prod.case bits(2-4) c if_False
      unfolding lb store_length [OF len] by (simp add: f del: take_append)
    then show ?thesis
      using True by (simp add: nextBlock_compress [of _ r] h absorb_one length_final_blocks)
  next
    case False
    let ?st1 = "st\<lparr>ctx_h := regs_list (compress r ?lb), ctx_length := ?m\<rparr>"
    have "119 - ?n = 63 - ?n + 56" using rs by simp
    then have f: "?lb @ replicate 56 0 @ be64_bytes m = final_blocks rs m" for m
      using False rs by (simp add: final_blocks_def pad_zeros_def) (simp flip: replicate_add)
    have c: "(512 - 64 - 1 < len) = True"
      using False bits(6) by simp
    have "sha1_lastBlock st b len = sha1_nextBlock ?st1 (replicate 56 0 @ be64_bytes ?m)"
      unfolding sha1_lastBlock_def lastBlock_full_short [OF bits(5)] Let_def prod.case bits(2-4) c if_True
      unfolding lb by (simp add: store_length nextBlock_compress [of _ r] h)
    then have "ctx_h (sha1_lastBlock st b len) = regs_list (absorb r (?lb @ replicate 56 0 @ be64_bytes ?m))"
      using absorb_block [OF len] by (simp add: nextBlock_compress [of _ "compress r ?lb"] absorb_one)
    then show ?thesis by (simp only: f)
  qed
qed

lemma ctx2hash_bytes: "ctx_h st = regs_list r \<Longrightarrow> sha1_ctx2hash st = concat (map be32_bytes (regs_list r))"
  by (cases r rule: regs_list.cases) (simp add: sha1_ctx2hash_def store_change upt_rec)

section \<open>Hashing the message in memory\<close>

lemma blocks_short: "unat len < 512 \<Longrightarrow> sha1_blocks s msg len = (s, msg, len)"
  by (subst sha1_blocks.simps) (simp only: and_not_511 not_le [symmetric] if_False)

lemma blocks_long:
  "512 \<le> unat len \<Longrightarrow> sha1_blocks s msg len = sha1_blocks (sha1_nextBlock s (take 64 msg)) (drop 64 msg) (len - 512)"
  by (subst sha1_blocks.simps) (simp only: and_not_511 if_True)

lemma blocks_absorb:
  assumes "ctx_h s = regs_list r" "unat len = 8 * length m"
  shows "sha1_blocks s (m @ tail) len = (s\<lparr>ctx_h := regs_list (absorb r m),
     ctx_length := ctx_length s + of_nat (512 * (length m div 64))\<rparr>, rest m @ tail, of_nat (8 * length (rest m)))"
  using assms
proof (induction "length m" arbitrary: s r m len rule: less_induct)
  case less
  show ?case
  proof (cases "64 \<le> length m")
    case False
    have "len = of_nat (8 * length m)"
      using less.prems(2) by (metis of_nat_unat ucast_id)
    then show ?thesis
      using False less.prems(1) less.prems(2) by (simp add: blocks_short absorb_short rest_short)
  next
    case True
    let ?s = "sha1_nextBlock s (take 64 m)"
    note st = nextBlock_compress [OF less.prems(1), of "take 64 m"]
    have "unat (len - 512) = 8 * length (drop 64 m)"
      using less.prems(2) True by (simp add: unat_sub_fits)
    moreover have "rest m = rest (drop 64 m)"
      using True rest_block [of "take 64 m" "drop 64 m"] by simp
    moreover have "length m div 64 = Suc (length (drop 64 m) div 64)"
      using True by (simp add: le_div_geq)
    moreover have "sha1_blocks s (m @ tail) len = sha1_blocks ?s (drop 64 m @ tail) (len - 512)"
      using True less.prems(2) by (simp add: blocks_long)
    ultimately show ?thesis
      using less.hyps [of "drop 64 m" ?s "compress r (take 64 m)" "len - 512"] True
      by (simp add: st absorb_long algebra_simps)
  qed
qed

lemma sha1_spec_memory:
  assumes "unat len = 8 * length m"
  shows "sha1 s (m @ tail) len = sha1_spec m"
proof -
  let ?s = "sha1_init s\<lparr>ctx_h := regs_list (absorb H_init m), ctx_length := of_nat (512 * (length m div 64))\<rparr>"
  have h: "ctx_h (sha1_init s) = regs_list H_init" "ctx_length (sha1_init s) = 0"
    by (simp_all add: sha1_init_def H_init_def)
  have b: "sha1_blocks (sha1_init s) (m @ tail) len = (?s, rest m @ tail, of_nat (8 * length (rest m)))"
    using blocks_absorb [OF h(1) assms] h(2) by simp
  have l: "(ucast (of_nat (8 * length (rest m)) :: u32) :: u16) = of_nat (length (rest m) * 8)"
    using rest_less [of m] by (simp only: unsigned_of_nat) (simp add: take_bit_nat_eq_self mult.commute del: of_nat_mult)
  have "8 * length m = 512 * (length m div 64) + 8 * (length m mod 64)"
    using mult_div_mod_eq [of 64 "length m"] by linarith
  then have n: "ctx_length ?s + ucast (of_nat (length (rest m) * 8) :: u16) = of_nat (8 * length m)"
    using lastBlock_bits(7) [OF rest_less refl, of m] by (simp add: length_rest flip: of_nat_add of_nat_mult)
  have "ctx_h (sha1_lastBlock ?s (rest m @ tail) (of_nat (length (rest m) * 8))) = regs_list (absorb H_init (pad m))"
    using lastBlock_absorb [of ?s "absorb H_init m" "rest m" "rest m @ tail", OF _ _ rest_less refl]
    by (simp only: absorb_pad n) simp
  from ctx2hash_bytes [OF this] show ?thesis
    unfolding sha1_def Let_def b prod.case l sha1_spec_def .
qed

section \<open>The streaming interface implements the standard's function\<close>

lemma div64_add: "(a + b) div 64 = a div 64 + (a mod 64 + b) div (64::nat)"
proof -
  have "a + b = a div 64 * 64 + (a mod 64 + b)" by simp
  then show ?thesis by (simp only: div_mult_self3 zero_neq_numeral not_False_eq_True)
qed

lemma add_full_absorb:
  assumes "ctx_h (sha1_state c) = regs_list r"
  shows "sha1_add_full c src = (c\<lparr>sha1_state := (sha1_state c)
     \<lparr>ctx_h := regs_list (absorb r src),
      ctx_length := ctx_length (sha1_state c) + of_nat (512 * (length src div 64))\<rparr>\<rparr>, rest src)"
  using assms
proof (induction c src arbitrary: r rule: sha1_add_full.induct)
  case (1 c src)
  show ?case
  proof (cases "64 \<le> length src")
    case False
    then show ?thesis
      using "1.prems" by (subst sha1_add_full.simps) (simp add: absorb_short rest_short)
  next
    case True
    let ?c = "c\<lparr>sha1_state := sha1_nextBlock (sha1_state c) (take 64 src)\<rparr>"
    have st: "sha1_nextBlock (sha1_state c) (take 64 src) = (sha1_state c)
        \<lparr>ctx_h := regs_list (compress r (take 64 src)), ctx_length := ctx_length (sha1_state c) + 512\<rparr>"
      using "1.prems" by (rule nextBlock_compress)
    have "length src div 64 = Suc (length (drop 64 src) div 64)"
      using True by (simp add: le_div_geq)
    moreover have "rest src = rest (drop 64 src)"
      using True rest_block [of "take 64 src" "drop 64 src"] by simp
    moreover have "sha1_add_full c src = sha1_add_full ?c (drop 64 src)"
      using True by (subst sha1_add_full.simps) simp
    ultimately show ?thesis
      using "1.IH" [OF True, of "compress r (take 64 src)"] True
      by (simp add: st absorb_long algebra_simps)
  qed
qed

definition avr_repr :: "sha1_context \<Rightarrow> u8 list \<Rightarrow> bool" where
  "avr_repr c m \<longleftrightarrow> ctx_h (sha1_state c) = regs_list (absorb H_init m) \<and>
     ctx_length (sha1_state c) = of_nat (512 * (length m div 64)) \<and>
     next_length c = length m mod 64 \<and> length (next_block c) = 64 \<and>
     take (next_length c) (next_block c) = rest m"

lemma avr_reset: "length (next_block c) = 64 \<Longrightarrow> avr_repr (sha1_reset c) []"
  by (simp add: avr_repr_def sha1_reset_def sha1_init_def H_init_def)

lemma avr_add_fill_partial:
  assumes r: "avr_repr c m" and n: "length m mod 64 \<noteq> 0" and l: "length m mod 64 + length s < 64"
  shows "snd (sha1_add_fill c s) = []" "avr_repr (fst (sha1_add_fill c s)) (m @ s)"
proof -
  have d: "(length m + length s) div 64 = length m div 64" "(length m + length s) mod 64 = length m mod 64 + length s"
    using l div64_add [of "length m" "length s"] mod_add_left_eq [of "length m" 64 "length s"] by simp_all
  have sl: "length s \<le> 64 - length m mod 64" using l by simp
  have t: "take (length m mod 64) (next_block c) = rest m"
    using r unfolding avr_repr_def by metis
  have a: "absorb H_init (m @ s) = absorb H_init m"
    using l by (simp only: absorb_rest [of _ m s]) (simp add: absorb_short length_rest)
  have "rest (m @ s) = rest m @ s"
    using l by (simp only: rest_append [of m s]) (simp add: rest_short length_rest)
  then show "snd (sha1_add_fill c s) = []" "avr_repr (fst (sha1_add_fill c s)) (m @ s)"
    using r n l sl t take_memcpy_at [of "length m mod 64" "next_block c" s]
    by (simp_all add: avr_repr_def sha1_add_fill_def Let_def d a min_def)
qed

lemma avr_add_fill_block:
  assumes r: "avr_repr c m" and n: "length m mod 64 \<noteq> 0" and l: "64 \<le> length m mod 64 + length s"
  defines "k \<equiv> 64 - length m mod 64"
  shows "snd (sha1_add_fill c s) = drop k s" "avr_repr (fst (sha1_add_fill c s)) (m @ take k s)"
proof -
  have k: "length (take k s) = k" "length m mod 64 + k = 64" "min (length s) k = k"
    using l by (auto simp: k_def)
  have "(length m + k) div 64 = Suc (length m div 64)" "(length m + k) mod 64 = 0"
    using k(2) div64_add [of "length m" k] mod_add_left_eq [of "length m" 64 k] by simp_all
  moreover have a: "absorb H_init (m @ take k s) = compress (absorb H_init m) (rest m @ take k s)"
    using k by (simp only: absorb_rest [of _ m]) (simp add: absorb_one length_rest)
  moreover have "rest (m @ take k s) = []"
    using length_rest [of "m @ take k s"] k mod_add_left_eq [of "length m" 64 k] by simp
  moreover have "take (length m mod 64) (next_block c) = rest m"
    using r unfolding avr_repr_def by metis
  then have "memcpy_at (next_block c) (length m mod 64) (take k s) = rest m @ take k s"
    using r k by (simp add: avr_repr_def memcpy_at_def)
  moreover have "length (next_block c) = 64" using r by (simp add: avr_repr_def)
  ultimately show "snd (sha1_add_fill c s) = drop k s" "avr_repr (fst (sha1_add_fill c s)) (m @ take k s)"
    using r n k
    by (simp_all add: avr_repr_def sha1_add_fill_def Let_def k_def [symmetric] length_rest
        nextBlock_compress [of _ "absorb H_init m"] algebra_simps)
qed

lemma avr_add_rest:
  assumes r: "avr_repr c m" and n: "length m mod 64 = 0" 
  shows "avr_repr (case sha1_add_full c s of (c', s') \<Rightarrow>
    if length s' > 0 then c'\<lparr>next_block := memcpy_at (next_block c') 0 s', next_length := length s'\<rparr> else c') (m @ s)"
proof -
  have m: "rest m = []" using n length_rest [of m] by simp
  have a: "absorb H_init (m @ s) = absorb (absorb H_init m) s" "rest (m @ s) = rest s"
    using absorb_rest [of H_init m s] rest_append [of m s] by (simp_all add: m)
  have d: "(length m + length s) div 64 = length m div 64 + length s div 64"
      "(length m + length s) mod 64 = length s mod 64"
    using n div64_add [of "length m" "length s"] mod_add_left_eq [of "length m" 64 "length s"] by simp_all
  have s: "length (rest s) \<le> 64" using rest_less [of s] by simp
  have h: "ctx_h (sha1_state c) = regs_list (absorb H_init m)" using r by (simp add: avr_repr_def)
  show ?thesis
    using r n s take_memcpy_at [of 0 "next_block c" "rest s"] length_rest [of s]
    by (auto simp: add_full_absorb [OF h] avr_repr_def a d algebra_simps)
qed

lemma avr_add:
  assumes r: "avr_repr c m"
  shows "fst (sha1_add c s)" "avr_repr (snd (sha1_add c s)) (m @ s)"
proof -
  show "fst (sha1_add c s)" by (simp add: sha1_add_def split: prod.split)
  obtain c1 s1 where f: "sha1_add_fill c s = (c1, s1)" by (cases "sha1_add_fill c s")
  have "\<exists>m1. avr_repr c1 m1 \<and> m1 @ s1 = m @ s \<and> (length m1 mod 64 = 0 \<or> s1 = [])"
  proof (cases "length m mod 64 = 0")
    case True
    with r f show ?thesis by (auto simp: sha1_add_fill_def avr_repr_def)
  next
    case False
    let ?k = "64 - length m mod 64"
    show ?thesis
    proof (cases "length m mod 64 + length s < 64")
      case True
      from avr_add_fill_partial [OF r False True] f show ?thesis by auto
    next
      case l: False
      have b: "avr_repr c1 (m @ take ?k s)" "s1 = drop ?k s"
        using avr_add_fill_block [OF r False, of s] l f by simp_all
      have k: "length (take ?k s) = ?k"
        using l by simp
      have "length m mod 64 + ?k = 64"
        by (intro le_add_diff_inverse less_imp_le) simp
      then have "(length m + ?k) mod 64 = 64 mod 64"
        by (metis mod_add_left_eq)
      then have "length (m @ take ?k s) mod 64 = 0"
        unfolding length_append k by (simp only: mod_self)
      with b show ?thesis
        by (intro exI [of _ "m @ take ?k s"]) (simp only: append_assoc append_take_drop_id simp_thms)
    qed
  qed
  then obtain m1 where "avr_repr c1 m1 \<and> m1 @ s1 = m @ s \<and> (length m1 mod 64 = 0 \<or> s1 = [])" ..
  then have m1: "avr_repr c1 m1" "m1 @ s1 = m @ s" "length m1 mod 64 = 0 \<or> s1 = []"
    by simp_all
  have "avr_repr (case sha1_add_full c1 s1 of (c', s') \<Rightarrow>
    if length s' > 0 then c'\<lparr>next_block := memcpy_at (next_block c') 0 s', next_length := length s'\<rparr> else c') (m1 @ s1)"
    using m1(3)
  proof
    assume "s1 = []"
    then show ?thesis using m1(1) by (subst sha1_add_full.simps) simp
  qed (rule avr_add_rest [OF m1(1)])
  then show "avr_repr (snd (sha1_add c s)) (m @ s)"
    by (auto simp: sha1_add_def f m1(2) split: prod.splits if_splits)
qed

lemma avr_result:
  assumes r: "avr_repr c m"
  shows "fst (sha1_result c)" "fst (snd (sha1_result c)) = sha1_spec m"
proof -
  show "fst (sha1_result c)" by (simp add: sha1_result_def Let_def)
  have n: "next_length c = length (rest m)" "take (length (rest m)) (next_block c) = rest m"
    using r by (auto simp: avr_repr_def length_rest)
  have l: "ctx_length (sha1_state c) + of_nat (8 * length (rest m)) = of_nat (8 * length m)"
  proof -
    have "8 * length m = 512 * (length m div 64) + 8 * (length m mod 64)"
      using mult_div_mod_eq [of 64 "length m"] by linarith
    then show ?thesis using r by (simp add: avr_repr_def length_rest flip: of_nat_add of_nat_mult)
  qed
  have h: "ctx_h (sha1_state c) = regs_list (absorb H_init m)" using r by (simp add: avr_repr_def)
  have "ctx_h (sha1_lastBlock (sha1_state c) (next_block c) (of_nat (next_length c * 8))) =
      regs_list (absorb H_init (pad m))"
    using lastBlock_absorb [OF h n(2) rest_less refl] lastBlock_bits(7) [OF rest_less refl, of m]
    by (simp only: n(1) absorb_pad l)
  then show "fst (snd (sha1_result c)) = sha1_spec m"
    by (simp add: sha1_result_def Let_def ctx2hash_bytes sha1_spec_def)
qed

interpretation avr: hash_stream sha1_reset sha1_add sha1_result avr_repr
    "\<lambda>c. length (next_block c) = 64" "\<lambda>_. True"
  by unfold_locales (simp_all add: avr_reset avr_add avr_result)

end
