(* ===== verification/Sha1_Ref.thy ===== *)
theory Sha1_Ref
  imports Sha1_Spec
begin

text \<open>
  \<^verbatim>\<open>peer/crypto/ref/sha1.c\<close>, the RFC 6234 implementation kept beside the AVR one as the reference,
  with its wrapper \<^verbatim>\<open>peer/crypto/ref/crypto-impl.c\<close>. Pointers are values here, so the null checks
  have no counterpart; every other early return is a branch. \<open>Message_Block_Index\<close> is an
  \<^verbatim>\<open>int_least16_t\<close> that stays between 0 and 64. The wrapper passes its length on as an \<^verbatim>\<open>unsigned\<close>; the cut
  of lengths that do not fit is left out, so a call adds fewer bytes than an \<^verbatim>\<open>unsigned\<close> can count.
\<close>

section \<open>Macros\<close>

definition SHA_Ch :: "u32 \<Rightarrow> u32 \<Rightarrow> u32 \<Rightarrow> u32" where
  "SHA_Ch x y z = (x AND y) XOR (NOT x AND z)"

definition SHA_Maj :: "u32 \<Rightarrow> u32 \<Rightarrow> u32 \<Rightarrow> u32" where
  "SHA_Maj x y z = (x AND y) XOR (x AND z) XOR (y AND z)"

definition SHA_Parity :: "u32 \<Rightarrow> u32 \<Rightarrow> u32 \<Rightarrow> u32" where
  "SHA_Parity x y z = x XOR y XOR z"

definition SHA1_ROTL :: "nat \<Rightarrow> u32 \<Rightarrow> u32" where
  "SHA1_ROTL bits word = push_bit bits word OR drop_bit (32 - bits) word"

section \<open>Context and block processing\<close>

datatype sha_error = shaSuccess | shaNull | shaInputTooLong | shaStateError | shaBadParam

record SHA1Context =
  Intermediate_Hash :: "u32 list"
  Length_High :: u32
  Length_Low :: u32
  Message_Block_Index :: nat
  Message_Block :: "u8 list"
  Computed :: bool
  Corrupted :: sha_error

text \<open>The macro \<^verbatim>\<open>SHA1AddLength\<close>; its value is the new \<open>Corrupted\<close> code.\<close>

definition SHA1AddLength :: "SHA1Context \<Rightarrow> u32 \<Rightarrow> SHA1Context" where
  "SHA1AddLength context len =
    (let addTemp = Length_Low context;
         context = context\<lparr>Length_Low := Length_Low context + len\<rparr>
     in if Length_Low context < addTemp
        then (let context = context\<lparr>Length_High := Length_High context + 1\<rparr>
              in if Length_High context = 0 then context\<lparr>Corrupted := shaInputTooLong\<rparr> else context)
        else context)"

definition SHA1Reset :: "SHA1Context \<Rightarrow> sha_error \<times> SHA1Context" where
  "SHA1Reset context = (shaSuccess, context\<lparr>Length_High := 0, Length_Low := 0,
     Message_Block_Index := 0,
     Intermediate_Hash := [0x67452301, 0xEFCDAB89, 0x98BADCFE, 0x10325476, 0xC3D2E1F0],
     Computed := False, Corrupted := shaSuccess\<rparr>)"

definition K_const :: "u32 list" where
  "K_const = [0x5A827999, 0x6ED9EBA1, 0x8F1BBCDC, 0xCA62C1D6]"

definition schedule_array :: "u8 list \<Rightarrow> u32 list" where
  "schedule_array block =
    fold (\<lambda>t W. W[t := SHA1_ROTL 1 (W ! (t - 3) XOR W ! (t - 8) XOR W ! (t - 14) XOR W ! (t - 16))])
      [16..<80]
      (map (\<lambda>t. push_bit 24 (ucast (block ! (t * 4))) OR push_bit 16 (ucast (block ! (t * 4 + 1)))
            OR push_bit 8 (ucast (block ! (t * 4 + 2))) OR ucast (block ! (t * 4 + 3))) [0..<16]
       @ replicate 64 0)"

fun round_loop :: "u32 list \<Rightarrow> (u32 \<Rightarrow> u32 \<Rightarrow> u32 \<Rightarrow> u32) \<Rightarrow> u32 \<Rightarrow> nat \<Rightarrow> regs \<Rightarrow> regs" where
  "round_loop W f k t (A, B, C, D, E) =
    (let temp = SHA1_ROTL 5 A + f B C D + E + W ! t + k
     in (temp, A, SHA1_ROTL 30 B, C, D))"

definition SHA1ProcessMessageBlock :: "SHA1Context \<Rightarrow> SHA1Context" where
  "SHA1ProcessMessageBlock context =
    (let W = schedule_array (Message_Block context);
         H = Intermediate_Hash context;
         r = (H ! 0, H ! 1, H ! 2, H ! 3, H ! 4);
         r = fold (round_loop W SHA_Ch (K_const ! 0)) [0..<20] r;
         r = fold (round_loop W SHA_Parity (K_const ! 1)) [20..<40] r;
         r = fold (round_loop W SHA_Maj (K_const ! 2)) [40..<60] r;
         (A, B, C, D, E) = fold (round_loop W SHA_Parity (K_const ! 3)) [60..<80] r
     in context\<lparr>Intermediate_Hash := [H ! 0 + A, H ! 1 + B, H ! 2 + C, H ! 3 + D, H ! 4 + E],
                Message_Block_Index := 0\<rparr>)"

section \<open>Input, padding and result\<close>

text \<open>\<^verbatim>\<open>context->Message_Block[context->Message_Block_Index++] = b\<close>.\<close>

definition push_byte :: "SHA1Context \<Rightarrow> u8 \<Rightarrow> SHA1Context" where
  "push_byte context b = context\<lparr>Message_Block :=
     (Message_Block context)[Message_Block_Index context := b],
     Message_Block_Index := Message_Block_Index context + 1\<rparr>"

definition input_byte :: "SHA1Context \<Rightarrow> u8 \<Rightarrow> SHA1Context" where
  "input_byte context b =
    (let context = push_byte context b;
         context = SHA1AddLength context 8
     in if Corrupted context = shaSuccess \<and> Message_Block_Index context = 64
        then SHA1ProcessMessageBlock context else context)"

definition SHA1Input :: "SHA1Context \<Rightarrow> u8 list \<Rightarrow> sha_error \<times> SHA1Context" where
  "SHA1Input context message_array =
    (if length message_array = 0 then (shaSuccess, context)
     else if Computed context then (shaStateError, context\<lparr>Corrupted := shaStateError\<rparr>)
     else if Corrupted context \<noteq> shaSuccess then (Corrupted context, context)
     else (let context = fold (\<lambda>b c. input_byte c b) message_array context
           in (Corrupted context, context)))"

text \<open>\<^verbatim>\<open>while (context->Message_Block_Index < limit) ... = 0\<close>.\<close>

function fill_zero :: "nat \<Rightarrow> SHA1Context \<Rightarrow> SHA1Context" where
  "fill_zero limit context =
    (if Message_Block_Index context < limit then fill_zero limit (push_byte context 0) else context)"
  by pat_completeness auto
termination
  by (relation "measure (\<lambda>(l, c). l - Message_Block_Index c)") (auto simp: push_byte_def)

declare fill_zero.simps [simp del]

definition SHA1PadMessage :: "SHA1Context \<Rightarrow> u8 \<Rightarrow> SHA1Context" where
  "SHA1PadMessage context Pad_Byte =
    (let context = (if Message_Block_Index context \<ge> 64 - 8
           then SHA1ProcessMessageBlock (fill_zero 64 (push_byte context Pad_Byte))
           else push_byte context Pad_Byte);
         context = fill_zero (64 - 8) context;
         hi = Length_High context;
         lo = Length_Low context;
         mb = Message_Block context;
         mb = mb[56 := ucast (drop_bit 24 hi)];
         mb = mb[57 := ucast (drop_bit 16 hi)];
         mb = mb[58 := ucast (drop_bit 8 hi)];
         mb = mb[59 := ucast hi];
         mb = mb[60 := ucast (drop_bit 24 lo)];
         mb = mb[61 := ucast (drop_bit 16 lo)];
         mb = mb[62 := ucast (drop_bit 8 lo)];
         mb = mb[63 := ucast lo]
     in SHA1ProcessMessageBlock (context\<lparr>Message_Block := mb\<rparr>))"

definition SHA1Finalize :: "SHA1Context \<Rightarrow> u8 \<Rightarrow> SHA1Context" where
  "SHA1Finalize context Pad_Byte =
    (let context = SHA1PadMessage context Pad_Byte;
         context = context\<lparr>Message_Block := fold (\<lambda>i mb. mb[i := 0]) [0..<64] (Message_Block context)\<rparr>
     in context\<lparr>Length_High := 0, Length_Low := 0, Computed := True\<rparr>)"

definition masks :: "u8 list" where
  "masks = [0x00, 0x80, 0xC0, 0xE0, 0xF0, 0xF8, 0xFC, 0xFE]"

definition markbit :: "u8 list" where
  "markbit = [0x80, 0x40, 0x20, 0x10, 0x08, 0x04, 0x02, 0x01]"

definition SHA1FinalBits :: "SHA1Context \<Rightarrow> u8 \<Rightarrow> nat \<Rightarrow> sha_error \<times> SHA1Context" where
  "SHA1FinalBits context message_bits len =
    (if len = 0 then (shaSuccess, context)
     else if Corrupted context \<noteq> shaSuccess then (Corrupted context, context)
     else if Computed context then (shaStateError, context\<lparr>Corrupted := shaStateError\<rparr>)
     else if len \<ge> 8 then (shaBadParam, context\<lparr>Corrupted := shaBadParam\<rparr>)
     else (let context = SHA1AddLength context (of_nat len);
               context = SHA1Finalize context ((message_bits AND masks ! len) OR markbit ! len)
           in (Corrupted context, context)))"

definition SHA1Result :: "SHA1Context \<Rightarrow> sha_error \<times> u8 list \<times> SHA1Context" where
  "SHA1Result context =
    (if Corrupted context \<noteq> shaSuccess then (Corrupted context, [], context)
     else (let context = (if Computed context then context else SHA1Finalize context 0x80)
           in (shaSuccess,
               map (\<lambda>i. ucast (drop_bit (8 * (3 - (i AND 0x03)))
                     (Intermediate_Hash context ! (drop_bit 2 i)))) [0..<20],
               context)))"

section \<open>The wrapper of crypto-impl.c\<close>

definition ref_sha1_reset :: "SHA1Context \<Rightarrow> SHA1Context" where
  "ref_sha1_reset context = snd (SHA1Reset context)"

definition ref_sha1_add :: "SHA1Context \<Rightarrow> u8 list \<Rightarrow> bool \<times> SHA1Context" where
  "ref_sha1_add context src =
    (let (code, context) = SHA1Input context src in (code = shaSuccess, context))"

definition ref_sha1_result :: "SHA1Context \<Rightarrow> bool \<times> u8 list \<times> SHA1Context" where
  "ref_sha1_result context =
    (let (code, digest, context) = SHA1Result context in (code = shaSuccess, digest, context))"

section \<open>The block function computes the standard's compression\<close>

lemma ref_rotl: "SHA1_ROTL n x = rol x n"
  by (simp add: SHA1_ROTL_def rol_def)

abbreviation expand_step :: "nat \<Rightarrow> u32 list \<Rightarrow> u32 list" where
  "expand_step t W \<equiv> W[t := SHA1_ROTL 1 (W ! (t - 3) XOR W ! (t - 8) XOR W ! (t - 14) XOR W ! (t - 16))]"

lemma expand_prefix:
  assumes "length W = 80" "\<forall>j<16. W ! j = schedule m j" "16 \<le> n" "n \<le> 80"
  shows "length (fold expand_step [16..<n] W) = 80 \<and> (\<forall>j<n. fold expand_step [16..<n] W ! j = schedule m j)"
  using assms(3,4)
proof (induction n rule: dec_induct)
  case base
  with assms show ?case by simp
next
  case (step n)
  then show ?case
    by (auto simp: nth_list_update less_Suc_eq ref_rotl schedule_ge)
qed

lemma schedule_array_nth: 
  assumes "t < 80" 
  shows "schedule_array b ! t = schedule (block_word b) t"
proof -
  let ?W = "map (block_word b) [0..<16] @ replicate 64 0"
  have W: "map (\<lambda>t. push_bit 24 (ucast (b ! (t * 4))) OR push_bit 16 (ucast (b ! (t * 4 + 1)))
            OR push_bit 8 (ucast (b ! (t * 4 + 2))) OR ucast (b ! (t * 4 + 3))) [0..<16] = map (block_word b) [0..<16]"
    by (intro map_cong refl) (simp only: block_word_def be32_def mult.commute [of 4])
  have "length ?W = 80" "\<forall>j<16. ?W ! j = schedule (block_word b) j"
    by (simp_all add: nth_append schedule_lt)
  from expand_prefix [OF this _ order.refl]
  have "\<forall>j<80. fold expand_step [16..<80] ?W ! j = schedule (block_word b) j"
    by (rule conjunct2) simp
  with assms show ?thesis
    unfolding schedule_array_def W by blast
qed

lemma fold_rounds:
  assumes "\<And>t r. a \<le> t \<Longrightarrow> t < b \<Longrightarrow> f t r = round_step w t r" "a \<le> b"
  shows "fold f [a..<b] (rounds w a h) = rounds w b h"
  using assms(2,1) by (induction b rule: dec_induct) auto

lemma ref_functions: "SHA_Ch = Ch" "SHA_Maj = Maj" "SHA_Parity = Parity"
  by (intro ext; simp only: SHA_Ch_def Ch_def SHA_Maj_def Maj_def SHA_Parity_def Parity_def)+

lemma round_loop_step:
  assumes "t < 80" "f = F_round t" "k = K_round t"
  shows "round_loop (schedule_array b) f k t r = round_step (schedule (block_word b)) t r"
  using assms(2-3) by (cases r rule: regs_list.cases) (simp add: schedule_array_nth [OF assms(1)] ref_rotl Let_def algebra_simps)

lemma process_compress:
  assumes h: "Intermediate_Hash c = regs_list h"
  shows "SHA1ProcessMessageBlock c = c\<lparr>Intermediate_Hash := regs_list (compress h (Message_Block c)), Message_Block_Index := 0\<rparr>"
proof -
  obtain a b d e g where hh: "h = (a, b, d, e, g)" by (cases h rule: regs_list.cases)
  let ?b = "Message_Block c" 
  let ?w = "schedule (block_word ?b)" and ?W = "schedule_array ?b"
  have "fold (round_loop ?W SHA_Ch (K_const ! 0)) [0..<20] (rounds ?w 0 h) = rounds ?w 20 h"
    by (rule fold_rounds) (auto intro!: round_loop_step simp: F_round_def K_round_def K_const_def ref_functions)
  moreover have "fold (round_loop ?W SHA_Parity (K_const ! 1)) [20..<40] (rounds ?w 20 h) = rounds ?w 40 h"
    by (rule fold_rounds) (auto intro!: round_loop_step simp: F_round_def K_round_def K_const_def ref_functions)
  moreover have "fold (round_loop ?W SHA_Maj (K_const ! 2)) [40..<60] (rounds ?w 40 h) = rounds ?w 60 h"
    by (rule fold_rounds) (auto intro!: round_loop_step simp: F_round_def K_round_def K_const_def ref_functions)
  moreover have "fold (round_loop ?W SHA_Parity (K_const ! 3)) [60..<80] (rounds ?w 60 h) = rounds ?w 80 h"
    by (rule fold_rounds) (auto intro!: round_loop_step simp: F_round_def K_round_def K_const_def ref_functions)
  moreover have "(regs_list h ! 0, regs_list h ! 1, regs_list h ! 2, regs_list h ! 3, regs_list h ! 4) = rounds ?w 0 h"
    by (simp add: hh)
  ultimately have r: "fold (round_loop ?W SHA_Parity (K_const ! 3)) [60..<80]
     (fold (round_loop ?W SHA_Maj (K_const ! 2)) [40..<60]
       (fold (round_loop ?W SHA_Parity (K_const ! 1)) [20..<40]
         (fold (round_loop ?W SHA_Ch (K_const ! 0)) [0..<20]
           (regs_list h ! 0, regs_list h ! 1, regs_list h ! 2, regs_list h ! 3, regs_list h ! 4)))) = rounds ?w 80 h"
    by (simp only:)
  show ?thesis
    unfolding SHA1ProcessMessageBlock_def h Let_def r compress_def
    by (cases "rounds ?w 80 h" rule: regs_list.cases) (simp add: hh)
qed

section \<open>The wrapper implements the standard's function\<close>

definition ref_repr :: "SHA1Context \<Rightarrow> u8 list \<Rightarrow> bool" where
  "ref_repr c m \<longleftrightarrow> Intermediate_Hash c = regs_list (absorb H_init m) \<and>
     unat (Length_High c) * 2 ^ 32 + unat (Length_Low c) = 8 * length m \<and>
     Message_Block_Index c = length m mod 64 \<and> length (Message_Block c) = 64 \<and>
     take (length m mod 64) (Message_Block c) = rest m \<and>
     \<not> Computed c \<and> Corrupted c = shaSuccess"

definition ref_fits :: "nat \<Rightarrow> bool" where
  "ref_fits n \<longleftrightarrow> 8 * n < 2 ^ 64"

lemma ref_reset: "length (Message_Block c) = 64 \<Longrightarrow> ref_repr (ref_sha1_reset c) []"
  by (simp add: ref_repr_def ref_sha1_reset_def SHA1Reset_def H_init_def)

lemma add_length:
  assumes "unat (Length_High c) * 2 ^ 32 + unat (Length_Low c) = 8 * n" "8 * (n + 1) < 2 ^ 64"
  shows "\<exists>hi lo. SHA1AddLength c 8 = c\<lparr>Length_High := hi, Length_Low := lo\<rparr> \<and> unat hi * 2 ^ 32 + unat lo = 8 * (n + 1)"
proof (cases "unat (Length_Low c) + 8 < 2 ^ 32")
  case True
  then have lo: "unat (Length_Low c + 8) = unat (Length_Low c) + 8"
    by (simp add: unat_add_fits)
  then have "\<not> Length_Low c + 8 < Length_Low c"
    by (simp add: word_less_nat_alt)
  with lo assms show ?thesis
    by (intro exI [of _ "Length_High c"] exI [of _ "Length_Low c + 8"]) (simp add: SHA1AddLength_def)
next
  case False
  have lt: "unat (Length_Low c) < 2 ^ 32" using unsigned_less [of "Length_Low c", where 'a = nat] by simp
  then have lo: "unat (Length_Low c + 8) + 2 ^ 32 = unat (Length_Low c) + 8"
    using False by (simp add: unat_word_ariths le_mod_geq)
  then have less: "Length_Low c + 8 < Length_Low c"
    using lt by (simp add: word_less_nat_alt)
  have "unat (Length_High c) + 1 < 2 ^ 32"
    using assms False by simp
  then have hi: "unat (Length_High c + 1) = unat (Length_High c) + 1"
    by (simp add: unat_add_fits)
  then have "Length_High c + 1 \<noteq> 0" by force
  with less lo hi assms show ?thesis
    by (intro exI [of _ "Length_High c + 1"] exI [of _ "Length_Low c + 8"]) (simp add: SHA1AddLength_def Let_def)
qed

lemma ref_input_byte:
  assumes r: "ref_repr c m" and f: "ref_fits (length (m @ [b]))"
  shows "ref_repr (input_byte c b) (m @ [b])"
proof -
  let ?i = "length m mod 64"
  obtain hi lo where l: "SHA1AddLength (push_byte c b) 8 = (push_byte c b)\<lparr>Length_High := hi, Length_Low := lo\<rparr>"
    "unat hi * 2 ^ 32 + unat lo = 8 * (length m + 1)"
    using add_length [of "push_byte c b" "length m"] r f
    by (auto simp: ref_repr_def ref_fits_def push_byte_def)
  have i: "Message_Block_Index c = ?i" "length (Message_Block c) = 64" "?i < 64"
    and t: "take ?i (Message_Block c) = rest m" and h: "Intermediate_Hash c = regs_list (absorb H_init m)"
    using r by (simp_all add: ref_repr_def)
  have mb: "take (Suc ?i) ((Message_Block c)[?i := b]) = rest m @ [b]"
    using i t by (simp add: take_Suc_conv_app_nth)
  have a: "absorb H_init (m @ [b]) = absorb (absorb H_init m) (rest m @ [b])" "rest (m @ [b]) = rest (rest m @ [b])"
    by (rule absorb_rest, rule rest_append)
  show ?thesis
  proof (cases "Suc ?i = 64")
    case True
    then have mb': "(Message_Block c)[?i := b] = rest m @ [b]" using mb i by simp
    have i63: "?i = 63" using True by simp
    have len: "length (rest m @ [b]) = 64" using True by (simp add: length_rest)
    have "Suc (length m) mod 64 = 0" using True by (simp add: mod_Suc)
    moreover have "rest (rest m @ [b]) = []" using len by (simp add: rest_def)
    ultimately show ?thesis
      using r True l(2) len i
      unfolding input_byte_def l(1) Let_def
      by (simp add: ref_repr_def a push_byte_def mb' [unfolded i63] absorb_one process_compress [of _ "absorb H_init m"])
  next
    case False
    then have m: "Suc (length m) mod 64 = Suc ?i" by (simp add: mod_Suc)
    have len: "length (rest m @ [b]) < 64" using False i(3) by (simp add: length_rest)
    show ?thesis
      using r False l(2) len i mb
      unfolding input_byte_def l(1) Let_def
      by (simp add: ref_repr_def a push_byte_def m absorb_short rest_short)
  qed
qed

lemma ref_input_fold:
  "ref_repr c m \<Longrightarrow> ref_fits (length (m @ s)) \<Longrightarrow> ref_repr (fold (\<lambda>b c. input_byte c b) s c) (m @ s)"
proof (induction s arbitrary: c m)
  case (Cons b s)
  have "ref_fits (length (m @ [b]))" using Cons.prems by (simp add: ref_fits_def)
  with Cons show ?case using ref_input_byte [of c m b] Cons.IH [of _ "m @ [b]"] by simp
qed simp

lemma ref_add:
  assumes r: "ref_repr c m" and f: "ref_fits (length (m @ s))"
  shows "fst (ref_sha1_add c s)" "ref_repr (snd (ref_sha1_add c s)) (m @ s)"
  using ref_input_fold [OF assms] r
  by (auto simp: ref_sha1_add_def SHA1Input_def ref_repr_def Let_def)

lemma fill_zero_upto:
  assumes "length (Message_Block c) = 64" "Message_Block_Index c \<le> l" "l \<le> 64"
  shows "fill_zero l c = c\<lparr>Message_Block := take (Message_Block_Index c) (Message_Block c)
      @ replicate (l - Message_Block_Index c) 0 @ drop l (Message_Block c), Message_Block_Index := l\<rparr>"
  using assms
proof (induction l c rule: fill_zero.induct)
  case (1 l c)
  show ?case
  proof (cases "Message_Block_Index c < l")
    case False
    with 1 show ?thesis by (subst fill_zero.simps) simp
  next
    case True
    let ?i = "Message_Block_Index c" and ?b = "Message_Block c"
    have "take (Suc ?i) (?b[?i := 0]) = take ?i ?b @ [0]"
      using True 1 by (simp add: take_Suc_conv_app_nth)
    moreover have "replicate (l - ?i) (0 :: u8) = 0 # replicate (l - Suc ?i) 0"
      using True by (simp add: Suc_diff_Suc flip: replicate_Suc)
    ultimately show ?thesis
      using "1.IH" [OF True] "1.prems" True by (subst fill_zero.simps) (simp add: push_byte_def)
  qed
qed

lemma store_hi_lo:
  assumes "length p = 56" "length q = 8"
  shows "(p @ q)[56 := a, 57 := b, 58 := c, 59 := d, 60 := e, 61 := f, 62 := g, 63 := h] = p @ [a, b, c, d, e, f, g, h]"
proof -
  obtain q0 q1 q2 q3 q4 q5 q6 q7 where "q = [q0, q1, q2, q3, q4, q5, q6, q7]"
    using assms(2) by (auto simp: numeral_eq_Suc length_Suc_conv)
  then show ?thesis using assms(1) by (simp add: list_update_append)
qed

lemma be64_split:
  assumes "unat (hi :: u32) * 2 ^ 32 + unat (lo :: u32) = n" "n < 2 ^ 64"
  shows "be64_bytes (of_nat n) = [ucast (drop_bit 24 hi), ucast (drop_bit 16 hi), ucast (drop_bit 8 hi), ucast hi,
     ucast (drop_bit 24 lo), ucast (drop_bit 16 lo), ucast (drop_bit 8 lo), ucast (lo :: u32)]"
proof -
  have "(of_nat n :: u64) = push_bit 32 (ucast hi) + ucast lo"
    by (simp add: push_bit_eq_mult flip: assms(1))
  also have "\<dots> = push_bit 32 (ucast hi) OR ucast lo"
    by (rule disjunctive_add) (auto simp: bit_push_bit_iff bit_ucast_iff dest: bit_imp_le_length)
  finally have o: "(of_nat n :: u64) = push_bit 32 (ucast hi) OR ucast lo" .
  have "k < 32" if "bit hi k" for k
    using bit_imp_le_length [OF that] by simp
  then have "i < 64" if "bit hi (i - 32)" for i
    using that by fastforce
  with o have w: "bit (of_nat n :: u64) i \<longleftrightarrow> (if i < 32 then bit lo i else bit hi (i - 32))" for i
    by (auto simp: bit_or_iff bit_push_bit_iff bit_ucast_iff dest: bit_imp_le_length)
  show ?thesis
    by (simp add: be64_bytes_def upt_rec bit_eq_iff bit_ucast_iff bit_drop_bit_eq w)
qed

lemma store_and_process:
  assumes h: "Intermediate_Hash c = regs_list h" and b: "Message_Block c = p @ q" "length p = 56" "length q = 8"
    and l: "unat (Length_High c) * 2 ^ 32 + unat (Length_Low c) = n" "n < 2 ^ 64"
  shows "Intermediate_Hash (SHA1ProcessMessageBlock (c\<lparr>Message_Block := (Message_Block c)
      [56 := ucast (drop_bit 24 (Length_High c)), 57 := ucast (drop_bit 16 (Length_High c)),
       58 := ucast (drop_bit 8 (Length_High c)), 59 := ucast (Length_High c),
       60 := ucast (drop_bit 24 (Length_Low c)), 61 := ucast (drop_bit 16 (Length_Low c)),
       62 := ucast (drop_bit 8 (Length_Low c)), 63 := ucast (Length_Low c)]\<rparr>)) =
    regs_list (compress h (p @ be64_bytes (of_nat n)))"
  using h unfolding b(1) store_hi_lo [OF b(2,3)] be64_split [OF l]
  by (simp add: process_compress [of _ h])

lemma pad_message:
  assumes r: "ref_repr c m" and f: "ref_fits (length m)"
  shows "Intermediate_Hash (SHA1PadMessage c 0x80) = regs_list (absorb H_init (pad m))"
proof -
  let ?i = "length (rest m)" and ?h = "absorb H_init m" and ?z = "\<lambda>n. replicate n (0 :: u8)"
  let ?l = "be64_bytes (of_nat (8 * length m))"
  have i: "Message_Block_Index c = ?i" "length (Message_Block c) = 64" "?i < 64"
    and t: "take ?i (Message_Block c) = rest m" and h: "Intermediate_Hash c = regs_list ?h"
    and l: "unat (Length_High c) * 2 ^ 32 + unat (Length_Low c) = 8 * length m" "8 * length m < 2 ^ 64"
    using r f by (simp_all add: ref_repr_def ref_fits_def length_rest)
  let ?c = "push_byte c 0x80"
  have p: "take (Suc ?i) (Message_Block ?c) = rest m @ [0x80]" "length (Message_Block ?c) = 64" "Message_Block_Index ?c = Suc ?i"
    using i t by (simp_all add: push_byte_def take_Suc_conv_app_nth)
  have c: "Intermediate_Hash ?c = regs_list ?h" "Length_High ?c = Length_High c" "Length_Low ?c = Length_Low c"
    using h by (simp_all add: push_byte_def)
  show ?thesis
  proof (cases "?i < 56")
    case True
    let ?p = "rest m @ 0x80 # ?z (55 - ?i)"
    let ?d = "?c\<lparr>Message_Block := ?p @ drop 56 (Message_Block ?c), Message_Block_Index := 56\<rparr>"
    have d: "fill_zero (64 - 8) ?c = ?d"
      using fill_zero_upto [of ?c 56] p True by simp
    have "Intermediate_Hash (SHA1PadMessage c 0x80) = regs_list (compress ?h (?p @ ?l))"
      using store_and_process [of ?d ?h ?p "drop 56 (Message_Block ?c)" "8 * length m"] True p c l
      by (simp add: SHA1PadMessage_def Let_def i(1) d [simplified])
    then show ?thesis
      using True by (simp add: absorb_pad final_blocks_short absorb_one)
  next
    case False
    let ?p = "rest m @ 0x80 # ?z (63 - ?i)"
    let ?h1 = "compress ?h ?p"
    let ?e = "?c\<lparr>Message_Block := ?p, Message_Block_Index := 0, Intermediate_Hash := regs_list ?h1\<rparr>"
    have "fill_zero 64 ?c = ?c\<lparr>Message_Block := ?p, Message_Block_Index := 64\<rparr>"
      using fill_zero_upto [of ?c 64] p i(3) by simp
    then have e: "SHA1ProcessMessageBlock (fill_zero 64 ?c) = ?e"
      using c by (simp add: process_compress [of _ ?h])
    let ?d = "?e\<lparr>Message_Block := ?z 56 @ drop 56 ?p, Message_Block_Index := 56\<rparr>"
    have len: "length ?p = 64" using i(3) by simp
    have d: "fill_zero (64 - 8) ?e = ?d"
      using fill_zero_upto [of ?e 56] len by simp
    have "Intermediate_Hash (SHA1PadMessage c 0x80) = regs_list (compress ?h1 (?z 56 @ ?l))"
      using store_and_process [of ?d ?h1 "?z 56" "drop 56 ?p" "8 * length m"] False len c l
      by (simp add: SHA1PadMessage_def Let_def i(1) e d [simplified])
    moreover have "absorb ?h (?p @ ?z 56 @ ?l) = compress ?h1 (?z 56 @ ?l)"
      by (simp only: absorb_block [OF len]) (simp add: absorb_one)
    ultimately show ?thesis
      using False i(3) by (simp add: absorb_pad final_blocks_long)
  qed
qed

lemma digest_bytes:
  "map (\<lambda>i. ucast (drop_bit (8 * (3 - (i AND 0x03))) (regs_list r ! drop_bit 2 i))) [0..<20] =
   concat (map be32_bytes (regs_list r))"
proof -
  have m: "(i :: nat) AND 3 = i mod 4" for i
  proof -
    have "i AND 3 = i AND mask 2" by (simp add: mask_eq_exp_minus_1)
    then show ?thesis by (simp add: take_bit_eq_mod flip: take_bit_eq_mask)
  qed
  show ?thesis
    by (cases r rule: regs_list.cases) (simp add: upt_rec m drop_bit_eq_div be32_bytes_def)
qed

lemma ref_result:
  assumes r: "ref_repr c m" and f: "ref_fits (length m)"
  shows "fst (ref_sha1_result c)" "fst (snd (ref_sha1_result c)) = sha1_spec m"
proof -
  have "Intermediate_Hash (SHA1Finalize c 0x80) = regs_list (absorb H_init (pad m))"
    using pad_message [OF assms] by (simp add: SHA1Finalize_def Let_def)
  then show "fst (ref_sha1_result c)" "fst (snd (ref_sha1_result c)) = sha1_spec m"
    using r by (simp_all add: ref_sha1_result_def SHA1Result_def ref_repr_def sha1_spec_def digest_bytes)
qed
interpretation rfc: hash_stream ref_sha1_reset ref_sha1_add ref_sha1_result ref_repr
    "\<lambda>c. length (Message_Block c) = 64" ref_fits
  by unfold_locales (simp_all add: ref_reset ref_add ref_result, simp add: ref_fits_def)

end
