(* ===== verification/Crypto.thy ===== *)
theory Crypto
  imports Sha1_Avr Sha1_Ref
begin

text \<open>
  \<^verbatim>\<open>peer/crypto.h\<close> and \<^verbatim>\<open>peer/crypto.c\<close>: the digest type, the one-call hash of a byte array and
  the hexadecimal printing of a digest, on top of the implementation in \<^verbatim>\<open>crypto/avr\<close> that
  \<^verbatim>\<open>crypto.h\<close> includes. A digest is a list of 20 bytes.
\<close>

section \<open>The operations\<close>

type_synonym sha1_digest_t = "u8 list"

definition SHA1_HASH_SIZE :: nat where
  "SHA1_HASH_SIZE = 20"

text \<open>\<^verbatim>\<open>memcmp\<close> over the size of a digest.\<close>

definition sha1_cmp :: "sha1_digest_t \<Rightarrow> sha1_digest_t \<Rightarrow> bool" where
  "sha1_cmp left right = (take SHA1_HASH_SIZE left = take SHA1_HASH_SIZE right)"

text \<open>The context is a local variable: its contents before the reset are arbitrary.\<close>

definition sha1_compute :: "sha1_context \<Rightarrow> u8 list \<Rightarrow> bool \<times> sha1_digest_t" where
  "sha1_compute context src =
    (let context = sha1_reset context;
         context = snd (sha1_add context src);
         (ok, dest, context) = sha1_result context
     in (ok, dest))"

text \<open>The conversion \<^verbatim>\<open>%02x\<close> of a byte.\<close>

definition hex_digit :: "nat \<Rightarrow> char" where
  "hex_digit n = ''0123456789abcdef'' ! n"

definition hex_byte :: "u8 \<Rightarrow> string" where
  "hex_byte b = [hex_digit (unat b div 16), hex_digit (unat b mod 16)]"

definition sha1_print :: "sha1_digest_t \<Rightarrow> string" where
  "sha1_print digest = concat (map (\<lambda>i. hex_byte (digest ! i)) [0..<SHA1_HASH_SIZE])"

text \<open>\<^verbatim>\<open>sprintf\<close> stores the two digits and a terminating NUL.\<close>

definition sha1_write :: "string \<Rightarrow> sha1_digest_t \<Rightarrow> string" where
  "sha1_write buffer digest =
    (let buffer = fold (\<lambda>i buffer. memcpy_at buffer (2 * i) (hex_byte (digest ! i) @ [CHR 0x00]))
           [0..<SHA1_HASH_SIZE] buffer
     in buffer[2 * SHA1_HASH_SIZE := CHR 0x00])"

section \<open>The digest of a byte array\<close>

lemma sha1_cmp_iff [simp]: "length a = 20 \<Longrightarrow> length b = 20 \<Longrightarrow> sha1_cmp a b \<longleftrightarrow> a = b"
  by (simp add: sha1_cmp_def SHA1_HASH_SIZE_def)

lemma sha1_compute_spec:
  assumes "length (next_block c) = 64"
  shows "sha1_compute c src = (True, sha1_spec src)"
proof -
  have "fst (sha1_result (snd (sha1_add (sha1_reset c) src)))"
    by (simp add: sha1_result_def Let_def)
  moreover have "fst (snd (sha1_result (snd (sha1_add (sha1_reset c) src)))) = sha1_spec src"
    using avr.digest_once [of c src] assms by simp
  ultimately show ?thesis
    by (simp add: sha1_compute_def Let_def case_prod_unfold)
qed

section \<open>Hexadecimal digests\<close>

lemma length_hex_byte [simp]: "length (hex_byte b) = 2"
  by (simp add: hex_byte_def)

lemma hex_digits_distinct: "distinct ''0123456789abcdef''"
  by simp

lemma hex_digit_inject: "a < 16 \<Longrightarrow> b < 16 \<Longrightarrow> hex_digit a = hex_digit b \<longleftrightarrow> a = b"
  unfolding hex_digit_def using nth_eq_iff_index_eq [OF hex_digits_distinct, of a b] by simp

lemma hex_byte_inject [simp]: "hex_byte a = hex_byte b \<longleftrightarrow> a = b"
proof
  assume "hex_byte a = hex_byte b"
  then have "unat a div 16 = unat b div 16" "unat a mod 16 = unat b mod 16"
    using unat_u8_less [of a] unat_u8_less [of b]
    by (simp_all add: hex_byte_def hex_digit_inject less_mult_imp_div_less)
  then have "unat a = unat b"
    by (metis div_mult_mod_eq)
  then show "a = b"
    by (rule unsigned_word_eqI)
qed simp

lemma concat_hex_inject: "concat (map hex_byte a) = concat (map hex_byte b) \<longleftrightarrow> a = b"
proof (induction a arbitrary: b)
  case Nil
  show ?case by (cases b) (simp_all add: hex_byte_def)
next
  case (Cons x a)
  show ?case
  proof (cases b)
    case Nil
    then show ?thesis by (simp add: hex_byte_def)
  next
    case (Cons y b')
    then show ?thesis using Cons.IH by simp
  qed
qed

lemma map_nth_all: "n = length xs \<Longrightarrow> map (\<lambda>i. f (xs ! i)) [0..<n] = map f xs"
  by (rule nth_equalityI) auto

lemma sha1_print_eq: "length d = 20 \<Longrightarrow> sha1_print d = concat (map hex_byte d)"
  by (simp add: sha1_print_def SHA1_HASH_SIZE_def map_nth_all)

text \<open>After \<open>n\<close> rounds the buffer holds the digits of \<open>n\<close> bytes and a NUL.\<close>

lemma length_concat_hex [simp]: "length (concat (map (\<lambda>i. hex_byte (f i)) xs)) = 2 * length xs"
  by (induction xs) auto

lemma sha1_write_loop:
  assumes "2 * n < length buffer" "0 < n"
  shows "fold (\<lambda>i buffer. memcpy_at buffer (2 * i) (hex_byte (d ! i) @ [CHR 0x00])) [0..<n] buffer =
    concat (map (\<lambda>i. hex_byte (d ! i)) [0..<n]) @ [CHR 0x00] @ drop (2 * n + 1) buffer"
  using assms
proof (induction n)
  case 0
  then show ?case by simp
next
  case (Suc n)
  show ?case
  proof (cases "n = 0")
    case True
    then show ?thesis by (simp add: memcpy_at_def)
  next
    case False
    have "fold (\<lambda>i buffer. memcpy_at buffer (2 * i) (hex_byte (d ! i) @ [CHR 0x00])) [0..<Suc n] buffer =
      memcpy_at (concat (map (\<lambda>i. hex_byte (d ! i)) [0..<n]) @ [CHR 0x00] @ drop (2 * n + 1) buffer)
        (2 * n) (hex_byte (d ! n) @ [CHR 0x00])"
      using Suc False by simp
    also have "\<dots> = concat (map (\<lambda>i. hex_byte (d ! i)) [0..<n]) @ (hex_byte (d ! n) @ [CHR 0x00]) @
        drop (2 * n + 3) (concat (map (\<lambda>i. hex_byte (d ! i)) [0..<n]) @ [CHR 0x00] @ drop (2 * n + 1) buffer)"
      by (simp add: memcpy_at_def add.commute)
    finally show ?thesis by simp
  qed
qed

lemma sha1_write_eq:
  assumes "length d = 20" "length buffer = 41"
  shows "sha1_write buffer d = sha1_print d @ [CHR 0x00]"
proof -
  let ?xs = "concat (map (\<lambda>i. hex_byte (d ! i)) [0..<20])"
  have "fold (\<lambda>i buffer. memcpy_at buffer (2 * i) (hex_byte (d ! i) @ [CHR 0x00])) [0..<20] buffer =
      ?xs @ [CHR 0x00]"
    using assms sha1_write_loop [of 20 buffer d] by simp
  moreover have "length ?xs = 40"
    by simp
  ultimately show ?thesis
    unfolding sha1_write_def sha1_print_def SHA1_HASH_SIZE_def Let_def
    by (simp only: list_update_append) simp
qed

section \<open>Properties of the hash\<close>

text \<open>
  The AVR block function \<^verbatim>\<open>sha1_nextBlock\<close>, with its 16-word window, its rotating round counter
  and its table of four functions, adds to the five hash words exactly the compression of the
  standard, for every block of 64 bytes, and adds 512 to the bit length.
\<close>

theorem nextBlock_is_compression:
  assumes "ctx_h st = regs_list h" and "length b = 64"
  shows "ctx_h (sha1_nextBlock st b) = regs_list (compress h b) \<and>
    ctx_length (sha1_nextBlock st b) = ctx_length st + 512"
  using nextBlock_compress [of st h b] assms by simp_all

theorem nextBlock_is_compression_witness:
  "ctx_h (sha1_nextBlock \<lparr>ctx_h = regs_list H_init, ctx_length = 0\<rparr> (replicate 64 0)) =
    regs_list (compress H_init (replicate 64 0))"
  using nextBlock_is_compression [of "\<lparr>ctx_h = regs_list H_init, ctx_length = 0\<rparr>" H_init "replicate 64 0"]
  by simp

text \<open>
  C21: the streaming hash of \<^verbatim>\<open>crypto/avr\<close> is SHA-1: after a reset, adding the pieces of a message one
  after the other, however it is cut, and asking for the result reports success and gives the
  standard's digest of the whole message. The context's earlier contents do not matter.
\<close>

theorem avr_digest_is_sha1:
  assumes "length (next_block c) = 64"
  shows "fst (sha1_result (fold (\<lambda>bs c. snd (sha1_add c bs)) pieces (sha1_reset c))) \<and>
    fst (snd (sha1_result (fold (\<lambda>bs c. snd (sha1_add c bs)) pieces (sha1_reset c)))) =
      sha1_spec (concat pieces)"
  using assms avr.digest_pieces [of c pieces] by simp

text \<open>A context with arbitrary earlier contents.\<close>

abbreviation used_context :: sha1_context where
  "used_context \<equiv> \<lparr>sha1_state = \<lparr>ctx_h = [1, 2, 3, 4, 5], ctx_length = 7\<rparr>, next_length = 9,
     next_block = replicate 64 0xAA\<rparr>"

theorem avr_digest_is_sha1_witness:
  "fst (snd (sha1_result (fold (\<lambda>bs c. snd (sha1_add c bs)) [[1], [], [2, 3]] (sha1_reset used_context)))) =
    sha1_spec [1, 2, 3]"
  using avr_digest_is_sha1 [of used_context "[[1], [], [2, 3]]"] by simp

text \<open>
  C22: the one-call hash \<^verbatim>\<open>sha1\<close> of the AVR library, on a message of whole bytes whose length in bits is given as an \<^verbatim>\<open>uint32_t\<close>, ends and is
  the standard's digest of exactly these bytes, whatever follows them in memory and whatever the local context held; it agrees with the
  streaming hash.
\<close>

theorem sha1_in_memory:
  assumes "unat len = 8 * length m" "length (next_block c) = 64"
  shows "sha1 s (m @ beyond) len = sha1_spec m \<and> sha1_compute c m = (True, sha1 s (m @ beyond) len)"
  using sha1_spec_memory [OF assms(1)] sha1_compute_spec [OF assms(2)] by simp

theorem sha1_in_memory_witness:
  "sha1 \<lparr>ctx_h = [1, 2, 3, 4, 5], ctx_length = 6\<rparr> (replicate 70 0x61 @ [1, 2, 3]) 560 = sha1_spec (replicate 70 0x61)"
  using sha1_in_memory [of 560 "replicate 70 0x61" used_context "\<lparr>ctx_h = [1, 2, 3, 4, 5], ctx_length = 6\<rparr>" "[1, 2, 3]"]
  by simp

text \<open>
  C20: the reference implementation (\<^verbatim>\<open>crypto/ref\<close>, the code of RFC 3174/6234) and the AVR one are
  interchangeable behind \<^verbatim>\<open>crypto.h\<close>: on messages of fewer than \<open>2 ^ 64\<close> bits, the limit the
  reference code checks, they give the same digest, even when they are fed different pieces.
\<close>

theorem avr_agrees_with_reference:
  assumes "length (next_block c) = 64" "length (Message_Block d) = 64"
    and "concat ps = concat qs" "8 * length (concat qs) < 2 ^ 64"
  shows "fst (snd (sha1_result (fold (\<lambda>bs c. snd (sha1_add c bs)) ps (sha1_reset c)))) =
    fst (snd (ref_sha1_result (fold (\<lambda>bs c. snd (ref_sha1_add c bs)) qs (ref_sha1_reset d))))"
  using avr.digest_pieces(2) [of c ps] rfc.digest_pieces(2) [of d qs] assms
  by (simp add: ref_fits_def)

theorem avr_agrees_with_reference_witness:
  "fst (snd (sha1_result (fold (\<lambda>bs c. snd (sha1_add c bs)) [[1, 2], [3]] (sha1_reset used_context)))) =
    fst (snd (ref_sha1_result (fold (\<lambda>bs c. snd (ref_sha1_add c bs)) [[1], [2, 3]] (ref_sha1_reset
      \<lparr>Intermediate_Hash = [], Length_High = 1, Length_Low = 2, Message_Block_Index = 3,
       Message_Block = replicate 64 0, Computed = True, Corrupted = shaNull\<rparr>))))"
  by (rule avr_agrees_with_reference) simp_all

text \<open>
  \<^verbatim>\<open>sha1_compute\<close> succeeds and gives the standard's digest of the byte array, whatever its local
  context held before.
\<close>

theorem compute_is_sha1:
  assumes "length (next_block context) = 64"
  shows "sha1_compute context src = (True, sha1_spec src)"
  using assms by (rule sha1_compute_spec)

theorem compute_is_sha1_witness: "sha1_compute used_context [0x61, 0x62, 0x63] = (True, sha1_spec [0x61, 0x62, 0x63])"
  by (rule compute_is_sha1) simp

text \<open>
  \<^verbatim>\<open>sha1_write\<close> fills a buffer of \<^verbatim>\<open>2 * SHA1_HASH_SIZE + 1\<close> characters exactly, without leaving it,
  with a NUL at the end, and its output identifies the digest: different digests give different
  strings (the generated file names of nanogen).
\<close>

theorem sha1_write_exact:
  assumes "length d = 20" "length e = 20" "length buffer = 41"
  shows "length (sha1_write buffer d) = 41 \<and> sha1_write buffer d ! 40 = CHR 0x00 \<and>
    (sha1_write buffer d = sha1_write buffer e \<longleftrightarrow> d = e)"
  using assms by (simp_all add: sha1_write_eq sha1_print_eq concat_hex_inject nth_append length_concat comp_def
      sum_list_triv)

theorem sha1_write_exact_witness:
  "sha1_write (replicate 41 CHR ''x'') (replicate 20 0xAB) \<noteq> sha1_write (replicate 41 CHR ''x'') (replicate 20 0xBA)"
  using sha1_write_exact [of "replicate 20 0xAB" "replicate 20 0xBA" "replicate 41 CHR ''x''"]
  by simp

end
