(* ===== verification/Pack.thy ===== *)
theory Pack
  imports Crypto "HOL-Library.Monad_Syntax"
begin

text \<open>
  The data structures of \<^verbatim>\<open>torrent.h\<close>, \<^verbatim>\<open>peer.h\<close>, \<^verbatim>\<open>swarm.h\<close> and \<^verbatim>\<open>state.h\<close> that travel in packets and
  files, and their packing and unpacking (\<^verbatim>\<open>peer/pack/\<close>).

  A C pointer into a byte array is a pair of the array and a position in it. A function that
  dereferences the pointer beyond the array has the result \<open>None\<close>; the functions of the code return
  the advanced pointer, and so do their models. \<open>writes f bs\<close> and \<open>reads r n dec\<close> say what a packing
  or unpacking function does to the array: it stores exactly \<open>bs\<close>, it consumes exactly \<open>n\<close> bytes.
\<close>

section \<open>Data structures\<close>

text \<open>IPv6 addresses are the 16 bytes of \<^verbatim>\<open>uip_ip6addr_t\<close>.\<close>

type_synonym ip6addr = "u8 list"

record nanotorrent_torrent_info =
  file_size :: u16
  piece_size :: u16
  num_pieces :: u8
  piece_hashes :: "sha1_digest_t list"

record nanotorrent_torrent_desc =
  tracker_ip :: ip6addr
  tracker_port :: u16
  desc_info :: nanotorrent_torrent_info

record nanotorrent_peer_info =
  peer_ip :: ip6addr

record nanotorrent_peer_message_header =
  msg_type :: u8
  msg_info_hash :: sha1_digest_t
  msg_have :: u32

record nanotorrent_peer_close =
  close_header :: nanotorrent_peer_message_header

record nanotorrent_peer_have =
  have_header :: nanotorrent_peer_message_header

record nanotorrent_peer_data =
  data_header :: nanotorrent_peer_message_header
  piece_index :: u8
  data_start :: u16

record nanotorrent_announce_request =
  req_info_hash :: sha1_digest_t
  num_want :: u8
  req_event :: u8

record nanotorrent_announce_reply =
  rep_info_hash :: sha1_digest_t
  num_peers :: u8

definition NANOTORRENT_MAX_PIECES :: nat where
  "NANOTORRENT_MAX_PIECES = 32"

section \<open>Byte arrays with a position\<close>

type_synonym buf = "u8 list \<times> nat"

definition poke :: "u8 list \<Rightarrow> buf \<Rightarrow> buf option" where
  "poke bs b = (case b of (m, p) \<Rightarrow>
     if p + length bs \<le> length m then Some (memcpy_at m p bs, p + length bs) else None)"

definition peek :: "nat \<Rightarrow> buf \<Rightarrow> (u8 list \<times> buf) option" where
  "peek n b = (case b of (m, p) \<Rightarrow>
     if p + n \<le> length m then Some (take n (drop p m), (m, p + n)) else None)"

section \<open>Basic types\<close>

definition nanotorrent_pack_uint8 :: "u8 \<Rightarrow> buf \<Rightarrow> buf option" where
  "nanotorrent_pack_uint8 num = poke [num]"

definition nanotorrent_unpack_uint8 :: "buf \<Rightarrow> (u8 \<times> buf) option" where
  "nanotorrent_unpack_uint8 b = do { (bs, b) \<leftarrow> peek 1 b; Some (bs ! 0, b) }"

definition nanotorrent_pack_uint16 :: "u16 \<Rightarrow> buf \<Rightarrow> buf option" where
  "nanotorrent_pack_uint16 num = poke [ucast (drop_bit 8 num), ucast num]"

definition nanotorrent_unpack_uint16 :: "buf \<Rightarrow> (u16 \<times> buf) option" where
  "nanotorrent_unpack_uint16 b = do { (bs, b) \<leftarrow> peek 2 b;
     Some (push_bit 8 (ucast (bs ! 0)) OR ucast (bs ! 1), b) }"

definition nanotorrent_pack_uint32 :: "u32 \<Rightarrow> buf \<Rightarrow> buf option" where
  "nanotorrent_pack_uint32 num =
     poke [ucast (drop_bit 24 num), ucast (drop_bit 16 num), ucast (drop_bit 8 num), ucast num]"

definition nanotorrent_unpack_uint32 :: "buf \<Rightarrow> (u32 \<times> buf) option" where
  "nanotorrent_unpack_uint32 b = do { (bs, b) \<leftarrow> peek 4 b;
     Some (push_bit 24 (ucast (bs ! 0)) OR push_bit 16 (ucast (bs ! 1)) OR
           push_bit 8 (ucast (bs ! 2)) OR ucast (bs ! 3), b) }"

definition nanotorrent_pack_ip6addr :: "ip6addr \<Rightarrow> buf \<Rightarrow> buf option" where
  "nanotorrent_pack_ip6addr addr = poke addr"

definition nanotorrent_unpack_ip6addr :: "buf \<Rightarrow> (ip6addr \<times> buf) option" where
  "nanotorrent_unpack_ip6addr = peek 16"

definition nanotorrent_pack_sha1_digest :: "sha1_digest_t \<Rightarrow> buf \<Rightarrow> buf option" where
  "nanotorrent_pack_sha1_digest digest = poke digest"

definition nanotorrent_unpack_sha1_digest :: "buf \<Rightarrow> (sha1_digest_t \<times> buf) option" where
  "nanotorrent_unpack_sha1_digest = peek SHA1_HASH_SIZE"

section \<open>Peer messages\<close>

definition nanotorrent_pack_peer_message_header :: "nanotorrent_peer_message_header \<Rightarrow> buf \<Rightarrow> buf option" where
  "nanotorrent_pack_peer_message_header hdr b = do {
     b \<leftarrow> nanotorrent_pack_uint8 (msg_type hdr) b;
     b \<leftarrow> nanotorrent_pack_sha1_digest (msg_info_hash hdr) b;
     nanotorrent_pack_uint32 (msg_have hdr) b }"

definition nanotorrent_unpack_peer_message_header :: "buf \<Rightarrow> (nanotorrent_peer_message_header \<times> buf) option" where
  "nanotorrent_unpack_peer_message_header b = do {
     (t, b) \<leftarrow> nanotorrent_unpack_uint8 b;
     (h, b) \<leftarrow> nanotorrent_unpack_sha1_digest b;
     (have, b) \<leftarrow> nanotorrent_unpack_uint32 b;
     Some (\<lparr>msg_type = t, msg_info_hash = h, msg_have = have\<rparr>, b) }"

definition nanotorrent_pack_peer_close :: "nanotorrent_peer_close \<Rightarrow> buf \<Rightarrow> buf option" where
  "nanotorrent_pack_peer_close message = nanotorrent_pack_peer_message_header (close_header message)"

definition nanotorrent_unpack_peer_close :: "buf \<Rightarrow> (nanotorrent_peer_close \<times> buf) option" where
  "nanotorrent_unpack_peer_close b = do {
     (h, b) \<leftarrow> nanotorrent_unpack_peer_message_header b;
     Some (\<lparr>close_header = h\<rparr>, b) }"

definition nanotorrent_pack_peer_have :: "nanotorrent_peer_have \<Rightarrow> buf \<Rightarrow> buf option" where
  "nanotorrent_pack_peer_have message = nanotorrent_pack_peer_message_header (have_header message)"

definition nanotorrent_unpack_peer_have :: "buf \<Rightarrow> (nanotorrent_peer_have \<times> buf) option" where
  "nanotorrent_unpack_peer_have b = do {
     (h, b) \<leftarrow> nanotorrent_unpack_peer_message_header b;
     Some (\<lparr>have_header = h\<rparr>, b) }"

definition nanotorrent_pack_peer_data :: "nanotorrent_peer_data \<Rightarrow> buf \<Rightarrow> buf option" where
  "nanotorrent_pack_peer_data message b = do {
     b \<leftarrow> nanotorrent_pack_peer_message_header (data_header message) b;
     b \<leftarrow> nanotorrent_pack_uint8 (piece_index message) b;
     nanotorrent_pack_uint16 (data_start message) b }"

definition nanotorrent_unpack_peer_data :: "buf \<Rightarrow> (nanotorrent_peer_data \<times> buf) option" where
  "nanotorrent_unpack_peer_data b = do {
     (h, b) \<leftarrow> nanotorrent_unpack_peer_message_header b;
     (i, b) \<leftarrow> nanotorrent_unpack_uint8 b;
     (start, b) \<leftarrow> nanotorrent_unpack_uint16 b;
     Some (\<lparr>data_header = h, piece_index = i, data_start = start\<rparr>, b) }"

section \<open>Swarm messages\<close>

definition nanotorrent_pack_peer_info :: "nanotorrent_peer_info \<Rightarrow> buf \<Rightarrow> buf option" where
  "nanotorrent_pack_peer_info pinfo = nanotorrent_pack_ip6addr (peer_ip pinfo)"

definition nanotorrent_unpack_peer_info :: "buf \<Rightarrow> (nanotorrent_peer_info \<times> buf) option" where
  "nanotorrent_unpack_peer_info b = do {
     (a, b) \<leftarrow> nanotorrent_unpack_ip6addr b;
     Some (\<lparr>peer_ip = a\<rparr>, b) }"

definition nanotorrent_pack_announce_request :: "nanotorrent_announce_request \<Rightarrow> buf \<Rightarrow> buf option" where
  "nanotorrent_pack_announce_request request b = do {
     b \<leftarrow> nanotorrent_pack_sha1_digest (req_info_hash request) b;
     b \<leftarrow> nanotorrent_pack_uint8 (num_want request) b;
     nanotorrent_pack_uint8 (req_event request) b }"

definition nanotorrent_unpack_announce_request :: "buf \<Rightarrow> (nanotorrent_announce_request \<times> buf) option" where
  "nanotorrent_unpack_announce_request b = do {
     (h, b) \<leftarrow> nanotorrent_unpack_sha1_digest b;
     (n, b) \<leftarrow> nanotorrent_unpack_uint8 b;
     (e, b) \<leftarrow> nanotorrent_unpack_uint8 b;
     Some (\<lparr>req_info_hash = h, num_want = n, req_event = e\<rparr>, b) }"

definition nanotorrent_pack_announce_reply :: "nanotorrent_announce_reply \<Rightarrow> buf \<Rightarrow> buf option" where
  "nanotorrent_pack_announce_reply reply b = do {
     b \<leftarrow> nanotorrent_pack_sha1_digest (rep_info_hash reply) b;
     nanotorrent_pack_uint8 (num_peers reply) b }"

definition nanotorrent_unpack_announce_reply :: "buf \<Rightarrow> (nanotorrent_announce_reply \<times> buf) option" where
  "nanotorrent_unpack_announce_reply b = do {
     (h, b) \<leftarrow> nanotorrent_unpack_sha1_digest b;
     (n, b) \<leftarrow> nanotorrent_unpack_uint8 b;
     Some (\<lparr>rep_info_hash = h, num_peers = n\<rparr>, b) }"

section \<open>Torrent descriptors\<close>

text \<open>
  The loops over \<^verbatim>\<open>piece_hashes\<close>, from index \<open>i\<close> for \<open>k\<close> entries. The array has
  \<^verbatim>\<open>NANOTORRENT_MAX_PIECES\<close> entries (the length of the list); an index beyond it is out of bounds.
\<close>

fun pack_piece_hashes :: "sha1_digest_t list \<Rightarrow> nat \<Rightarrow> nat \<Rightarrow> buf \<Rightarrow> buf option" where
  "pack_piece_hashes hs i 0 b = Some b"
| "pack_piece_hashes hs i (Suc k) b =
    (if i < length hs then do {
       b \<leftarrow> nanotorrent_pack_sha1_digest (hs ! i) b;
       pack_piece_hashes hs (Suc i) k b }
     else None)"

definition nanotorrent_pack_torrent_info :: "nanotorrent_torrent_info \<Rightarrow> buf \<Rightarrow> buf option" where
  "nanotorrent_pack_torrent_info ti b = do {
     b \<leftarrow> nanotorrent_pack_uint16 (file_size ti) b;
     b \<leftarrow> nanotorrent_pack_uint16 (piece_size ti) b;
     b \<leftarrow> nanotorrent_pack_uint8 (num_pieces ti) b;
     pack_piece_hashes (piece_hashes ti) 0 (unat (num_pieces ti)) b }"

fun unpack_piece_hashes :: "sha1_digest_t list \<Rightarrow> nat \<Rightarrow> nat \<Rightarrow> buf \<Rightarrow> (sha1_digest_t list \<times> buf) option" where
  "unpack_piece_hashes hs i 0 b = Some (hs, b)"
| "unpack_piece_hashes hs i (Suc k) b =
    (if i < length hs then do {
       (d, b) \<leftarrow> nanotorrent_unpack_sha1_digest b;
       unpack_piece_hashes (hs[i := d]) (Suc i) k b }
     else None)"

text \<open>The structure is filled in place: the hashes beyond the last piece keep their old contents.\<close>

definition nanotorrent_unpack_torrent_info ::
  "nanotorrent_torrent_info \<Rightarrow> buf \<Rightarrow> (nanotorrent_torrent_info \<times> buf) option" where
  "nanotorrent_unpack_torrent_info ti b = do {
     (fs, b) \<leftarrow> nanotorrent_unpack_uint16 b;
     (ps, b) \<leftarrow> nanotorrent_unpack_uint16 b;
     (n, b) \<leftarrow> nanotorrent_unpack_uint8 b;
     let n = min n (of_nat NANOTORRENT_MAX_PIECES);
     (hs, b) \<leftarrow> unpack_piece_hashes (piece_hashes ti) 0 (unat n) b;
     Some (ti\<lparr>file_size := fs, piece_size := ps, num_pieces := n, piece_hashes := hs\<rparr>, b) }"

definition nanotorrent_pack_torrent_desc :: "nanotorrent_torrent_desc \<Rightarrow> buf \<Rightarrow> buf option" where
  "nanotorrent_pack_torrent_desc desc b = do {
     b \<leftarrow> nanotorrent_pack_ip6addr (tracker_ip desc) b;
     b \<leftarrow> nanotorrent_pack_uint16 (tracker_port desc) b;
     nanotorrent_pack_torrent_info (desc_info desc) b }"

definition nanotorrent_unpack_torrent_desc ::
  "nanotorrent_torrent_desc \<Rightarrow> buf \<Rightarrow> (nanotorrent_torrent_desc \<times> buf) option" where
  "nanotorrent_unpack_torrent_desc desc b = do {
     (ip, b) \<leftarrow> nanotorrent_unpack_ip6addr b;
     (port, b) \<leftarrow> nanotorrent_unpack_uint16 b;
     (ti, b) \<leftarrow> nanotorrent_unpack_torrent_info (desc_info desc) b;
     Some (\<lparr>tracker_ip = ip, tracker_port = port, desc_info = ti\<rparr>, b) }"

section \<open>What the functions do to the array\<close>

definition writes :: "(buf \<Rightarrow> buf option) \<Rightarrow> u8 list \<Rightarrow> bool" where
  "writes f bs \<longleftrightarrow> (\<forall>m p. p \<le> length m \<longrightarrow> f (m, p) =
     (if p + length bs \<le> length m then Some (memcpy_at m p bs, p + length bs) else None))"

definition reads :: "(buf \<Rightarrow> ('v \<times> buf) option) \<Rightarrow> nat \<Rightarrow> (u8 list \<Rightarrow> 'v) \<Rightarrow> bool" where
  "reads r n dec \<longleftrightarrow> (\<forall>m p. p \<le> length m \<longrightarrow> r (m, p) =
     (if p + n \<le> length m then Some (dec (take n (drop p m)), (m, p + n)) else None))"

lemma memcpy_at_append:
  "p + length a \<le> length m \<Longrightarrow>
   memcpy_at (memcpy_at m p a) (p + length a) b = memcpy_at m p (a @ b)"
  by (simp add: memcpy_at_def ac_simps)

lemma writes_poke: "writes (poke bs) bs"
  by (simp add: writes_def poke_def)

lemma writes_Some: "writes Some []"
  by (simp add: writes_def memcpy_at_def)

lemma writes_bind:
  "writes f a \<Longrightarrow> writes g c \<Longrightarrow> writes (\<lambda>b. f b \<bind> g) (a @ c)"
  by (auto simp: writes_def memcpy_at_append add.assoc)

lemma reads_peek: "reads (peek n) n (\<lambda>x. x)"
  by (simp add: reads_def peek_def)

lemma reads_map: "reads r n d \<Longrightarrow> reads (\<lambda>b. r b \<bind> (\<lambda>(v, b). Some (f v, b))) n (\<lambda>bs. f (d bs))"
  by (auto simp: reads_def)

lemma reads_bind:
  assumes "reads r n d" "\<And>v. reads (g v) k (e v)"
  shows "reads (\<lambda>b. r b \<bind> (\<lambda>(v, b). g v b)) (n + k) (\<lambda>bs. e (d (take n bs)) (drop n bs))"
proof -
  have "drop n (take (n + k) (drop p m)) = take k (drop (p + n) m)" for p and m :: "u8 list"
    by (simp add: drop_take add.commute)
  with assms show ?thesis
    by (auto simp: reads_def add.assoc min_absorb1)
qed

lemma reads_cong:
  "reads r n d \<Longrightarrow> (\<And>bs. length bs = n \<Longrightarrow> d bs = e bs) \<Longrightarrow> reads r n e"
  by (auto simp: reads_def)

section \<open>The formats\<close>

definition enc_u16 :: "u16 \<Rightarrow> u8 list" where
  "enc_u16 x = [ucast (drop_bit 8 x), ucast x]"

definition dec_u16 :: "u8 list \<Rightarrow> u16" where
  "dec_u16 bs = push_bit 8 (ucast (bs ! 0)) OR ucast (bs ! 1)"

definition dec_u32 :: "u8 list \<Rightarrow> u32" where
  "dec_u32 bs = be32 (bs ! 0) (bs ! 1) (bs ! 2) (bs ! 3)"

lemma length_enc_u16 [simp]: "length (enc_u16 x) = 2"
  by (simp add: enc_u16_def)

lemma length_be32_bytes [simp]: "length (be32_bytes x) = 4"
  by (simp add: be32_bytes_def)

lemma dec_enc_u16 [simp]: "dec_u16 (enc_u16 x) = x"
  by (rule bit_eqI)
    (auto simp: dec_u16_def enc_u16_def bit_or_iff bit_push_bit_iff bit_ucast_iff bit_drop_bit_eq
      dest: bit_imp_le_length)

lemma enc_dec_u16 [simp]: "length bs = 2 \<Longrightarrow> enc_u16 (dec_u16 bs) = bs"
proof -
  assume "length bs = 2"
  then obtain a b where "bs = [a, b]"
    by (auto simp: numeral_2_eq_2 length_Suc_conv)
  moreover have "ucast (drop_bit 8 (push_bit 8 (ucast a) OR ucast b :: u16)) = a"
    by (rule bit_eqI) (auto simp: bit_or_iff bit_push_bit_iff bit_ucast_iff bit_drop_bit_eq
        dest: bit_imp_le_length)
  moreover have "ucast (push_bit 8 (ucast a) OR ucast b :: u16) = b"
    by (rule bit_eqI) (auto simp: bit_or_iff bit_push_bit_iff bit_ucast_iff bit_drop_bit_eq)
  ultimately show ?thesis
    by (simp add: enc_u16_def dec_u16_def)
qed

lemma dec_enc_u32 [simp]: "dec_u32 (be32_bytes x) = x"
  by (simp add: dec_u32_def be32_bytes_def be32_of_bytes)

lemma enc_dec_u32 [simp]: "length bs = 4 \<Longrightarrow> be32_bytes (dec_u32 bs) = bs"
  by (auto simp: dec_u32_def be32_bytes_be32 length_4_conv)

named_theorems packers
named_theorems unpackers

lemma writes_u8 [packers]: "writes (nanotorrent_pack_uint8 x) [x]"
  by (simp add: nanotorrent_pack_uint8_def writes_poke)

lemma writes_u16 [packers]: "writes (nanotorrent_pack_uint16 x) (enc_u16 x)"
  by (simp add: nanotorrent_pack_uint16_def enc_u16_def writes_poke)

lemma writes_u32 [packers]: "writes (nanotorrent_pack_uint32 x) (be32_bytes x)"
  by (simp add: nanotorrent_pack_uint32_def be32_bytes_def writes_poke)

lemma writes_ip [packers]: "writes (nanotorrent_pack_ip6addr a) a"
  by (simp add: nanotorrent_pack_ip6addr_def writes_poke)

lemma writes_digest [packers]: "writes (nanotorrent_pack_sha1_digest d) d"
  by (simp add: nanotorrent_pack_sha1_digest_def writes_poke)

lemma reads_u8 [unpackers]: "reads nanotorrent_unpack_uint8 1 (\<lambda>bs. bs ! 0)"
  unfolding nanotorrent_unpack_uint8_def by (rule reads_map [OF reads_peek])

lemma reads_u16 [unpackers]: "reads nanotorrent_unpack_uint16 2 dec_u16"
  unfolding nanotorrent_unpack_uint16_def dec_u16_def by (rule reads_map [OF reads_peek])

lemma reads_u32 [unpackers]: "reads nanotorrent_unpack_uint32 4 dec_u32"
  unfolding nanotorrent_unpack_uint32_def dec_u32_def be32_def by (rule reads_map [OF reads_peek])

lemma reads_ip [unpackers]: "reads nanotorrent_unpack_ip6addr 16 (\<lambda>bs. bs)"
  unfolding nanotorrent_unpack_ip6addr_def by (rule reads_peek)

lemma reads_digest [unpackers]: "reads nanotorrent_unpack_sha1_digest 20 (\<lambda>bs. bs)"
  unfolding nanotorrent_unpack_sha1_digest_def SHA1_HASH_SIZE_def by (rule reads_peek)

section \<open>The contract of a message format\<close>

text \<open>
  What the users of a format rely on: packing stores the encoding of the value where the pointer
  is and nowhere else, and unpacking an encoding gives the value back, as far as \<open>view\<close> looks at it
  (a structure filled in place keeps parts of its old contents). A format of fixed size also parses
  any bytes, and packs them back to the same bytes.
\<close>

locale codec =
  fixes pack :: "'v \<Rightarrow> buf \<Rightarrow> buf option"
    and unpack :: "'v \<Rightarrow> buf \<Rightarrow> ('v \<times> buf) option"
    and enc :: "'v \<Rightarrow> u8 list"
    and ok :: "'v \<Rightarrow> bool"
    and view :: "'v \<Rightarrow> 'w"
  assumes pack_writes: "ok v \<Longrightarrow> writes (pack v) (enc v)"
    and unpack_enc: "ok v \<Longrightarrow> ok old \<Longrightarrow> p + length (enc v) \<le> length m \<Longrightarrow>
      take (length (enc v)) (drop p m) = enc v \<Longrightarrow>
      \<exists>w. unpack old (m, p) = Some (w, (m, p + length (enc v))) \<and> view w = view v"
begin

lemma pack_Some:
  "ok v \<Longrightarrow> p + length (enc v) \<le> length m \<Longrightarrow> pack v (m, p) = Some (memcpy_at m p (enc v), p + length (enc v))"
  using pack_writes by (simp add: writes_def)

lemma pack_None: "ok v \<Longrightarrow> p \<le> length m \<Longrightarrow> pack v (m, p) = None \<longleftrightarrow> length m < p + length (enc v)"
  using pack_writes by (auto simp: writes_def)

lemma pack_cases:
  assumes "ok v" "p \<le> length m" "pack v (m, p) = Some (m', q)"
  shows "p + length (enc v) \<le> length m" "q = p + length (enc v)" "m' = memcpy_at m p (enc v)"
  using assms pack_writes [of v] by (auto simp: writes_def split: if_splits)

lemma pack_frame:
  assumes "ok v" "p \<le> length m" "pack v (m, p) = Some (m', q)"
  shows "length m' = length m" "take p m' = take p m" "drop q m' = drop q m" "take (q - p) (drop p m') = enc v"
  using pack_cases [OF assms] by (auto simp: memcpy_at_def)

lemma round_trip:
  assumes "ok v" "ok old" "p \<le> length m" "pack v (m, p) = Some (m', q)"
  shows "\<exists>w. unpack old (m', p) = Some (w, (m', q)) \<and> view w = view v"
proof -
  note c = pack_cases [OF assms(1,3,4)] and f = pack_frame [OF assms(1,3,4)]
  have "take (length (enc v)) (drop p m') = enc v"
    using f(4) c(2) by simp
  with unpack_enc [OF assms(1,2), of p m'] show ?thesis
    using c f(1) by simp
qed

lemma enc_determines:
  assumes "ok v" "ok w" "enc v = enc w"
  shows "view v = view w"
  using unpack_enc [of v v 0 "enc v"] unpack_enc [of w v 0 "enc v"] assms by auto

end

locale fixed_codec =
  fixes pack :: "'v \<Rightarrow> buf \<Rightarrow> buf option"
    and unpack :: "buf \<Rightarrow> ('v \<times> buf) option"
    and enc :: "'v \<Rightarrow> u8 list"
    and dec :: "u8 list \<Rightarrow> 'v"
    and ok :: "'v \<Rightarrow> bool"
    and size :: nat
  assumes pack_fixed: "ok v \<Longrightarrow> writes (pack v) (enc v)"
    and unpack_fixed: "reads unpack size dec"
    and size_enc: "ok v \<Longrightarrow> length (enc v) = size"
    and dec_enc: "ok v \<Longrightarrow> dec (enc v) = v"
    and ok_dec: "length bs = size \<Longrightarrow> ok (dec bs)"
    and enc_dec: "length bs = size \<Longrightarrow> enc (dec bs) = bs"
begin

lemma parse_Some:
  "p + size \<le> length m \<Longrightarrow> unpack (m, p) = Some (dec (take size (drop p m)), (m, p + size))"
  using unpack_fixed by (simp add: reads_def)

lemma parse_None: "p \<le> length m \<Longrightarrow> unpack (m, p) = None \<longleftrightarrow> length m < p + size"
  using unpack_fixed by (auto simp: reads_def)

lemma parse_total:
  assumes "p + size \<le> length m"
  shows "\<exists>v. unpack (m, p) = Some (v, (m, p + size)) \<and> ok v \<and> enc v = take size (drop p m)"
  using parse_Some [OF assms] assms by (auto intro: ok_dec enc_dec)

end

sublocale fixed_codec \<subseteq> codec pack "\<lambda>old. unpack" enc ok "\<lambda>v. v"
  by unfold_locales (auto simp: pack_fixed parse_Some size_enc dec_enc)

section \<open>The formats of the peer and swarm messages\<close>

definition enc_header :: "nanotorrent_peer_message_header \<Rightarrow> u8 list" where
  "enc_header h = [msg_type h] @ msg_info_hash h @ be32_bytes (msg_have h)"

definition dec_header :: "u8 list \<Rightarrow> nanotorrent_peer_message_header" where
  "dec_header bs = \<lparr>msg_type = bs ! 0, msg_info_hash = take 20 (drop 1 bs), msg_have = dec_u32 (drop 21 bs)\<rparr>"

definition header_ok :: "nanotorrent_peer_message_header \<Rightarrow> bool" where
  "header_ok h \<longleftrightarrow> length (msg_info_hash h) = 20"

definition enc_data :: "nanotorrent_peer_data \<Rightarrow> u8 list" where
  "enc_data d = enc_header (data_header d) @ [piece_index d] @ enc_u16 (data_start d)"

definition dec_data :: "u8 list \<Rightarrow> nanotorrent_peer_data" where
  "dec_data bs = \<lparr>data_header = dec_header (take 25 bs), piece_index = bs ! 25, data_start = dec_u16 (drop 26 bs)\<rparr>"

definition enc_request :: "nanotorrent_announce_request \<Rightarrow> u8 list" where
  "enc_request r = req_info_hash r @ [num_want r] @ [req_event r]"

definition dec_request :: "u8 list \<Rightarrow> nanotorrent_announce_request" where
  "dec_request bs = \<lparr>req_info_hash = take 20 bs, num_want = bs ! 20, req_event = bs ! 21\<rparr>"

definition enc_reply :: "nanotorrent_announce_reply \<Rightarrow> u8 list" where
  "enc_reply r = rep_info_hash r @ [num_peers r]"

definition dec_reply :: "u8 list \<Rightarrow> nanotorrent_announce_reply" where
  "dec_reply bs = \<lparr>rep_info_hash = take 20 bs, num_peers = bs ! 20\<rparr>"

lemmas codec_defs = enc_header_def dec_header_def header_ok_def enc_data_def dec_data_def
  enc_request_def dec_request_def enc_reply_def dec_reply_def

text \<open>A list cut at a position, for the inverse laws.\<close>

lemma cut_nth: "n < length bs \<Longrightarrow> take n bs @ [bs ! n] @ drop (Suc n) bs = bs"
  by (simp add: Cons_nth_drop_Suc)

lemma cut_head: "0 < length bs \<Longrightarrow> [bs ! 0] @ drop 1 bs = bs"
  by (cases bs) auto

lemma writes_header: "writes (nanotorrent_pack_peer_message_header h) (enc_header h)"
  unfolding nanotorrent_pack_peer_message_header_def enc_header_def
  by (intro writes_bind packers)

lemma reads_header: "reads nanotorrent_unpack_peer_message_header 25 dec_header"
proof -
  have "reads nanotorrent_unpack_peer_message_header (1 + (20 + 4))
      (\<lambda>bs. \<lparr>msg_type = take 1 bs ! 0, msg_info_hash = take 20 (drop 1 bs), msg_have = dec_u32 (drop 20 (drop 1 bs))\<rparr>)"
    unfolding nanotorrent_unpack_peer_message_header_def
    by (rule reads_bind, rule unpackers)+ (rule reads_map, rule unpackers)
  then show ?thesis
    by (simp add: dec_header_def [abs_def])
qed

interpretation header: fixed_codec nanotorrent_pack_peer_message_header
    nanotorrent_unpack_peer_message_header enc_header dec_header header_ok 25
proof unfold_locales
  fix bs :: "u8 list"
  assume "length bs = 25"
  then show "enc_header (dec_header bs) = bs"
    using cut_head [of bs] append_take_drop_id [of 20 "drop 1 bs"] by (simp add: codec_defs)
qed (insert writes_header reads_header, auto simp: codec_defs drop_Suc)

interpretation close: fixed_codec nanotorrent_pack_peer_close nanotorrent_unpack_peer_close
    "\<lambda>m. enc_header (close_header m)" "\<lambda>bs. \<lparr>close_header = dec_header bs\<rparr>" "\<lambda>m. header_ok (close_header m)" 25
  using header.ok_dec header.enc_dec
  by unfold_locales (auto simp: nanotorrent_pack_peer_close_def nanotorrent_unpack_peer_close_def [abs_def]
      writes_header header.size_enc header.dec_enc intro: reads_map reads_header)

interpretation have_msg: fixed_codec nanotorrent_pack_peer_have nanotorrent_unpack_peer_have
    "\<lambda>m. enc_header (have_header m)" "\<lambda>bs. \<lparr>have_header = dec_header bs\<rparr>" "\<lambda>m. header_ok (have_header m)" 25
  using header.ok_dec header.enc_dec
  by unfold_locales (auto simp: nanotorrent_pack_peer_have_def nanotorrent_unpack_peer_have_def [abs_def]
      writes_header header.size_enc header.dec_enc intro: reads_map reads_header)

lemma writes_data: "writes (nanotorrent_pack_peer_data d) (enc_data d)"
  unfolding nanotorrent_pack_peer_data_def enc_data_def
  by (intro writes_bind packers writes_header)

lemma reads_data: "reads nanotorrent_unpack_peer_data 28 dec_data"
proof -
  have "reads nanotorrent_unpack_peer_data (25 + (1 + 2))
      (\<lambda>bs. \<lparr>data_header = dec_header (take 25 bs), piece_index = take 1 (drop 25 bs) ! 0,
             data_start = dec_u16 (drop 1 (drop 25 bs))\<rparr>)"
    unfolding nanotorrent_unpack_peer_data_def
    by (rule reads_bind, rule unpackers reads_header)+ (rule reads_map, rule unpackers)
  then have "reads nanotorrent_unpack_peer_data 28
      (\<lambda>bs. \<lparr>data_header = dec_header (take 25 bs), piece_index = take 1 (drop 25 bs) ! 0,
             data_start = dec_u16 (drop 1 (drop 25 bs))\<rparr>)"
    by simp
  then show ?thesis
    by (rule reads_cong) (simp add: dec_data_def)
qed

interpretation data: fixed_codec nanotorrent_pack_peer_data nanotorrent_unpack_peer_data
    enc_data dec_data "\<lambda>d. header_ok (data_header d)" 28
proof unfold_locales
  fix bs :: "u8 list"
  assume "length bs = 28"
  then show "enc_data (dec_data bs) = bs"
    using cut_nth [of 25 bs] by (simp add: enc_data_def dec_data_def header.enc_dec)
qed (insert writes_data reads_data, auto simp: enc_data_def dec_data_def header.size_enc header.dec_enc nth_append
    intro: header.ok_dec)

lemma writes_request: "writes (nanotorrent_pack_announce_request r) (enc_request r)"
  unfolding nanotorrent_pack_announce_request_def enc_request_def
  by (intro writes_bind packers)

lemma reads_request: "reads nanotorrent_unpack_announce_request 22 dec_request"
proof -
  have "reads nanotorrent_unpack_announce_request (20 + (1 + 1))
      (\<lambda>bs. \<lparr>req_info_hash = take 20 bs, num_want = take 1 (drop 20 bs) ! 0, req_event = drop 1 (drop 20 bs) ! 0\<rparr>)"
    unfolding nanotorrent_unpack_announce_request_def
    by (rule reads_bind, rule unpackers)+ (rule reads_map, rule unpackers)
  then have "reads nanotorrent_unpack_announce_request 22
      (\<lambda>bs. \<lparr>req_info_hash = take 20 bs, num_want = take 1 (drop 20 bs) ! 0, req_event = drop 1 (drop 20 bs) ! 0\<rparr>)"
    by simp
  then show ?thesis
    by (rule reads_cong) (simp add: dec_request_def)
qed

interpretation request: fixed_codec nanotorrent_pack_announce_request nanotorrent_unpack_announce_request
    enc_request dec_request "\<lambda>r. length (req_info_hash r) = 20" 22
proof unfold_locales
  fix bs :: "u8 list"
  assume "length bs = 22"
  then show "enc_request (dec_request bs) = bs"
    using cut_nth [of 20 bs] cut_nth [of 21 bs] by (simp add: enc_request_def dec_request_def flip: Cons_nth_drop_Suc)
qed (insert writes_request reads_request, auto simp: enc_request_def dec_request_def nth_append)

lemma writes_reply: "writes (nanotorrent_pack_announce_reply r) (enc_reply r)"
  unfolding nanotorrent_pack_announce_reply_def enc_reply_def
  by (intro writes_bind packers)

lemma reads_reply: "reads nanotorrent_unpack_announce_reply 21 dec_reply"
proof -
  have "reads nanotorrent_unpack_announce_reply (20 + 1)
      (\<lambda>bs. \<lparr>rep_info_hash = take 20 bs, num_peers = drop 20 bs ! 0\<rparr>)"
    unfolding nanotorrent_unpack_announce_reply_def
    by (rule reads_bind, rule unpackers) (rule reads_map, rule unpackers)
  then have "reads nanotorrent_unpack_announce_reply 21
      (\<lambda>bs. \<lparr>rep_info_hash = take 20 bs, num_peers = drop 20 bs ! 0\<rparr>)"
    by simp
  then show ?thesis
    by (rule reads_cong) (simp add: dec_reply_def)
qed

interpretation reply: fixed_codec nanotorrent_pack_announce_reply nanotorrent_unpack_announce_reply
    enc_reply dec_reply "\<lambda>r. length (rep_info_hash r) = 20" 21
proof unfold_locales
  fix bs :: "u8 list"
  assume "length bs = 21"
  then show "enc_reply (dec_reply bs) = bs"
    using cut_nth [of 20 bs] by (simp add: enc_reply_def dec_reply_def)
qed (insert writes_reply reads_reply, auto simp: enc_reply_def dec_reply_def nth_append)

interpretation pinfo: fixed_codec nanotorrent_pack_peer_info nanotorrent_unpack_peer_info
    peer_ip "\<lambda>bs. \<lparr>peer_ip = bs\<rparr>" "\<lambda>p. length (peer_ip p) = 16" 16
  by unfold_locales (auto simp: nanotorrent_pack_peer_info_def nanotorrent_unpack_peer_info_def [abs_def]
      writes_ip intro: reads_map reads_ip)

section \<open>The format of torrent descriptors\<close>

text \<open>The C type of \<^verbatim>\<open>piece_hashes\<close>: an array of 32 digests of 20 bytes.\<close>

definition hash_array :: "sha1_digest_t list \<Rightarrow> bool" where
  "hash_array hs \<longleftrightarrow> length hs = NANOTORRENT_MAX_PIECES \<and> (\<forall>h \<in> set hs. length h = 20)"

definition info_ok :: "nanotorrent_torrent_info \<Rightarrow> bool" where
  "info_ok ti \<longleftrightarrow> hash_array (piece_hashes ti) \<and> unat (num_pieces ti) \<le> NANOTORRENT_MAX_PIECES"

text \<open>The pieces that exist: the entries beyond are left over from earlier uses of the structure.\<close>

definition info_hashes :: "nanotorrent_torrent_info \<Rightarrow> sha1_digest_t list" where
  "info_hashes ti = take (unat (num_pieces ti)) (piece_hashes ti)"

definition info_view :: "nanotorrent_torrent_info \<Rightarrow> u16 \<times> u16 \<times> u8 \<times> sha1_digest_t list" where
  "info_view ti = (file_size ti, piece_size ti, num_pieces ti, info_hashes ti)"

definition enc_info :: "nanotorrent_torrent_info \<Rightarrow> u8 list" where
  "enc_info ti = enc_u16 (file_size ti) @ enc_u16 (piece_size ti) @ [num_pieces ti] @ concat (info_hashes ti)"

definition desc_ok :: "nanotorrent_torrent_desc \<Rightarrow> bool" where
  "desc_ok d \<longleftrightarrow> length (tracker_ip d) = 16 \<and> info_ok (desc_info d)"

definition desc_view :: "nanotorrent_torrent_desc \<Rightarrow> ip6addr \<times> u16 \<times> u16 \<times> u16 \<times> u8 \<times> sha1_digest_t list" where
  "desc_view d = (tracker_ip d, tracker_port d, info_view (desc_info d))"

definition enc_desc :: "nanotorrent_torrent_desc \<Rightarrow> u8 list" where
  "enc_desc d = tracker_ip d @ enc_u16 (tracker_port d) @ enc_info (desc_info d)"

lemma writes_hashes:
  "i + k \<le> length hs \<Longrightarrow> writes (pack_piece_hashes hs i k) (concat (take k (drop i hs)))"
proof (induction k arbitrary: i)
  case 0
  show ?case
    by (simp add: writes_def memcpy_at_def)
next
  case (Suc k)
  then have "writes (\<lambda>b. nanotorrent_pack_sha1_digest (hs ! i) b \<bind> pack_piece_hashes hs (Suc i) k)
      (hs ! i @ concat (take k (drop (Suc i) hs)))"
    by (intro writes_bind packers Suc.IH) simp
  moreover have "pack_piece_hashes hs i (Suc k) =
      (\<lambda>b. nanotorrent_pack_sha1_digest (hs ! i) b \<bind> pack_piece_hashes hs (Suc i) k)"
    using Suc.prems by (simp add: fun_eq_iff)
  moreover have "concat (take (Suc k) (drop i hs)) = hs ! i @ concat (take k (drop (Suc i) hs))"
    using Suc.prems by (simp flip: Cons_nth_drop_Suc)
  ultimately show ?case by simp
qed

lemma writes_info: "info_ok ti \<Longrightarrow> writes (nanotorrent_pack_torrent_info ti) (enc_info ti)"
  unfolding nanotorrent_pack_torrent_info_def enc_info_def info_hashes_def
  using writes_hashes [of 0 "unat (num_pieces ti)" "piece_hashes ti"]
  by (intro writes_bind packers) (simp_all add: info_ok_def hash_array_def)

lemma writes_desc: "desc_ok d \<Longrightarrow> writes (nanotorrent_pack_torrent_desc d) (enc_desc d)"
  unfolding nanotorrent_pack_torrent_desc_def enc_desc_def
  by (intro writes_bind packers writes_info) (simp add: desc_ok_def)

text \<open>The hash loop of the unpacking: \<open>k\<close> digests are read into the entries from \<open>i\<close> on.\<close>

fun chunks20 :: "nat \<Rightarrow> u8 list \<Rightarrow> sha1_digest_t list" where
  "chunks20 0 bs = []"
| "chunks20 (Suc k) bs = take 20 bs # chunks20 k (drop 20 bs)"

lemma length_chunks20 [simp]: "length (chunks20 k bs) = k"
  by (induction k bs rule: chunks20.induct) auto

lemma chunks20_concat: "\<forall>h \<in> set hs. length h = 20 \<Longrightarrow> chunks20 (length hs) (concat hs @ bs) = hs"
  by (induction hs) auto

lemma chunks20_lengths: "20 * k \<le> length bs \<Longrightarrow> h \<in> set (chunks20 k bs) \<Longrightarrow> length h = 20"
  by (induction k bs rule: chunks20.induct) auto

lemma reads_hashes:
  "i + k \<le> length hs \<Longrightarrow> reads (unpack_piece_hashes hs i k) (20 * k)
     (\<lambda>bs. take i hs @ chunks20 k bs @ drop (i + k) hs)"
proof (induction k arbitrary: i hs)
  case 0
  then show ?case by (simp add: reads_def)
next
  case (Suc k)
  have eq: "unpack_piece_hashes hs i (Suc k) =
      (\<lambda>b. nanotorrent_unpack_sha1_digest b \<bind> (\<lambda>(d, b). unpack_piece_hashes (hs[i := d]) (Suc i) k b))"
    using Suc.prems by (simp add: fun_eq_iff)
  have ih: "reads (unpack_piece_hashes (hs[i := d]) (Suc i) k) (20 * k)
      (\<lambda>bs. take (Suc i) (hs[i := d]) @ chunks20 k bs @ drop (Suc i + k) (hs[i := d]))" for d
    by (rule Suc.IH) (use Suc.prems in simp)
  have "reads (unpack_piece_hashes hs i (Suc k)) (20 + 20 * k) (\<lambda>bs. take (Suc i) (hs[i := take 20 bs]) @
      chunks20 k (drop 20 bs) @ drop (Suc i + k) (hs[i := take 20 bs]))"
    unfolding eq by (rule reads_bind [OF reads_digest ih])
  then show ?case
    using Suc.prems by (simp add: take_Suc_conv_app_nth del: unpack_piece_hashes.simps)
qed

text \<open>The number of pieces an unpacked descriptor has, and what unpacking does on any bytes.\<close>

definition clamp_pieces :: "u8 \<Rightarrow> u8" where
  "clamp_pieces n = min n (of_nat NANOTORRENT_MAX_PIECES)"

lemma unat_clamp: "unat (clamp_pieces n) = min (unat n) 32"
  by (simp add: clamp_pieces_def NANOTORRENT_MAX_PIECES_def min_def word_le_nat_alt)

lemma clamp_le: "unat (clamp_pieces n) \<le> 32"
  by (simp add: unat_clamp)

lemma unpack_info_eq:
  assumes "length (piece_hashes old) = NANOTORRENT_MAX_PIECES" "p \<le> length m"
  shows "nanotorrent_unpack_torrent_info old (m, p) =
    (if p + 5 \<le> length m then
       (let n = clamp_pieces (m ! (p + 4)); k = unat n in
        if p + 5 + 20 * k \<le> length m then
          Some (old\<lparr>file_size := dec_u16 (take 2 (drop p m)), piece_size := dec_u16 (take 2 (drop (p + 2) m)),
                    num_pieces := n,
                    piece_hashes := chunks20 k (take (20 * k) (drop (p + 5) m)) @ drop k (piece_hashes old)\<rparr>,
                (m, p + 5 + 20 * k))
        else None)
     else None)"
proof -
  have h: "unpack_piece_hashes (piece_hashes old) 0 k (m, q) =
      (if q + 20 * k \<le> length m then Some (chunks20 k (take (20 * k) (drop q m)) @ drop k (piece_hashes old), (m, q + 20 * k))
       else None)" if "k \<le> 32" "q \<le> length m" for k q
    using reads_hashes [of 0 k "piece_hashes old"] that assms(1) by (simp add: reads_def NANOTORRENT_MAX_PIECES_def)
  have a: "nanotorrent_unpack_uint16 (m, q) =
      (if q + 2 \<le> length m then Some (dec_u16 (take 2 (drop q m)), (m, q + 2)) else None)" if "q \<le> length m" for q
    using reads_u16 that unfolding reads_def by blast
  have b: "nanotorrent_unpack_uint16 (m, p + 2) =
      (if p + 4 \<le> length m then Some (dec_u16 (take 2 (drop (p + 2) m)), (m, p + 4)) else None)" if "p + 2 \<le> length m"
    using a [OF that] by (simp add: add.assoc)
  have c: "nanotorrent_unpack_uint8 (m, p + 4) =
      (if p + 5 \<le> length m then Some (m ! (p + 4), (m, p + 5)) else None)" if "p + 4 \<le> length m"
    using reads_u8 that by (simp add: reads_def)
  show ?thesis
    using a [OF assms(2)] h [OF clamp_le, of "p + 5"]
    by (simp add: nanotorrent_unpack_torrent_info_def b c clamp_pieces_def [symmetric] Let_def del: add_2_eq_Suc')
qed

lemma info_ok_hash: "info_ok ti \<Longrightarrow> h \<in> set (info_hashes ti) \<Longrightarrow> length h = 20"
  by (auto simp: info_ok_def hash_array_def info_hashes_def dest: in_set_takeD)

lemma length_info_hashes: "info_ok ti \<Longrightarrow> length (info_hashes ti) = unat (num_pieces ti)"
  by (simp add: info_ok_def hash_array_def info_hashes_def)

lemma length_concat20: "\<forall>h \<in> set hs. length h = 20 \<Longrightarrow> length (concat hs) = 20 * length hs"
  by (induction hs) auto

lemma length_enc_info: "info_ok ti \<Longrightarrow> length (enc_info ti) = 5 + 20 * unat (num_pieces ti)"
  using info_ok_hash length_info_hashes by (auto simp: enc_info_def length_concat20)

lemma clamp_ok: "info_ok ti \<Longrightarrow> clamp_pieces (num_pieces ti) = num_pieces ti"
  by (simp add: info_ok_def hash_array_def clamp_pieces_def NANOTORRENT_MAX_PIECES_def min_def word_le_nat_alt)

lemma unpack_enc_info:
  assumes "info_ok ti" "info_ok old" "p + length (enc_info ti) \<le> length m"
    and e: "take (length (enc_info ti)) (drop p m) = enc_info ti"
  shows "\<exists>w. nanotorrent_unpack_torrent_info old (m, p) = Some (w, (m, p + length (enc_info ti))) \<and>
    info_view w = info_view ti"
proof -
  let ?k = "unat (num_pieces ti)"
  have len: "length (enc_info ti) = 5 + 20 * ?k"
    using assms(1) by (rule length_enc_info)
  define r where "r = drop (p + length (enc_info ti)) m"
  have m: "drop p m = enc_info ti @ r"
    using e by (metis append_take_drop_id drop_drop add.commute r_def)
  have parts: "take 2 (drop p m) = enc_u16 (file_size ti)" "take 2 (drop (p + 2) m) = enc_u16 (piece_size ti)"
    "m ! (p + 4) = num_pieces ti" "drop (p + 5) m = concat (info_hashes ti) @ r"
  proof -
    show "take 2 (drop p m) = enc_u16 (file_size ti)"
      by (simp add: m enc_info_def)
    have "drop (p + 2) m = drop 2 (drop p m)" "drop (p + 5) m = drop 5 (drop p m)"
      by (simp_all add: add.commute)
    then show "take 2 (drop (p + 2) m) = enc_u16 (piece_size ti)" "drop (p + 5) m = concat (info_hashes ti) @ r"
      by (simp_all only: m enc_info_def) (simp_all add: drop_Cons')
    have "m ! (p + 4) = drop p m ! 4"
      using assms(3) len by simp
    then show "m ! (p + 4) = num_pieces ti"
      by (simp add: m enc_info_def nth_append)
  qed
  have "chunks20 ?k (take (20 * ?k) (drop (p + 5) m)) = info_hashes ti"
    using chunks20_concat [of "info_hashes ti" "[]"] info_ok_hash [OF assms(1)] length_info_hashes [OF assms(1)]
    by (simp add: parts length_concat20)
  then show ?thesis
    using assms(1-3) len
    by (simp add: unpack_info_eq [of old p m] info_ok_def hash_array_def parts clamp_ok [OF assms(1)] Let_def info_view_def
        info_hashes_def add.assoc del: add_2_eq_Suc')
qed

interpretation info: codec nanotorrent_pack_torrent_info nanotorrent_unpack_torrent_info enc_info info_ok info_view
  by unfold_locales (simp_all add: writes_info unpack_enc_info)

lemma unpack_desc_eq:
  assumes "length (piece_hashes (desc_info old)) = NANOTORRENT_MAX_PIECES" "p \<le> length m"
  shows "nanotorrent_unpack_torrent_desc old (m, p) =
    (if p + 18 \<le> length m then
       map_option (\<lambda>(ti, b). (\<lparr>tracker_ip = take 16 (drop p m), tracker_port = dec_u16 (take 2 (drop (p + 16) m)),
                               desc_info = ti\<rparr>, b))
         (nanotorrent_unpack_torrent_info (desc_info old) (m, p + 18))
     else None)"
proof -
  have a: "nanotorrent_unpack_ip6addr (m, p) = (if p + 16 \<le> length m then Some (take 16 (drop p m), (m, p + 16)) else None)"
    using reads_ip assms(2) unfolding reads_def by blast
  have b: "nanotorrent_unpack_uint16 (m, p + 16) =
      (if p + 18 \<le> length m then Some (dec_u16 (take 2 (drop (p + 16) m)), (m, p + 18)) else None)" if "p + 16 \<le> length m"
    using reads_u16 that by (simp add: reads_def)
  show ?thesis
    by (cases "nanotorrent_unpack_torrent_info (desc_info old) (m, p + 18)")
      (simp_all add: nanotorrent_unpack_torrent_desc_def a b split: prod.splits)
qed

lemma length_enc_desc: "desc_ok d \<Longrightarrow> length (enc_desc d) = 23 + 20 * unat (num_pieces (desc_info d))"
  by (simp add: enc_desc_def desc_ok_def length_enc_info)

lemma unpack_enc_desc:
  assumes "desc_ok d" "desc_ok old" "p + length (enc_desc d) \<le> length m"
    and e: "take (length (enc_desc d)) (drop p m) = enc_desc d"
  shows "\<exists>w. nanotorrent_unpack_torrent_desc old (m, p) = Some (w, (m, p + length (enc_desc d))) \<and>
    desc_view w = desc_view d"
proof -
  let ?ti = "desc_info d"
  have ok: "info_ok ?ti" "info_ok (desc_info old)" "length (tracker_ip d) = 16"
    using assms(1,2) by (simp_all add: desc_ok_def)
  have len: "length (enc_desc d) = 18 + length (enc_info ?ti)"
    using ok by (simp add: enc_desc_def)
  obtain r where m: "drop p m = enc_desc d @ r"
    using e by (metis append_take_drop_id)
  have d16: "drop (p + 16) m = drop 16 (drop p m)" and d18: "drop (p + 18) m = drop 18 (drop p m)"
    by (simp_all add: add.commute)
  have parts: "take 16 (drop p m) = tracker_ip d" "take 2 (drop (p + 16) m) = enc_u16 (tracker_port d)"
    "take (length (enc_info ?ti)) (drop (p + 18) m) = enc_info ?ti"
    unfolding d16 d18 m enc_desc_def using ok by simp_all
  from unpack_enc_info [OF ok(1,2) _ this(3)] assms(3) len obtain w where
    w: "nanotorrent_unpack_torrent_info (desc_info old) (m, p + 18) = Some (w, (m, p + 18 + length (enc_info ?ti)))"
    "info_view w = info_view ?ti"
    by auto
  show ?thesis
    using w parts ok assms(3) len by (simp add: unpack_desc_eq info_ok_def hash_array_def desc_view_def add.assoc)
qed

interpretation desc: codec nanotorrent_pack_torrent_desc nanotorrent_unpack_torrent_desc enc_desc desc_ok desc_view
  by unfold_locales (simp_all add: writes_desc unpack_enc_desc)

lemma hash_array_fill:
  assumes "hash_array hs" "k \<le> 32" "20 * k \<le> length bs"
  shows "hash_array (chunks20 k (take (20 * k) bs) @ drop k hs)"
proof -
  have "length h = 20" if "h \<in> set (chunks20 k (take (20 * k) bs))" for h
    by (rule chunks20_lengths [OF _ that]) (use assms(3) in simp)
  then show ?thesis
    using assms(1,2) by (auto simp: hash_array_def NANOTORRENT_MAX_PIECES_def dest: in_set_dropD)
qed

text \<open>What unpacking a descriptor from any bytes yields.\<close>

lemma unpack_desc_cases:
  assumes "hash_array (piece_hashes (desc_info old))" "p \<le> length m"
  obtains (short) "nanotorrent_unpack_torrent_desc old (m, p) = None" "length m < p + 663"
  | (enough) d q where "nanotorrent_unpack_torrent_desc old (m, p) = Some (d, (m, q))" "q \<le> length m"
      "q = p + 23 + 20 * unat (num_pieces (desc_info d))" "desc_ok d"
proof -
  have l: "length (piece_hashes (desc_info old)) = NANOTORRENT_MAX_PIECES"
    using assms(1) by (simp add: hash_array_def)
  show thesis
  proof (cases "p + 18 \<le> length m")
    case False
    then show thesis
      using short l assms(2) by (simp add: unpack_desc_eq)
  next
    case True
    note d = unpack_desc_eq [OF l assms(2)] and i = unpack_info_eq [OF l True]
    define n where "n = clamp_pieces (m ! (p + 18 + 4))"
    have n: "unat n \<le> 32"
      unfolding n_def by (rule clamp_le)
    show thesis
    proof (cases "p + 18 + 5 + 20 * unat n \<le> length m")
      case False
      then show thesis
        using short n True unfolding d i n_def [symmetric] by (simp add: Let_def)
    next
      case T: True
      define hs where "hs = chunks20 (unat n) (take (20 * unat n) (drop (p + 18 + 5) m)) @ drop (unat n) (piece_hashes (desc_info old))"
      define ti where "ti = (desc_info old)\<lparr>file_size := dec_u16 (take 2 (drop (p + 18) m)),
        piece_size := dec_u16 (take 2 (drop (p + 18 + 2) m)), num_pieces := n, piece_hashes := hs\<rparr>"
      have "hash_array hs"
        unfolding hs_def by (rule hash_array_fill [OF assms(1) n]) (use T in simp)
      then have "info_ok ti"
        using n by (simp add: ti_def info_ok_def NANOTORRENT_MAX_PIECES_def)
      moreover have "nanotorrent_unpack_torrent_info (desc_info old) (m, p + 18) = Some (ti, (m, p + 18 + 5 + 20 * unat n))"
        using T unfolding i n_def [symmetric] by (simp add: Let_def ti_def hs_def)
      moreover have "num_pieces ti = n"
        by (simp add: ti_def)
      moreover define r where "r = \<lparr>tracker_ip = take 16 (drop p m),
        tracker_port = dec_u16 (take 2 (drop (p + 16) m)), desc_info = ti\<rparr>"
      ultimately show thesis
        using True T by (intro enough [of r "p + 23 + 20 * unat n"]) (simp_all add: desc_ok_def r_def d)
    qed
  qed
qed

section \<open>Properties of the packets\<close>

text \<open>
  A data request or reply header packed at any place with room for it takes exactly 28 bytes,
  changes no other byte of the buffer, and unpacks to the same message.
\<close>

theorem peer_data_round_trip:
  assumes "length (msg_info_hash (data_header d)) = 20" "p + 28 \<le> length m"
  shows "\<exists>m'. nanotorrent_pack_peer_data d (m, p) = Some (m', p + 28) \<and> length m' = length m \<and>
    take p m' = take p m \<and> drop (p + 28) m' = drop (p + 28) m \<and>
    nanotorrent_unpack_peer_data (m', p) = Some (d, (m', p + 28))"
proof -
  have ok: "header_ok (data_header d)"
    using assms(1) by (simp add: header_ok_def)
  have p: "nanotorrent_pack_peer_data d (m, p) = Some (memcpy_at m p (enc_data d), p + 28)"
    using data.pack_Some [OF ok] data.size_enc [OF ok] assms(2) by simp
  show ?thesis
    using p data.pack_frame [OF ok _ p] data.round_trip [OF ok ok _ p] assms(2) by auto
qed

abbreviation sample_data :: nanotorrent_peer_data where
  "sample_data \<equiv> \<lparr>data_header = \<lparr>msg_type = 2, msg_info_hash = replicate 20 0xAB, msg_have = 0x00010203\<rparr>,
     piece_index = 7, data_start = 0x1234\<rparr>"

theorem peer_data_round_trip_witness:
  "\<exists>m'. nanotorrent_pack_peer_data sample_data (replicate 40 0, 5) = Some (m', 33) \<and>
    nanotorrent_unpack_peer_data (m', 5) = Some (sample_data, (m', 33))"
  using peer_data_round_trip [of sample_data 5 "replicate 40 0"] by auto

text \<open>
  C19: every 28 bytes of a received datagram are the encoding of exactly one data message: unpacking
  succeeds wherever 28 bytes are left, and packing the result at the same place changes nothing.
  With fewer bytes left it reads beyond the array.
\<close>

theorem peer_data_parse_total:
  assumes "p \<le> length m"
  shows "case nanotorrent_unpack_peer_data (m, p) of
      None \<Rightarrow> length m < p + 28
    | Some (d, b) \<Rightarrow> b = (m, p + 28) \<and> nanotorrent_pack_peer_data d (m, p) = Some (m, p + 28)"
proof (cases "p + 28 \<le> length m")
  case True
  from data.parse_total [OF this] obtain d where
    d: "nanotorrent_unpack_peer_data (m, p) = Some (d, (m, p + 28))" "header_ok (data_header d)"
      "enc_data d = take 28 (drop p m)"
    by blast
  have "memcpy_at m p (take 28 (drop p m)) = m"
    using True by (simp add: memcpy_at_def min_absorb2) (metis append_take_drop_id drop_drop add.commute)
  then show ?thesis
    using d data.pack_Some [OF d(2), of p m] True by simp
next
  case False
  with assms have "nanotorrent_unpack_peer_data (m, p) = None"
    using data.parse_None by simp
  with False show ?thesis by simp
qed

theorem peer_data_parse_total_witness:
  "case nanotorrent_unpack_peer_data (replicate 28 7, 0) of
      None \<Rightarrow> length (replicate 28 (7 :: u8)) < 0 + 28
    | Some (d, b) \<Rightarrow> b = (replicate 28 7, 0 + 28) \<and> nanotorrent_pack_peer_data d (replicate 28 7, 0) = Some (replicate 28 7, 0 + 28)"
  by (rule peer_data_parse_total) simp

text \<open>
  A torrent descriptor packs into \<open>23 + 20 * num_pieces\<close> bytes, at most 663, and unpacking them
  restores the tracker, the sizes, the number of pieces and the hash of every piece, whatever the
  structure that is filled in held before.
\<close>

theorem torrent_desc_round_trip:
  assumes "desc_ok d" "desc_ok old" "p + 23 + 20 * unat (num_pieces (desc_info d)) \<le> length m"
  shows "\<exists>m' q w. nanotorrent_pack_torrent_desc d (m, p) = Some (m', q) \<and>
    q = p + 23 + 20 * unat (num_pieces (desc_info d)) \<and> q \<le> p + 663 \<and>
    nanotorrent_unpack_torrent_desc old (m', p) = Some (w, (m', q)) \<and>
    tracker_ip w = tracker_ip d \<and> tracker_port w = tracker_port d \<and>
    file_size (desc_info w) = file_size (desc_info d) \<and> piece_size (desc_info w) = piece_size (desc_info d) \<and>
    num_pieces (desc_info w) = num_pieces (desc_info d) \<and> info_hashes (desc_info w) = info_hashes (desc_info d)"
proof -
  let ?q = "p + 23 + 20 * unat (num_pieces (desc_info d))"
  have p: "nanotorrent_pack_torrent_desc d (m, p) = Some (memcpy_at m p (enc_desc d), ?q)"
    using desc.pack_Some [OF assms(1), of p m] assms(3) by (simp add: length_enc_desc [OF assms(1)] add.assoc)
  moreover have "?q \<le> p + 663"
    using assms(1) by (simp add: desc_ok_def info_ok_def hash_array_def NANOTORRENT_MAX_PIECES_def)
  ultimately show ?thesis
    using desc.round_trip [OF assms(1,2) _ p] assms(3) by (auto simp: desc_view_def info_view_def)
qed

abbreviation sample_desc :: "u8 \<Rightarrow> nanotorrent_torrent_desc" where
  "sample_desc n \<equiv> \<lparr>tracker_ip = replicate 16 0xFE, tracker_port = 33333,
     desc_info = \<lparr>file_size = 700, piece_size = 256, num_pieces = n, piece_hashes = replicate 32 (replicate 20 0x11)\<rparr>\<rparr>"

theorem torrent_desc_round_trip_witness:
  "\<exists>m' q w. nanotorrent_pack_torrent_desc (sample_desc 3) (replicate 83 0, 0) = Some (m', q) \<and> q = 83 \<and>
    nanotorrent_unpack_torrent_desc (sample_desc 9) (m', 0) = Some (w, (m', q)) \<and> num_pieces (desc_info w) = 3"
  using torrent_desc_round_trip [of "sample_desc 3" "sample_desc 9" 0 "replicate 83 0"]
  by (auto simp: desc_ok_def info_ok_def hash_array_def NANOTORRENT_MAX_PIECES_def)

text \<open>
  Unpacking a descriptor from arbitrary bytes is safe. It never has more than
  \<^verbatim>\<open>NANOTORRENT_MAX_PIECES\<close> pieces, so the hash array is not overrun, it consumes at most 663 bytes, and
  it reads beyond the array only if fewer than 663 bytes are left.
\<close>

theorem torrent_desc_unpack_safe:
  assumes "hash_array (piece_hashes (desc_info old))" "p \<le> length m"
  shows "case nanotorrent_unpack_torrent_desc old (m, p) of
      None \<Rightarrow> length m < p + 663
    | Some (d, m', q) \<Rightarrow> m' = m \<and> q \<le> length m \<and> q = p + 23 + 20 * unat (num_pieces (desc_info d)) \<and>
        desc_ok d"
proof (cases "nanotorrent_unpack_torrent_desc old (m, p)")
  case None
  then show ?thesis
    using unpack_desc_cases [OF assms] by simp
next
  case (Some r)
  then show ?thesis
    using unpack_desc_cases [OF assms] by (cases r) auto
qed

theorem torrent_desc_unpack_safe_witness:
  "case nanotorrent_unpack_torrent_desc (sample_desc 0) (replicate 700 0xFF, 0) of
      None \<Rightarrow> length (replicate 700 (0xFF :: u8)) < 0 + 663
    | Some (d, m', q) \<Rightarrow> m' = replicate 700 0xFF \<and> q \<le> length (replicate 700 (0xFF :: u8)) \<and>
        q = 0 + 23 + 20 * unat (num_pieces (desc_info d)) \<and> desc_ok d"
  by (rule torrent_desc_unpack_safe) (simp_all add: hash_array_def NANOTORRENT_MAX_PIECES_def)

end
