(* ===== verification/Contiki.thy ===== *)
theory Contiki
  imports Pack
begin

text \<open>
  The operating system the program runs on. Contiki is a git submodule of the repository, so its code
  is not modelled: what the program uses of it is the record \<open>contiki\<close>, an argument of every definition
  that calls it, and its documented behaviour is stated as the predicates \<open>list_ok\<close>, \<open>memb_ok\<close>, \<open>etimer_ok\<close>,
  \<open>cfs_ok\<close> and \<open>net_ok\<close>, hypotheses of the theorems that need them. The types of the files ('f), of the
  memory pools ('m) and of the timers ('t) are left open.

  What the program does to its environment (datagrams, events posted, processes started and stopped) is
  appended to a list of outputs. \<open>sim_contiki\<close> at the end is a small concrete system that satisfies all
  the hypotheses; the witnesses use it.
\<close>

section \<open>Outputs\<close>

datatype sock = PeerSocket | TrackerSocket

datatype proc = MainProcess | PeerProcess | SwarmProcess | PROCESS_BROADCAST

text \<open>Events are numbers handed out by \<^verbatim>\<open>process_alloc_event\<close>: distinct values.\<close>

datatype event = PROCESS_EVENT_INIT | PROCESS_EVENT_TIMER | PROCESS_EVENT_EXIT | peer_event | swarm_event
  | seeding_event | other_event nat

datatype action =
    UdpSendTo sock "u8 list" ip6addr nat
  | UdpSend sock "u8 list"
  | UdpClose sock
  | UdpRegister sock
  | UdpBind sock nat
  | UdpConnect sock ip6addr u16
  | ProcessPost proc event
  | ProcessStart proc
  | ProcessExit proc

section \<open>The interface\<close>

datatype whence = CFS_SEEK_SET | CFS_SEEK_END

text \<open>
  \<open>int_bits\<close> is the width of \<^verbatim>\<open>int\<close>, \<open>clock_bits\<close> the width of \<^verbatim>\<open>clock_time_t\<close>. Functions on timers take
  the current time first. \<open>memb_allocated\<close>, \<open>memb_capacity\<close>, \<open>cfs_content\<close> and \<open>cfs_pos\<close> observe the
  state of a pool and of a file; no definition of the program uses them.
\<close>

record ('f, 'm, 't) contiki =
  int_bits :: nat
  clock_second :: nat
  clock_bits :: nat
  udp_payload :: nat
  list_push :: "nat \<Rightarrow> nat list \<Rightarrow> nat list"
  list_pop :: "nat list \<Rightarrow> nat option \<times> nat list"
  list_remove :: "nat \<Rightarrow> nat list \<Rightarrow> nat list"
  memb_init :: "'m \<Rightarrow> 'm"
  memb_alloc :: "'m \<Rightarrow> nat option \<times> 'm"
  memb_free :: "nat \<Rightarrow> 'm \<Rightarrow> 'm"
  memb_inmemb :: "'m \<Rightarrow> nat \<Rightarrow> bool"
  memb_allocated :: "'m \<Rightarrow> nat set"
  memb_capacity :: "'m \<Rightarrow> nat"
  etimer_set :: "nat \<Rightarrow> nat \<Rightarrow> 't \<Rightarrow> 't"
  etimer_stop :: "'t \<Rightarrow> 't"
  etimer_restart :: "nat \<Rightarrow> 't \<Rightarrow> 't"
  etimer_reset :: "'t \<Rightarrow> 't"
  etimer_adjust :: "int \<Rightarrow> 't \<Rightarrow> 't"
  etimer_expired :: "nat \<Rightarrow> 't \<Rightarrow> bool"
  cfs_open :: "string \<Rightarrow> 'f \<Rightarrow> int \<times> 'f"
  cfs_close :: "int \<Rightarrow> 'f \<Rightarrow> 'f"
  cfs_seek :: "int \<Rightarrow> int \<Rightarrow> whence \<Rightarrow> 'f \<Rightarrow> int \<times> 'f"
  cfs_read :: "int \<Rightarrow> nat \<Rightarrow> 'f \<Rightarrow> int \<times> u8 list \<times> 'f"
  cfs_write :: "int \<Rightarrow> u8 list \<Rightarrow> 'f \<Rightarrow> int \<times> 'f"
  cfs_content :: "'f \<Rightarrow> int \<Rightarrow> u8 list"
  cfs_pos :: "'f \<Rightarrow> int \<Rightarrow> nat"
  ip6addr_cmp :: "ip6addr \<Rightarrow> ip6addr \<Rightarrow> bool"
  is_addr_linklocal :: "ip6addr \<Rightarrow> bool"
  is_addr_mcast :: "ip6addr \<Rightarrow> bool"
  linklocal_allnodes_mcast :: ip6addr
  ds6_has_global :: "nat \<Rightarrow> bool"
  process_post_ok :: "action list \<Rightarrow> bool"

text \<open>The parts of the state that belong to the environment: the clock and the outputs so far.\<close>

record env =
  now :: nat
  outputs :: "action list"

definition emit :: "action \<Rightarrow> 'a env_scheme \<Rightarrow> 'a env_scheme" where
  "emit out s = s\<lparr>outputs := outputs s @ [out]\<rparr>"

section \<open>Documented behaviour\<close>

text \<open>Lists: push puts an item that is not in the list at its front, pop takes the front item off,
  remove takes one item out.\<close>

definition list_ok :: "('f, 'm, 't) contiki \<Rightarrow> bool" where
  "list_ok K \<longleftrightarrow> (\<forall>x xs. x \<notin> set xs \<longrightarrow> list_push K x xs = x # xs) \<and>
     (\<forall>x xs. distinct xs \<longrightarrow> list_remove K x xs = remove1 x xs) \<and>
     (\<forall>x xs. list_pop K (x # xs) = (Some x, xs)) \<and> list_pop K [] = (None, [])"

text \<open>Pools: a fixed region of blocks; alloc hands out a block that is not in use, or none only when
  the pool is full, free gives it back.\<close>

definition memb_ok :: "('f, 'm, 't) contiki \<Rightarrow> bool" where
  "memb_ok K \<longleftrightarrow>
     (\<forall>m. finite (memb_allocated K m) \<and> card (memb_allocated K m) \<le> memb_capacity K m) \<and>
     (\<forall>m c. c \<in> memb_allocated K m \<longrightarrow> memb_inmemb K m c) \<and>
     (\<forall>m. memb_allocated K (memb_init K m) = {} \<and> memb_inmemb K (memb_init K m) = memb_inmemb K m \<and>
        memb_capacity K (memb_init K m) = memb_capacity K m) \<and>
     (\<forall>m. (case memb_alloc K m of
         (None, m') \<Rightarrow> m' = m \<and> card (memb_allocated K m) = memb_capacity K m
       | (Some c, m') \<Rightarrow> c \<notin> memb_allocated K m \<and> memb_inmemb K m c \<and>
           memb_allocated K m' = insert c (memb_allocated K m) \<and>
           memb_inmemb K m' = memb_inmemb K m \<and> memb_capacity K m' = memb_capacity K m)) \<and>
     (\<forall>m c. memb_inmemb K m c \<longrightarrow> memb_allocated K (memb_free K c m) = memb_allocated K m - {c} \<and>
        memb_inmemb K (memb_free K c m) = memb_inmemb K m \<and> memb_capacity K (memb_free K c m) = memb_capacity K m)"

text \<open>Timers: a timer set at time \<open>t\<close> for \<open>d\<close> ticks is expired from \<open>t + d\<close> on.\<close>

definition etimer_ok :: "('f, 'm, 't) contiki \<Rightarrow> bool" where
  "etimer_ok K \<longleftrightarrow> (\<forall>t d e u. t \<le> u \<longrightarrow> (etimer_expired K u (etimer_set K t d e) \<longleftrightarrow> t + d \<le> u))"

text \<open>
  Files: seek moves the position or fails; read returns the next bytes, possibly fewer than asked for,
  none only at the end of the file (or when none are asked for); write replaces the bytes at the position,
  possibly fewer than given, and changes no other byte. A negative result is an error, and then no byte
  was changed.
\<close>

definition cfs_seek_ok :: "('f, 'm, 't) contiki \<Rightarrow> bool" where
  "cfs_seek_ok K \<longleftrightarrow>
     (\<forall>fd off f r f'. cfs_seek K fd (int off) CFS_SEEK_SET f = (r, f') \<longrightarrow>
        cfs_content K f' = cfs_content K f \<and> (0 \<le> r \<longrightarrow> cfs_pos K f' fd = off)) \<and>
     (\<forall>fd f r f'. cfs_seek K fd 0 CFS_SEEK_END f = (r, f') \<longrightarrow>
        cfs_content K f' = cfs_content K f \<and> (0 \<le> r \<longrightarrow> r = int (length (cfs_content K f fd))))"

definition cfs_read_ok :: "('f, 'm, 't) contiki \<Rightarrow> bool" where
  "cfs_read_ok K \<longleftrightarrow> (\<forall>fd n f r bs f'. cfs_read K fd n f = (r, bs, f') \<longrightarrow>
     cfs_content K f' = cfs_content K f \<and>
     (0 \<le> r \<longrightarrow> length bs = nat r \<and> length bs \<le> n \<and>
        bs = take (length bs) (drop (cfs_pos K f fd) (cfs_content K f fd)) \<and>
        cfs_pos K f' fd = cfs_pos K f fd + length bs \<and>
        (bs = [] \<longrightarrow> n = 0 \<or> length (cfs_content K f fd) \<le> cfs_pos K f fd)))"

definition cfs_write_ok :: "('f, 'm, 't) contiki \<Rightarrow> bool" where
  "cfs_write_ok K \<longleftrightarrow> (\<forall>fd bs f r f' old new pos. cfs_write K fd bs f = (r, f') \<longrightarrow>
     old = cfs_content K f fd \<longrightarrow> new = cfs_content K f' fd \<longrightarrow> pos = cfs_pos K f fd \<longrightarrow>
     length old \<le> length new \<and> r \<le> int (length bs) \<and>
     (\<forall>j < length old. j < pos \<or> pos + nat r \<le> j \<longrightarrow> new ! j = old ! j) \<and>
     (\<forall>k < nat r. pos + k < length new \<and> new ! (pos + k) = bs ! k))"

definition cfs_ok :: "('f, 'm, 't) contiki \<Rightarrow> bool" where
  "cfs_ok K \<longleftrightarrow> cfs_seek_ok K \<and> cfs_read_ok K \<and> cfs_write_ok K"

text \<open>A file system on which seeking inside the range of positions and reading do not fail.\<close>

definition cfs_reliable :: "('f, 'm, 't) contiki \<Rightarrow> bool" where
  "cfs_reliable K \<longleftrightarrow> (\<forall>fd off f. 0 \<le> fst (cfs_seek K fd (int off) CFS_SEEK_SET f)) \<and>
     (\<forall>fd f. 0 \<le> fst (cfs_seek K fd 0 CFS_SEEK_END f)) \<and> (\<forall>fd n f. 0 \<le> fst (cfs_read K fd n f))"

text \<open>Addresses: comparison is equality of the 16 bytes.\<close>

definition net_ok :: "('f, 'm, 't) contiki \<Rightarrow> bool" where
  "net_ok K \<longleftrightarrow> (\<forall>a b. ip6addr_cmp K a b \<longleftrightarrow> a = b)"

lemma list_push_new: "list_ok K \<Longrightarrow> x \<notin> set xs \<Longrightarrow> list_push K x xs = x # xs"
  by (simp add: list_ok_def)

lemma list_remove_remove1: "list_ok K \<Longrightarrow> distinct xs \<Longrightarrow> list_remove K x xs = remove1 x xs"
  by (simp add: list_ok_def)

lemma memb_alloc_Some:
  assumes "memb_ok K" "memb_alloc K m = (Some c, m')"
  shows "c \<notin> memb_allocated K m" "memb_inmemb K m c" "memb_allocated K m' = insert c (memb_allocated K m)"
    "memb_inmemb K m' = memb_inmemb K m" "memb_capacity K m' = memb_capacity K m"
  using assms by (auto simp: memb_ok_def split: prod.splits option.splits)

lemma memb_alloc_None:
  "memb_ok K \<Longrightarrow> memb_alloc K m = (None, m') \<Longrightarrow> m' = m \<and> card (memb_allocated K m) = memb_capacity K m"
  unfolding memb_ok_def by (elim conjE allE [of _ m]) simp

lemma memb_free_simps:
  assumes "memb_ok K" "memb_inmemb K m c"
  shows "memb_allocated K (memb_free K c m) = memb_allocated K m - {c}"
    "memb_inmemb K (memb_free K c m) = memb_inmemb K m" "memb_capacity K (memb_free K c m) = memb_capacity K m"
  using assms by (simp_all add: memb_ok_def)

lemma memb_init_simps:
  assumes "memb_ok K"
  shows "memb_allocated K (memb_init K m) = {}" "memb_inmemb K (memb_init K m) = memb_inmemb K m"
    "memb_capacity K (memb_init K m) = memb_capacity K m"
  using assms by (simp_all add: memb_ok_def)

lemma memb_allocated_inmemb: "memb_ok K \<Longrightarrow> c \<in> memb_allocated K m \<Longrightarrow> memb_inmemb K m c"
  by (simp add: memb_ok_def)

lemma memb_allocated_card:
  "memb_ok K \<Longrightarrow> finite (memb_allocated K m)" "memb_ok K \<Longrightarrow> card (memb_allocated K m) \<le> memb_capacity K m"
  by (simp_all add: memb_ok_def)

section \<open>A concrete system\<close>

text \<open>
  One file with a position, pools as a base address, a size and the list of used blocks, timers as a
  start and an interval. It satisfies the documented behaviour, so the hypotheses are satisfiable.
\<close>

type_synonym sim_file = "u8 list \<times> nat"
type_synonym sim_memb = "nat \<times> nat \<times> nat list"
type_synonym sim_timer = "nat \<times> nat"

definition sim_write :: "u8 list \<Rightarrow> sim_file \<Rightarrow> int \<times> sim_file" where
  "sim_write bs f = (case f of (c, p) \<Rightarrow>
     (int (length bs), (take p c @ replicate (p - length c) 0 @ bs @ drop (p + length bs) c, p + length bs)))"

definition sim_seek :: "int \<Rightarrow> whence \<Rightarrow> sim_file \<Rightarrow> int \<times> sim_file" where
  "sim_seek off w f = (case w of
     CFS_SEEK_SET \<Rightarrow> (off, (fst f, nat off))
   | CFS_SEEK_END \<Rightarrow> (int (length (fst f)) + off, (fst f, nat (int (length (fst f)) + off))))"

definition sim_alloc :: "sim_memb \<Rightarrow> nat option \<times> sim_memb" where
  "sim_alloc m = (case m of (b, n, us) \<Rightarrow>
     (case List.find (\<lambda>c. c \<notin> set us) [b..<b + n] of
        None \<Rightarrow> (None, m)
      | Some c \<Rightarrow> (Some c, (b, n, c # us))))"

definition sim_contiki :: "(sim_file, sim_memb, sim_timer) contiki" where
  "sim_contiki = \<lparr>
     int_bits = 32, clock_second = 128, clock_bits = 32, udp_payload = 100,
     list_push = (\<lambda>x xs. x # removeAll x xs),
     list_pop = (\<lambda>xs. case xs of [] \<Rightarrow> (None, []) | x # xs \<Rightarrow> (Some x, xs)),
     list_remove = remove1,
     memb_init = (\<lambda>(b, n, us). (b, n, [])),
     memb_alloc = sim_alloc,
     memb_free = (\<lambda>c (b, n, us). (b, n, removeAll c us)),
     memb_inmemb = (\<lambda>(b, n, us) c. b \<le> c \<and> c < b + n),
     memb_allocated = (\<lambda>(b, n, us). set us \<inter> {b..<b + n}),
     memb_capacity = (\<lambda>(b, n, us). n),
     etimer_set = (\<lambda>t d e. (t, d)),
     etimer_stop = (\<lambda>e. (0, 0)),
     etimer_restart = (\<lambda>t e. (t, snd e)),
     etimer_reset = (\<lambda>e. (fst e + snd e, snd e)),
     etimer_adjust = (\<lambda>k e. (nat (int (fst e) + k), snd e)),
     etimer_expired = (\<lambda>u e. fst e + snd e \<le> u),
     cfs_open = (\<lambda>n f. (0, (fst f, 0))),
     cfs_close = (\<lambda>fd f. f),
     cfs_seek = (\<lambda>fd. sim_seek),
     cfs_read = (\<lambda>fd n f. let bs = take n (drop (snd f) (fst f)) in
       (int (length bs), bs, (fst f, snd f + length bs))),
     cfs_write = (\<lambda>fd. sim_write),
     cfs_content = (\<lambda>f fd. fst f),
     cfs_pos = (\<lambda>f fd. snd f),
     ip6addr_cmp = (=),
     is_addr_linklocal = (\<lambda>a. take 2 a = [0xFE, 0x80]),
     is_addr_mcast = (\<lambda>a. take 1 a = [0xFF]),
     linklocal_allnodes_mcast = 0xFF # 0x02 # replicate 13 0 @ [1],
     ds6_has_global = (\<lambda>t. True),
     process_post_ok = (\<lambda>out. True) \<rparr>"

lemma sim_simps:
  "int_bits sim_contiki = 32" "udp_payload sim_contiki = 100" "clock_bits sim_contiki = 32" "clock_second sim_contiki = 128"
  "etimer_set sim_contiki t d e = (t, d)" "etimer_stop sim_contiki e = (0, 0)" "etimer_restart sim_contiki t e = (t, snd e)"
  "etimer_expired sim_contiki t e \<longleftrightarrow> fst e + snd e \<le> t" "ip6addr_cmp sim_contiki a b \<longleftrightarrow> a = b"
  "is_addr_linklocal sim_contiki a \<longleftrightarrow> take 2 a = [0xFE, 0x80]" "is_addr_mcast sim_contiki a \<longleftrightarrow> take 1 a = [0xFF]"
  "cfs_content sim_contiki f fd = fst f" "memb_alloc sim_contiki m = sim_alloc m" "list_push sim_contiki x xs = x # removeAll x xs"
  by (simp_all add: sim_contiki_def)

lemma sim_list_ok: "list_ok sim_contiki"
  by (simp add: list_ok_def sim_contiki_def)

lemma find_None_card:
  assumes "List.find (\<lambda>c. c \<notin> set us) [b..<b + n] = None"
  shows "card (set us \<inter> {b..<b + n}) = n"
proof -
  have "set us \<inter> {b..<b + n} = {b..<b + n}"
    using assms by (auto simp: find_None_iff)
  then show ?thesis by simp
qed

lemma sim_memb_ok: "memb_ok sim_contiki"
proof -
  have "card (set us \<inter> {b..<b + n}) \<le> n" for us :: "nat list" and b n
    using card_mono [of "{b..<b + n}" "set us \<inter> {b..<b + n}"] by simp
  then show ?thesis
    by (auto simp: memb_ok_def sim_contiki_def sim_alloc_def find_None_card find_Some_iff
        split: option.splits)
qed

lemma sim_etimer_ok: "etimer_ok sim_contiki"
  by (simp add: etimer_ok_def sim_contiki_def)

lemma sim_cfs_ok: "cfs_ok sim_contiki"
proof -
  have "cfs_seek_ok sim_contiki"
    by (simp add: cfs_seek_ok_def sim_contiki_def sim_seek_def)
  moreover have "cfs_read_ok sim_contiki"
    by (simp add: cfs_read_ok_def sim_contiki_def Let_def min_def)
  moreover have "min (length c) p + (p - length c) = p" for c :: "u8 list" and p
    by (simp add: min_def)
  then have "cfs_write_ok sim_contiki"
    by (auto simp: cfs_write_ok_def sim_contiki_def sim_write_def nth_append)
  ultimately show ?thesis
    by (simp add: cfs_ok_def)
qed

lemma sim_net_ok: "net_ok sim_contiki"
  by (simp add: net_ok_def sim_contiki_def)

lemma sim_cfs_reliable: "cfs_reliable sim_contiki"
  by (simp add: cfs_reliable_def sim_contiki_def sim_seek_def Let_def)

lemmas sim_ok = sim_list_ok sim_memb_ok sim_etimer_ok sim_cfs_ok sim_net_ok sim_cfs_reliable

end
