(* ===== verification/Digits.thy ===== *)
theory Digits
  imports Prelude
begin

text \<open>
  Numbers as lists of base-\<open>2^m\<close> digits, least significant first. A word expression that works on
  all the fields of a word at once (a masked shift, an addition of neighbouring fields) becomes an
  operation on the digit list; the population count of \<^verbatim>\<open>bitset.c\<close> is verified with it.
\<close>

section \<open>Digit lists\<close>

primrec digits_val :: "nat \<Rightarrow> nat list \<Rightarrow> nat" where
  "digits_val m [] = 0"
| "digits_val m (d # ds) = d + 2 ^ m * digits_val m ds"

abbreviation below :: "nat \<Rightarrow> nat list \<Rightarrow> bool" where
  "below b ds \<equiv> (\<forall>d\<in>set ds. d < b)"

lemma bit_add_mult_exp:
  fixes a b :: nat
  assumes "a < 2 ^ m"
  shows "bit (a + 2 ^ m * b) n \<longleftrightarrow> (if n < m then bit a n else bit b (n - m))"
proof -
  have t: "take_bit m (a + 2 ^ m * b) = a"
    using assms by (simp add: take_bit_eq_mod)
  have d: "drop_bit m (a + 2 ^ m * b) = b"
    using assms by (simp add: drop_bit_eq_div)
  show ?thesis
    using t d
    by (metis bit_drop_bit_eq bit_take_bit_iff comp_apply le_add_diff_inverse linorder_not_less)
qed

lemma and_split:
  fixes a b c d :: nat
  assumes "a < 2 ^ m" "c < 2 ^ m"
  shows "(a + 2 ^ m * b) AND (c + 2 ^ m * d) = (a AND c) + 2 ^ m * (b AND d)"
proof -
  have "take_bit m (a AND c) = a AND c"
    using assms by (simp add: take_bit_nat_eq_self)
  then have lt: "a AND c < 2 ^ m"
    by (simp only: take_bit_nat_eq_self_iff)
  show ?thesis
    by (rule bit_eqI) (simp add: bit_and_iff bit_add_mult_exp assms lt)
qed

lemma digits_val_and:
  "length ds = length es \<Longrightarrow> below (2 ^ m) ds \<Longrightarrow> below (2 ^ m) es \<Longrightarrow>
   digits_val m ds AND digits_val m es = digits_val m (map2 (AND) ds es)"
  by (induction ds es rule: list_induct2) (simp_all add: and_split)

lemma digits_val_drop:
  "below (2 ^ m) ds \<Longrightarrow> drop_bit m (digits_val m ds) = digits_val m (tl ds)"
  by (cases ds) (simp_all add: drop_bit_eq_div)

fun evens :: "nat list \<Rightarrow> nat list" where
  "evens (a # b # ds) = a # evens ds"
| "evens ds = []"

fun odds :: "nat list \<Rightarrow> nat list" where
  "odds (a # b # ds) = b # odds ds"
| "odds ds = []"

fun pair_sums :: "nat list \<Rightarrow> nat list" where
  "pair_sums (a # b # ds) = (a + b) # pair_sums ds"
| "pair_sums ds = []"

primrec alt_mask :: "nat \<Rightarrow> nat \<Rightarrow> nat list" where
  "alt_mask m 0 = []"
| "alt_mask m (Suc n) = mask m # 0 # alt_mask m n"

lemma below_alt_mask: "below (2 ^ m) (alt_mask m n)"
  by (induction n) (simp_all add: less_mask mask_eq_exp_minus_1)

lemma length_alt_mask[simp]: "length (alt_mask m n) = 2 * n"
  by (induction n) simp_all

lemma and_mask: "d < 2 ^ m \<Longrightarrow> d AND mask m = (d::nat)"
  by (metis take_bit_eq_mask take_bit_nat_eq_self)

lemma digits_val_snoc0: "digits_val m (ds @ [0]) = digits_val m ds"
  by (induction ds) simp_all

lemma map2_alt_mask:
  "length ds = 2 * n \<Longrightarrow> below (2 ^ m) ds \<Longrightarrow>
    digits_val m (map2 (AND) ds (alt_mask m n)) = digits_val (2 * m) (evens ds)"
  by (induction ds arbitrary: n rule: evens.induct)
    (auto simp: and_mask mult_2 power_add Suc_double_not_eq_double length_Suc_conv gr0_conv_Suc elim!: evenE  split: nat.splits, (case_tac n; simp add: and_mask mult_2 power_add mult.assoc)+)

lemma alt_mask_evens:
  "length ds = 2 * n \<Longrightarrow> below (2 ^ m) ds \<Longrightarrow>
   digits_val m ds AND digits_val m (alt_mask m n) = digits_val (2 * m) (evens ds)"
  by (simp add: digits_val_and below_alt_mask map2_alt_mask)

lemma evens_Cons: "odd (length ds) \<Longrightarrow> evens (ds @ [0]) = odds (a # ds)"
proof (induction ds arbitrary: a rule: odds.induct)
  case (1 b c ds)
  then show ?case by (cases ds) auto
qed auto

lemma evens_tl: "even (length ds) \<Longrightarrow> evens (tl ds @ [0]) = odds ds"
  by (cases ds) (auto simp: evens_Cons)

lemma alt_mask_odds:
  assumes "length ds = 2 * n" "below (2 ^ m) ds"
  shows "drop_bit m (digits_val m ds) AND digits_val m (alt_mask m n) = digits_val (2 * m) (odds ds)"
proof (cases ds)
  case Nil
  with assms show ?thesis by simp
next
  case (Cons d es)
  with assms have "drop_bit m (digits_val m ds) = digits_val m (tl ds @ [0])"
    by (simp only: digits_val_drop digits_val_snoc0)
  moreover have "length (tl ds @ [0]) = 2 * n" "below (2 ^ m) (tl ds @ [0])"
    using assms Cons by auto
  ultimately show ?thesis
    using assms by (simp only: alt_mask_evens evens_tl even_mult_iff even_numeral simp_thms)
qed

lemma digits_val_evens_odds:
  "digits_val m (pair_sums ds) = digits_val m (evens ds) + digits_val m (odds ds)"
  by (induction ds rule: pair_sums.induct) (simp_all add: algebra_simps)

lemma digits_val_pairs:
  "even (length ds) \<Longrightarrow> digits_val m ds = digits_val (2 * m) (evens ds) + 2 ^ m * digits_val (2 * m) (odds ds)"
  by (induction ds rule: pair_sums.induct) (simp_all add: distrib_left mult_2 power_add mult.assoc)

lemma sum_pair_sums: "even (length ds) \<Longrightarrow> sum_list (pair_sums ds) = sum_list ds"
  by (induction ds rule: pair_sums.induct) auto

lemma length_pair_sums[simp]: "length (pair_sums ds) = length ds div 2"
  by (induction ds rule: pair_sums.induct) auto

lemma below_pair_sums: "below (Suc b) ds \<Longrightarrow> below (Suc (2 * b)) (pair_sums ds)"
  by (induction ds rule: pair_sums.induct) auto

lemma digits_val_add: "length ds = length es \<Longrightarrow>
  digits_val m (map2 (+) ds es) = digits_val m ds + digits_val m es"
  by (induction ds es rule: list_induct2) (simp_all add: algebra_simps)

lemma digits_val_neighbours:
  assumes "below (2 ^ m) ds"
  shows "digits_val m ds + drop_bit m (digits_val m ds) = digits_val m (map2 (+) ds (tl ds @ [0]))"
proof (cases ds)
  case (Cons d es)
  have "drop_bit m (digits_val m ds) = digits_val m (tl ds @ [0])"
    using assms by (simp only: digits_val_drop digits_val_snoc0)
  moreover have "length ds = length (tl ds @ [0])" using Cons by simp
  ultimately show ?thesis by (simp only: digits_val_add)
qed simp

lemma evens_map2: "length ds = length es \<Longrightarrow> evens (map2 (+) ds es) = map2 (+) (evens ds) (evens es)"
proof (induction ds arbitrary: es rule: evens.induct)
  case (1 a b ds)
  then show ?case by (cases es; cases "tl es") auto
next
  case "2_2"
  then show ?case by (cases es) auto
qed auto

lemma pair_sums_map2: "map2 (+) (evens ds) (odds ds) = pair_sums ds"
  by (induction ds rule: pair_sums.induct) auto

lemma evens_neighbours:
  assumes "even (length ds)" 
  shows "evens (map2 (+) ds (tl ds @ [0])) = pair_sums ds"
proof (cases ds)
  case (Cons d es)
  then have "length ds = length (tl ds @ [0])" by simp
  then show ?thesis using assms by (simp only: evens_map2 evens_tl pair_sums_map2)
qed simp

lemma unat_digits: "unat (x :: u32) = digits_val 1 (map (\<lambda>i. of_bool (bit x i)) [0..<32])"
proof -
  have h: "digits_val 1 (map (\<lambda>i. of_bool (bit x i)) is) = horner_sum of_bool 2 (map (bit x) is)" for "is"
    by (induction "is") simp_all
  have "horner_sum of_bool 2 (map (bit (unat x)) [0..<32]) = take_bit 32 (unat x)"
    by (rule horner_sum_bit_eq_take_bit)
  also have "\<dots> = unat x"
    by (rule take_bit_nat_eq_self) (use unsigned_less [of x, where 'a = nat] in simp)
  also have "map (bit (unat x)) [0..<32] = map (bit x) [0..<32]"
    by (simp add: bit_unsigned_iff)
  finally show ?thesis by (simp only: h)
qed

lemma alt_mask_numeral: "alt_mask m (numeral k) = mask m # 0 # alt_mask m (pred_numeral k)"
  by (simp add: numeral_eq_Suc)

lemma digits_val_less: "below (2 ^ m) ds \<Longrightarrow> digits_val m ds < 2 ^ (m * length ds)"
proof (induction ds)
  case (Cons d ds)
  then have "d + 2 ^ m * digits_val m ds < 2 ^ m * Suc (digits_val m ds)" by simp
  also have "\<dots> \<le> 2 ^ m * 2 ^ (m * length ds)" using Cons by (intro mult_left_mono) auto
  finally show ?case by (simp add: power_add)
qed simp

lemma below_mono: "below a ds \<Longrightarrow> a \<le> b \<Longrightarrow> below b ds" by auto

lemma below_map2_neighbours: "below (Suc b) ds \<Longrightarrow> below (Suc (2 * b)) (map2 (+) ds (tl ds @ [0]))"
proof -
  assume b: "below (Suc b) ds"
  have "u \<le> b \<and> v \<le> b" if "(u, v) \<in> set (zip ds (tl ds @ [0]))" for u v
    using b set_zip_leftD [OF that] set_zip_rightD [OF that]
    by (cases ds) auto
  then show ?thesis by fastforce
qed

end
