(* ===== verification/Bitset.thy ===== *)
theory Bitset
  imports Digits
begin

text \<open>
  \<^verbatim>\<open>peer/bitset.h\<close> and \<^verbatim>\<open>peer/bitset.c\<close>: sets of piece indices as \<^verbatim>\<open>uint32_t\<close> bit vectors.

  The macros write \<^verbatim>\<open>1 << i\<close> with an \<^verbatim>\<open>int\<close> on the left, so the shift happens at the width of
  \<^verbatim>\<open>int\<close> (16 bits on the AVR targets the Makefile defaults to, 32 bits on the host tools) and the
  result is then converted to \<^verbatim>\<open>uint32_t\<close>. The width is the argument \<open>w\<close> of the model. A shift
  is defined C only where the result is representable, that is for \<open>i + 1 < w\<close>; beyond it the model
  takes the two's complement result, which is what the compilers of the targets produce.
\<close>

section \<open>The operations\<close>

definition int_one_shl :: "nat \<Rightarrow> nat \<Rightarrow> int" where
  "int_one_shl w i = signed_take_bit (w - 1) (push_bit i 1)"

definition nanotorrent_bitset_get :: "u32 \<Rightarrow> nat \<Rightarrow> bool" where
  "nanotorrent_bitset_get bs i = ((drop_bit i bs AND 1) = 1)"

definition nanotorrent_bitset_set :: "nat \<Rightarrow> u32 \<Rightarrow> nat \<Rightarrow> u32" where
  "nanotorrent_bitset_set w bs i = bs OR word_of_int (int_one_shl w i)"

definition nanotorrent_bitset_clear :: "nat \<Rightarrow> u32 \<Rightarrow> nat \<Rightarrow> u32" where
  "nanotorrent_bitset_clear w bs i = bs AND word_of_int (NOT (int_one_shl w i))"

definition nanotorrent_bitset_intersect :: "u32 \<Rightarrow> u32 \<Rightarrow> u32" where
  "nanotorrent_bitset_intersect a b = a AND b"

definition nanotorrent_bitset_union :: "u32 \<Rightarrow> u32 \<Rightarrow> u32" where
  "nanotorrent_bitset_union a b = a OR b"

definition nanotorrent_bitset_diff :: "u32 \<Rightarrow> u32 \<Rightarrow> u32" where
  "nanotorrent_bitset_diff a b = a AND NOT b"

definition nanotorrent_bitset_contains :: "u32 \<Rightarrow> u32 \<Rightarrow> bool" where
  "nanotorrent_bitset_contains a b = (nanotorrent_bitset_diff b a = 0)"

definition nanotorrent_bitset_count :: "u32 \<Rightarrow> u8" where
  "nanotorrent_bitset_count x =
    (let x = x - (drop_bit 1 x AND 0x55555555);
         x = (x AND 0x33333333) + (drop_bit 2 x AND 0x33333333);
         x = (x + drop_bit 4 x) AND 0x0F0F0F0F;
         x = x + drop_bit 8 x;
         x = x + drop_bit 16 x
     in ucast (x AND 0x0000003F))"

section \<open>The set a bit vector stands for\<close>

definition bits :: "u32 \<Rightarrow> nat set" where
  "bits x = {i. bit x i}"

definition shift_ok :: "nat \<Rightarrow> nat \<Rightarrow> bool" where
  "shift_ok w i \<longleftrightarrow> i + 1 < w \<and> i < 32"

lemma bits_less: "i \<in> bits x \<Longrightarrow> i < 32"
  using bit_imp_le_length [of x i] by (simp add: bits_def)

lemma bits_subset: "bits x \<subseteq> {..<32}"
  by (auto dest: bits_less)

lemma finite_bits [simp]: "finite (bits x)"
  by (rule finite_subset [OF bits_subset]) simp

lemma bits_inject: "bits x = bits y \<longleftrightarrow> x = y"
  by (auto simp: bits_def set_eq_iff intro: bit_eqI)

lemma bits_empty_iff [simp]: "bits x = {} \<longleftrightarrow> x = 0"
  using bits_inject [of x 0] by (simp add: bits_def)

lemma bits_zero [simp]: "bits 0 = {}"
  by simp

lemma int_one_shl_ok: "i + 1 < w \<Longrightarrow> int_one_shl w i = push_bit i 1"
  unfolding int_one_shl_def
  by (rule bit_eqI) (auto simp: bit_signed_take_bit_iff bit_push_bit_iff bit_1_iff bit_exp_iff min_def)

lemma bits_get [abs_facts]: "nanotorrent_bitset_get x i \<longleftrightarrow> i \<in> bits x"
  by (simp add: nanotorrent_bitset_get_def bits_def bit_iff_and_drop_bit_eq_1)

lemma bits_set: "shift_ok w i \<Longrightarrow> bits (nanotorrent_bitset_set w x i) = insert i (bits x)"
  by (auto simp: nanotorrent_bitset_set_def bits_def shift_ok_def int_one_shl_ok
      bit_or_iff bit_word_of_int_iff bit_push_bit_iff bit_1_iff bit_exp_iff)

lemma bits_clear: "shift_ok w i \<Longrightarrow> bits (nanotorrent_bitset_clear w x i) = bits x - {i}"
  by (auto simp: nanotorrent_bitset_clear_def bits_def shift_ok_def int_one_shl_ok
      bit_and_iff bit_not_iff bit_word_of_int_iff bit_push_bit_iff bit_1_iff bit_exp_iff
      dest: bit_imp_le_length)

lemma bits_intersect [abs_facts]: "bits (nanotorrent_bitset_intersect a b) = bits a \<inter> bits b"
  by (auto simp: nanotorrent_bitset_intersect_def bits_def bit_and_iff)

lemma bits_union [abs_facts]: "bits (nanotorrent_bitset_union a b) = bits a \<union> bits b"
  by (auto simp: nanotorrent_bitset_union_def bits_def bit_or_iff)

lemma bits_diff [abs_facts]: "bits (nanotorrent_bitset_diff a b) = bits a - bits b"
  by (auto simp: nanotorrent_bitset_diff_def bits_def bit_and_iff bit_not_iff
      dest: bit_imp_le_length)

lemma bits_contains [abs_facts]: "nanotorrent_bitset_contains a b \<longleftrightarrow> bits b \<subseteq> bits a"
  using bits_empty_iff [of "nanotorrent_bitset_diff b a"]
  by (auto simp: nanotorrent_bitset_contains_def bits_diff)

section \<open>The population count\<close>

lemma count_masks:
  "unat (0x55555555 :: u32) = digits_val 1 (alt_mask 1 16)"
  "unat (0x33333333 :: u32) = digits_val 2 (alt_mask 2 8)"
  "unat (0x0F0F0F0F :: u32) = digits_val 4 (alt_mask 4 4)"
  by (simp_all add: alt_mask_numeral mask_eq_exp_minus_1)

lemma count_step1:
  assumes x: "unat (x::u32) = digits_val 1 ds" and "length ds = 32" "below 2 ds"
  shows "unat (x - (drop_bit 1 x AND 0x55555555)) = digits_val 2 (pair_sums ds)"
proof -
  have o: "unat (drop_bit 1 x AND 0x55555555) = digits_val 2 (odds ds)"
    using alt_mask_odds [of ds 16 1] assms by (simp only: unat_and unat_drop_bit count_masks) simp
  have e: "unat x = digits_val 2 (evens ds) + 2 * digits_val 2 (odds ds)"
    using digits_val_pairs [of ds 1] assms by simp
  show ?thesis
    using o e by (simp add: unat_sub_fits digits_val_evens_odds)
qed

lemma count_step2:
  assumes x: "unat (x::u32) = digits_val 2 ds" and "length ds = 16" "below 3 ds"
  shows "unat ((x AND 0x33333333) + (drop_bit 2 x AND 0x33333333)) = digits_val 4 (pair_sums ds)"
proof -
  have b: "below (2 ^ 2) ds" using assms(3) by auto
  have e: "unat (x AND 0x33333333) = digits_val 4 (evens ds)"
    using alt_mask_evens [of ds 8 2] assms b by (simp only: unat_and count_masks) simp
  have o: "unat (drop_bit 2 x AND 0x33333333) = digits_val 4 (odds ds)"
    using alt_mask_odds [of ds 8 2] assms b by (simp only: unat_and unat_drop_bit count_masks) simp
  have "below (2 ^ 4) (pair_sums ds)"
    using below_mono [OF below_pair_sums [of ds 2], of 16] assms(3) by simp
  from digits_val_less [OF this] have "digits_val 4 (pair_sums ds) < 2 ^ 32"
    using assms by simp
  then show ?thesis
    using unat_add_fits [of "x AND 0x33333333" "drop_bit 2 x AND 0x33333333"] by (simp add: o e digits_val_evens_odds)
qed

lemma count_step3:
  assumes x: "unat (x::u32) = digits_val 4 ds" and "length ds = 8" "below 5 ds"
  shows "unat ((x + drop_bit 4 x) AND 0x0F0F0F0F) = digits_val 8 (pair_sums ds)"
proof -
  let ?ns = "map2 (+) ds (tl ds @ [0])"
  have b: "below (2 ^ 4) ds" using assms(3) by auto
  have n: "below (2 ^ 4) ?ns" 
    using below_mono [OF below_map2_neighbours [of ds 4], of 16] assms(3) by simp
  have l: "length ?ns = 8" using assms by simp
  have "unat x + unat (drop_bit 4 x) = digits_val 4 ?ns"
    using digits_val_neighbours [OF b] x by (simp add: unat_drop_bit)
  moreover have "\<dots> < 2 ^ 32" using digits_val_less [OF n] l by simp
  ultimately have "unat (x + drop_bit 4 x) = digits_val 4 ?ns"
    by (simp add: unat_add_fits)
  then show ?thesis
    using alt_mask_evens [of ?ns 4 4] n l assms(2) evens_neighbours [of ds]
    by (simp only: unat_and count_masks) simp
qed

lemma count_step4:
  assumes x: "unat (x::u32) = digits_val 8 [a, b, c, d]" and "below 9 [a, b, c, d]"
  shows "ucast (let x = x + drop_bit 8 x; x = x + drop_bit 16 x in x AND 0x3F) = (of_nat (a + b + c + d) :: u8)"
proof -
  have d8: "unat (drop_bit 8 x) = digits_val 8 [b, c, d]"
    using assms digits_val_drop [of "[a, b, c, d]" 8] by (simp only: unat_drop_bit) simp
  have s8: "unat (x + drop_bit 8 x) = digits_val 8 [a + b, b + c, c + d, d]"
    using assms d8 by (simp add: unat_add_fits)
  have "drop_bit 16 (digits_val 8 [a + b, b + c, c + d, d]) =
      drop_bit 8 (drop_bit 8 (digits_val 8 [a + b, b + c, c + d, d]))"
    by (simp only: drop_bit_drop_bit) simp
  also have "\<dots> = digits_val 8 [c + d, d]"
    using assms(2) digits_val_drop [of "[a + b, b + c, c + d, d]" 8] digits_val_drop [of "[b + c, c + d, d]" 8]
    by (simp del: digits_val.simps drop_bit_drop_bit)
  finally have d16: "unat (drop_bit 16 (x + drop_bit 8 x)) = digits_val 8 [c + d, d]"
    by (simp only: unat_drop_bit s8)
  have s16: "unat (x + drop_bit 8 x + drop_bit 16 (x + drop_bit 8 x)) = digits_val 8 [a + b + c + d, b + c + d, c + d, d]"
    using assms s8 d16 by (simp add: unat_add_fits)
  let ?r = "x + drop_bit 8 x + drop_bit 16 (x + drop_bit 8 x)"
  have "unat (?r AND 0x3F) = unat ?r AND mask 6"
    by (simp add: unat_and mask_eq_exp_minus_1)
  also have "\<dots> = (a + b + c + d + 64 * (4 * digits_val 8 [b + c + d, c + d, d])) mod 64"
    by (simp add: s16 flip: take_bit_eq_mask) (simp add: take_bit_eq_mod)
  also have "\<dots> = (a + b + c + d) mod 64"
    by (rule mod_mult_self2)
  also have "\<dots> = a + b + c + d"
    using assms(2) by simp
  finally have n: "unat (?r AND 0x3F) = a + b + c + d" .
  have "(ucast (?r AND 0x3F) :: u8) = of_nat (unat (?r AND 0x3F))"
    by (rule of_nat_unat [symmetric])
  then show ?thesis
    by (simp only: Let_def n)
qed
lemma count_digits:
  assumes x: "unat x = digits_val 1 ds" and len: "length ds = 32" and b0: "below (Suc 1) ds"
  shows "nanotorrent_bitset_count x = of_nat (sum_list ds)"
proof -
  let ?x1 = "x - (drop_bit 1 x AND 0x55555555)"
  let ?x2 = "(?x1 AND 0x33333333) + (drop_bit 2 ?x1 AND 0x33333333)"
  let ?x3 = "(?x2 + drop_bit 4 ?x2) AND 0x0F0F0F0F"
  let ?p1 = "pair_sums ds" and ?p2 = "pair_sums (pair_sums ds)"
    and ?p3 = "pair_sums (pair_sums (pair_sums ds))"
  have b1: "below (Suc 2) ?p1" using below_pair_sums [OF b0] by simp
  have b2: "below (Suc 4) ?p2" using below_pair_sums [OF b1] by simp
  have b3: "below (Suc 8) ?p3" using below_pair_sums [OF b2] by simp
  have "unat ?x1 = digits_val 2 ?p1"
    using count_step1 [OF x len] b0 by (simp add: numeral_2_eq_2)
  then have "unat ?x2 = digits_val 4 ?p2"
    using count_step2 [of ?x1 ?p1] b1 len by simp
  then have x3: "unat ?x3 = digits_val 8 ?p3"
    using count_step3 [of ?x2 ?p2] b2 len by simp
  have "length ?p3 = 4" using len by simp
  then obtain a b c d where p3: "?p3 = [a, b, c, d]"
    by (auto simp only: length_4_conv)
  have "a + b + c + d = sum_list ?p3"
    by (simp only: p3) simp
  also have "\<dots> = sum_list ds"
    using len by (simp add: sum_pair_sums)
  finally have s: "a + b + c + d = sum_list ds" .
  have "below 9 [a, b, c, d]"
    using b3 unfolding p3 by simp
  from count_step4 [OF x3 [unfolded p3] this] s show ?thesis
    by (simp add: nanotorrent_bitset_count_def Let_def)
qed

lemma count_is_sum:
  "nanotorrent_bitset_count x = of_nat (sum_list (map (\<lambda>i. of_bool (bit x i)) [0..<32]))"
  by (rule count_digits [OF unat_digits]) auto

lemma sum_of_bits: "sum_list (map (\<lambda>i. of_bool (bit x i)) [0..<32]) = card (bits x)"
proof -
  have "sum_list (map (\<lambda>i. of_bool (bit x i)) [0..<32]) = (\<Sum>i\<in>{..<32}. of_bool (bit x i) :: nat)"
    by (simp add: sum_list_distinct_conv_sum_set atLeast0LessThan)
  also have "\<dots> = card ({..<32} \<inter> bits x)"
    by (simp add: bits_def)
  also have "{..<32} \<inter> bits x = bits x"
    using bits_subset by auto
  finally show ?thesis .
qed

lemma card_bits_le: "card (bits x) \<le> 32"
  using card_mono [OF _ bits_subset] by simp

lemma count_eq_card [abs_facts]: "unat (nanotorrent_bitset_count x) = card (bits x)"
  using card_bits_le [of x]
  by (simp add: count_is_sum sum_of_bits unat_of_nat)

section \<open>Bit vectors as an implementation of small sets\<close>

text \<open>
  What the clients of the bit vectors rely on: the operations act on the abstract set as their
  names say, for the element indices \<open>ok\<close> that the representation supports.
\<close>

locale small_set =
  fixes abs :: "'s \<Rightarrow> nat set"
    and ok :: "nat \<Rightarrow> bool"
    and get :: "'s \<Rightarrow> nat \<Rightarrow> bool"
    and ins :: "'s \<Rightarrow> nat \<Rightarrow> 's"
    and del :: "'s \<Rightarrow> nat \<Rightarrow> 's"
    and diff :: "'s \<Rightarrow> 's \<Rightarrow> 's"
    and sup :: "'s \<Rightarrow> 's \<Rightarrow> bool"
    and size :: "'s \<Rightarrow> nat"
  assumes get_abs: "get s i \<longleftrightarrow> i \<in> abs s"
    and ins_abs: "ok i \<Longrightarrow> abs (ins s i) = insert i (abs s)"
    and del_abs: "ok i \<Longrightarrow> abs (del s i) = abs s - {i}"
    and diff_abs: "abs (diff s t) = abs s - abs t"
    and sup_abs: "sup s t \<longleftrightarrow> abs t \<subseteq> abs s"
    and size_abs: "size s = card (abs s)"
    and finite_abs: "finite (abs s)"
begin

lemma get_ins: "ok i \<Longrightarrow> get (ins s i) j \<longleftrightarrow> j = i \<or> get s j"
  by (auto simp: get_abs ins_abs)

lemma get_del: "ok i \<Longrightarrow> get (del s i) j \<longleftrightarrow> j \<noteq> i \<and> get s j"
  by (auto simp: get_abs del_abs)

lemma get_diff: "get (diff s t) j \<longleftrightarrow> get s j \<and> \<not> get t j"
  by (simp add: get_abs diff_abs)

lemma sup_iff: "sup s t \<longleftrightarrow> (\<forall>i. get t i \<longrightarrow> get s i)"
  by (auto simp: get_abs sup_abs)

lemma sup_ins: "ok i \<Longrightarrow> sup s t \<Longrightarrow> sup (ins s i) t"
  by (auto simp: sup_abs ins_abs)

lemma size_ins: "ok i \<Longrightarrow> size (ins s i) = (if get s i then size s else Suc (size s))"
  by (simp add: size_abs ins_abs get_abs finite_abs insert_absorb)

lemma size_del: "ok i \<Longrightarrow> size (del s i) = (if get s i then size s - 1 else size s)"
  by (simp add: size_abs del_abs get_abs finite_abs)

lemma size_sup: "sup s t \<Longrightarrow> size t \<le> size s"
  by (simp add: size_abs sup_abs finite_abs card_mono)

end

lemmas bitset_abs = bits_get bits_set bits_clear bits_intersect bits_union bits_diff bits_contains

interpretation bs: small_set bits "shift_ok w" nanotorrent_bitset_get
    "nanotorrent_bitset_set w" "nanotorrent_bitset_clear w" nanotorrent_bitset_diff
    nanotorrent_bitset_contains "\<lambda>s. unat (nanotorrent_bitset_count s)"
  for w
  by unfold_locales (simp_all add: bits_get bits_set bits_clear bits_diff bits_contains count_eq_card)

section \<open>Properties of the bit vectors\<close>

text \<open>
  \<^verbatim>\<open>nanotorrent_bitset_count\<close>, the parallel bit count of Hacker's Delight, returns the number
  of indices for which \<^verbatim>\<open>nanotorrent_bitset_get\<close> answers true, for every 32-bit vector.
\<close>

theorem bitset_count_is_cardinality:
  "unat (nanotorrent_bitset_count x) = card {i. nanotorrent_bitset_get x i}"
  by (simp add: count_eq_card bits_get)

text \<open>
  Where \<^verbatim>\<open>1 << i\<close> is a defined shift of the target's \<^verbatim>\<open>int\<close>, setting and clearing bit \<open>i\<close> insert
  and remove \<open>i\<close> and leave every other index as it was, and the count follows them by one exactly
  when the membership of \<open>i\<close> changed.
\<close>

theorem bitset_set_clear:
  assumes "shift_ok w i"
  shows "(nanotorrent_bitset_get (nanotorrent_bitset_set w x i) j \<longleftrightarrow> j = i \<or> nanotorrent_bitset_get x j) \<and>
    (nanotorrent_bitset_get (nanotorrent_bitset_clear w x i) j \<longleftrightarrow> j \<noteq> i \<and> nanotorrent_bitset_get x j) \<and>
    unat (nanotorrent_bitset_count (nanotorrent_bitset_set w x i)) =
      unat (nanotorrent_bitset_count x) + of_bool (\<not> nanotorrent_bitset_get x i) \<and>
    unat (nanotorrent_bitset_count (nanotorrent_bitset_clear w x i)) =
      unat (nanotorrent_bitset_count x) - of_bool (nanotorrent_bitset_get x i)"
  using assms by (simp add: bs.get_ins bs.get_del bs.size_ins bs.size_del)

theorem bitset_set_clear_witness:
  "nanotorrent_bitset_get (nanotorrent_bitset_set 16 0 14) 14 \<and>
   \<not> nanotorrent_bitset_get (nanotorrent_bitset_clear 16 0xFFFFFFFF 14) 14"
  using bitset_set_clear [of 16 14 0 14] bitset_set_clear [of 16 14 "0xFFFFFFFF" 14]
  by (simp add: shift_ok_def)

text \<open>
  C32: on a target with a 16-bit \<^verbatim>\<open>int\<close> (the Makefile's default, AVR) the macro
  \<^verbatim>\<open>nanotorrent_bitset_set\<close> is not the insertion of an index for the indices from 15 on, although
  \<^verbatim>\<open>NANOTORRENT_MAX_PIECES\<close> is 32: setting bit 15 sets all the bits from 15 to 31, because the
  negative \<^verbatim>\<open>int\<close> is sign-extended, and setting a bit from 16 to 31 changes nothing.
\<close>

theorem bitset_set_16_bit_int:
  "nanotorrent_bitset_set 16 x 15 = x OR 0xFFFF8000 \<and>
   list_all (\<lambda>i. nanotorrent_bitset_set 16 x i = x) [16..<32]"
proof
  have "int_one_shl 16 15 = - 32768"
    by (simp add: int_one_shl_def signed_take_bit_eq_take_bit_shift take_bit_eq_mod push_bit_eq_mult)
  moreover have "(0xFFFF8000 :: u32) = - 32768"
    by (subst eq_neg_iff_add_eq_0) simp
  ultimately show "nanotorrent_bitset_set 16 x 15 = x OR 0xFFFF8000"
    by (simp only: nanotorrent_bitset_set_def of_int_minus of_int_numeral)
  have "int_one_shl 16 i = 0" if "16 \<le> i" for i
    unfolding int_one_shl_def
    by (rule bit_eqI) (use that in \<open>auto simp: bit_signed_take_bit_iff bit_push_bit_iff bit_1_iff bit_exp_iff\<close>)
  then show "list_all (\<lambda>i. nanotorrent_bitset_set 16 x i = x) [16..<32]"
    by (simp add: nanotorrent_bitset_set_def list_all_iff)
qed

end
