(* ===== verification/Piece.thy ===== *)
theory Piece
  imports Contiki Bitset
begin

text \<open>
  \<^verbatim>\<open>peer/state.h\<close> and \<^verbatim>\<open>peer/piece.c\<close>: the state of the torrent, the arithmetic of pieces, and the
  piece store: reading, writing, hashing and verifying the pieces of the local file.

  The functions take the state last and return it after their result. \<open>None\<close> is an execution
  without a result: a loop that does not end or an access outside an array. Local buffers and hash
  contexts that the code leaves uninitialised are arguments.
\<close>

section \<open>State\<close>

record nanotorrent_torrent_state = env +
  info_hash :: sha1_digest_t
  file_name :: string
  desc :: nanotorrent_torrent_desc

record 'f piece_state = nanotorrent_torrent_state +
  own_file :: int
  own_have :: u32
  files :: 'f

abbreviation the_info :: "'a nanotorrent_torrent_state_scheme \<Rightarrow> nanotorrent_torrent_info" where
  "the_info s \<equiv> desc_info (desc s)"

definition NANOTORRENT_PIECE_BUFFER_SIZE :: nat where
  "NANOTORRENT_PIECE_BUFFER_SIZE = 256"

section \<open>Piece arithmetic\<close>

definition nanotorrent_piece_is_valid :: "u8 \<Rightarrow> 'a nanotorrent_torrent_state_scheme \<Rightarrow> bool" where
  "nanotorrent_piece_is_valid i s = (i < num_pieces (the_info s))"

text \<open>
  The product of a \<^verbatim>\<open>uint8_t\<close> and a \<^verbatim>\<open>uint16_t\<close> is returned as \<^verbatim>\<open>uint16_t\<close>: modulo \<open>2 ^ 16\<close> whatever the
  width of \<^verbatim>\<open>int\<close>.
\<close>

definition nanotorrent_piece_offset :: "u8 \<Rightarrow> 'a nanotorrent_torrent_state_scheme \<Rightarrow> u16" where
  "nanotorrent_piece_offset i s =
    (if \<not> nanotorrent_piece_is_valid i s then 0
     else ucast i * piece_size (the_info s))"

text \<open>
  A descriptor with \<open>piece_size = 0\<close> and several pieces makes the code divide by zero; the theorems
  about sizes require a positive piece size.
\<close>

definition nanotorrent_piece_size :: "u8 \<Rightarrow> 'a nanotorrent_torrent_state_scheme \<Rightarrow> u16" where
  "nanotorrent_piece_size i s =
    (if \<not> nanotorrent_piece_is_valid i s then 0
     else
       (let fs = file_size (the_info s); ps = piece_size (the_info s) in
        if uint i = uint (num_pieces (the_info s)) - 1 then
          (if i = 0 then fs
           else (let remainder = fs mod ps in if remainder = 0 then ps else remainder))
        else ps))"

section \<open>Completed pieces\<close>

definition nanotorrent_piece_bitset_all :: "nat \<Rightarrow> 'a nanotorrent_torrent_state_scheme \<Rightarrow> u32" where
  "nanotorrent_piece_bitset_all w s =
    word_of_int (signed_take_bit (w - 1) (int_one_shl w (unat (num_pieces (the_info s))) - 1))"

definition nanotorrent_piece_have :: "('f, 'a) piece_state_scheme \<Rightarrow> u32" where
  "nanotorrent_piece_have s = own_have s"

definition nanotorrent_piece_is_seed :: "nat \<Rightarrow> ('f, 'a) piece_state_scheme \<Rightarrow> bool" where
  "nanotorrent_piece_is_seed w s =
    (let all = nanotorrent_piece_bitset_all w s in nanotorrent_bitset_contains (own_have s) all)"

definition nanotorrent_piece_is_complete :: "u8 \<Rightarrow> ('f, 'a) piece_state_scheme \<Rightarrow> bool" where
  "nanotorrent_piece_is_complete i s =
    (if \<not> nanotorrent_piece_is_valid i s then False
     else nanotorrent_bitset_get (own_have s) (unat i))"

definition nanotorrent_piece_set_complete ::
  "nat \<Rightarrow> u8 \<Rightarrow> bool \<Rightarrow> ('f, 'a) piece_state_scheme \<Rightarrow> ('f, 'a) piece_state_scheme" where
  "nanotorrent_piece_set_complete w i is_complete s =
    (if \<not> nanotorrent_piece_is_valid i s then s
     else if is_complete then s\<lparr>own_have := nanotorrent_bitset_set w (own_have s) (unat i)\<rparr>
     else s\<lparr>own_have := nanotorrent_bitset_clear w (own_have s) (unat i)\<rparr>)"

definition nanotorrent_piece_count_complete :: "('f, 'a) piece_state_scheme \<Rightarrow> u8" where
  "nanotorrent_piece_count_complete s = nanotorrent_bitset_count (own_have s)"

section \<open>Reading and writing\<close>

text \<open>The result is the \<^verbatim>\<open>int32_t\<close> the code returns and the bytes stored in the caller's buffer.\<close>

definition nanotorrent_piece_read :: "('f, 'm, 't) contiki \<Rightarrow> u8 \<Rightarrow> u8 \<Rightarrow> u16 \<Rightarrow>
    ('f, 'a) piece_state_scheme \<Rightarrow> int \<times> u8 list \<times> ('f, 'a) piece_state_scheme" where
  "nanotorrent_piece_read K i data_offset buffer_length s =
    (if \<not> nanotorrent_piece_is_valid i s then (- 1, [], s)
     else
       (let psize = nanotorrent_piece_size i s in
        if ucast data_offset \<ge> psize then (- 1, [], s)
        else
          (let offset = nanotorrent_piece_offset i s + ucast data_offset;
               (r, f) = cfs_seek K (own_file s) (uint offset) CFS_SEEK_SET (files s);
               s = s\<lparr>files := f\<rparr> in
           if r < 0 then (- 1, [], s)
           else
             (let data_length = psize - ucast data_offset;
                  (r, bs, f) = cfs_read K (own_file s) (unat (min buffer_length data_length)) (files s);
                  s = s\<lparr>files := f\<rparr> in
              if r < 0 then (- 1, [], s) else (r, bs, s)))))"

text \<open>
  \<open>buffer\<close> is the memory from the caller's pointer to the end of its array. The number of bytes
  written is bounded by \<open>buffer_length\<close>, which is the caller's claim.
\<close>

definition nanotorrent_piece_write :: "('f, 'm, 't) contiki \<Rightarrow> u8 \<Rightarrow> u8 \<Rightarrow> u8 list \<Rightarrow> u16 \<Rightarrow>
    ('f, 'a) piece_state_scheme \<Rightarrow> (int \<times> ('f, 'a) piece_state_scheme) option" where
  "nanotorrent_piece_write K i data_offset buffer buffer_length s =
    (if \<not> nanotorrent_piece_is_valid i s then Some (- 1, s)
     else
       (let psize = nanotorrent_piece_size i s in
        if ucast data_offset \<ge> psize then Some (- 1, s)
        else
          (let offset = nanotorrent_piece_offset i s + ucast data_offset;
               (r, f) = cfs_seek K (own_file s) (uint offset) CFS_SEEK_SET (files s);
               s = s\<lparr>files := f\<rparr> in
           if r < 0 then Some (- 1, s)
           else
             (let data_length = psize - ucast data_offset;
                  n = unat (min buffer_length data_length) in
              if length buffer < n then None
              else
                (let (r, f) = cfs_write K (own_file s) (take n buffer) (files s);
                     s = s\<lparr>files := f\<rparr> in
                 if r < 0 then Some (- 1, s) else Some (r, s))))))"

section \<open>Verification\<close>

text \<open>The loop of \<^verbatim>\<open>nanotorrent_piece_digest\<close>; \<open>None\<close> when it does not end.\<close>

partial_function (option) digest_loop :: "('f, 'm, 't) contiki \<Rightarrow> int \<Rightarrow> sha1_context \<Rightarrow> u16 \<Rightarrow> u16 \<Rightarrow> 'f \<Rightarrow>
    (int \<times> sha1_context \<times> 'f) option" where
  "digest_loop K file context len remaining f =
    (if remaining > 0 then
       (case cfs_read K file (min (unat remaining) NANOTORRENT_PIECE_BUFFER_SIZE) f of
          (r, bs, f) \<Rightarrow>
            if r = 0 then Some (uint len, context, f)
            else if r < 0 then Some (- 1, context, f)
            else
              (case sha1_add context bs of
                 (ok, context) \<Rightarrow>
                   if \<not> ok then Some (- 1, context, f)
                   else digest_loop K file context (len + of_int r) (remaining - of_int r) f))
     else Some (uint len, context, f))"

definition nanotorrent_piece_digest :: "('f, 'm, 't) contiki \<Rightarrow> sha1_context \<Rightarrow> int \<Rightarrow> u16 \<Rightarrow> 'f \<Rightarrow>
    (int \<times> sha1_context \<times> 'f) option" where
  "nanotorrent_piece_digest K context file psize f = digest_loop K file context 0 psize f"

definition nanotorrent_piece_verify :: "('f, 'm, 't) contiki \<Rightarrow> sha1_context \<Rightarrow> u8 \<Rightarrow>
    ('f, 'a) piece_state_scheme \<Rightarrow> (bool \<times> sha1_context \<times> ('f, 'a) piece_state_scheme) option" where
  "nanotorrent_piece_verify K context i s =
    (if \<not> nanotorrent_piece_is_valid i s then Some (False, context, s)
     else
       (let offset = nanotorrent_piece_offset i s;
            psize = nanotorrent_piece_size i s;
            (r, f) = cfs_seek K (own_file s) (uint offset) CFS_SEEK_SET (files s);
            s = s\<lparr>files := f\<rparr> in
        if r < 0 then Some (False, context, s)
        else
          (let context = sha1_reset context in do {
             (piece_length, context, f) \<leftarrow> nanotorrent_piece_digest K context (own_file s) psize (files s);
             let s = s\<lparr>files := f\<rparr>;
             if piece_length < 0 then Some (False, context, s)
             else
               (case sha1_result context of
                  (ok, digest, context) \<Rightarrow>
                    if \<not> ok then Some (False, context, s)
                    else if unat i < length (piece_hashes (the_info s)) then
                      Some (sha1_cmp digest (piece_hashes (the_info s) ! unat i), context, s)
                    else None) })))"

text \<open>The loop of \<^verbatim>\<open>nanotorrent_piece_verify_all\<close> over the pieces from \<open>i\<close> on, \<open>k\<close> of them.\<close>

fun verify_loop :: "('f, 'm, 't) contiki \<Rightarrow> nat \<Rightarrow> nat \<Rightarrow> sha1_context \<Rightarrow> u32 \<Rightarrow>
    ('f, 'a) piece_state_scheme \<Rightarrow> (u32 \<times> ('f, 'a) piece_state_scheme) option" where
  "verify_loop K i 0 context result s = Some (result, s)"
| "verify_loop K i (Suc k) context result s = do {
     (b, context, s) \<leftarrow> nanotorrent_piece_verify K context (of_nat i) s;
     let result = (if b then nanotorrent_bitset_set (int_bits K) result i else result);
     verify_loop K (Suc i) k context result s }"

definition nanotorrent_piece_verify_all :: "('f, 'm, 't) contiki \<Rightarrow> sha1_context \<Rightarrow>
    ('f, 'a) piece_state_scheme \<Rightarrow> (u32 \<times> ('f, 'a) piece_state_scheme) option" where
  "nanotorrent_piece_verify_all K context s =
    verify_loop K 0 (unat (num_pieces (the_info s))) context 0 s"

definition nanotorrent_piece_init :: "('f, 'm, 't) contiki \<Rightarrow> sha1_context \<Rightarrow>
    ('f, 'a) piece_state_scheme \<Rightarrow> ('f, 'a) piece_state_scheme option" where
  "nanotorrent_piece_init K context s =
    (let (file, f) = cfs_open K (file_name s) (files s);
         s = s\<lparr>files := f\<rparr> in
     if file < 0 then Some s
     else do {
       let s = s\<lparr>own_file := file\<rparr>;
       (have, s) \<leftarrow> nanotorrent_piece_verify_all K context s;
       Some (s\<lparr>own_have := have\<rparr>) })"

definition nanotorrent_piece_shutdown :: "('f, 'm, 't) contiki \<Rightarrow>
    ('f, 'a) piece_state_scheme \<Rightarrow> ('f, 'a) piece_state_scheme" where
  "nanotorrent_piece_shutdown K s =
    (let s = (if own_file s \<ge> 0 then s\<lparr>files := cfs_close K (own_file s) (files s)\<rparr> else s)
     in s\<lparr>own_file := - 1\<rparr>)"

section \<open>Well-formed torrents\<close>

text \<open>
  The number of pieces is what the file size and the piece size say. \<^verbatim>\<open>nanotorrent_torrent_info_create\<close>
  produces such descriptors.
\<close>

definition torrent_wf :: "nanotorrent_torrent_info \<Rightarrow> bool" where
  "torrent_wf ti \<longleftrightarrow> info_ok ti \<and> 0 < unat (piece_size ti) \<and> 0 < unat (num_pieces ti) \<and>
     unat (file_size ti) \<le> unat (num_pieces ti) * unat (piece_size ti) \<and>
     (1 < unat (num_pieces ti) \<longrightarrow> (unat (num_pieces ti) - 1) * unat (piece_size ti) < unat (file_size ti))"

definition piece_off :: "nanotorrent_torrent_info \<Rightarrow> nat \<Rightarrow> nat" where
  "piece_off ti i = i * unat (piece_size ti)"

definition piece_len :: "nanotorrent_torrent_info \<Rightarrow> nat \<Rightarrow> nat" where
  "piece_len ti i = min (unat (piece_size ti)) (unat (file_size ti) - i * unat (piece_size ti))"

lemma valid_iff: "nanotorrent_piece_is_valid i s \<longleftrightarrow> unat i < unat (num_pieces (the_info s))"
  by (simp add: nanotorrent_piece_is_valid_def word_less_nat_alt)

lemma wf_before_last:
  assumes "torrent_wf ti" "Suc i < unat (num_pieces ti)"
  shows "Suc i * unat (piece_size ti) < unat (file_size ti)"
proof -
  have "Suc i * unat (piece_size ti) \<le> (unat (num_pieces ti) - 1) * unat (piece_size ti)"
    using assms(2) by (intro mult_le_mono1) simp
  with assms show ?thesis
    by (auto simp: torrent_wf_def)
qed

lemma wf_offset:
  assumes "torrent_wf ti" "i < unat (num_pieces ti)"
  shows "i = 0 \<or> i * unat (piece_size ti) < unat (file_size ti)"
  using wf_before_last [OF assms(1), of "i - 1"] assms(2) by (cases i) auto

lemma unat_piece_offset:
  assumes "torrent_wf (the_info s)" "nanotorrent_piece_is_valid i s"
  shows "unat (nanotorrent_piece_offset i s) = piece_off (the_info s) (unat i)"
proof -
  have "unat i * unat (piece_size (the_info s)) < 65536"
    using wf_offset [OF assms(1), of "unat i"] assms(2) unat_u16_less [of "file_size (the_info s)"]
    by (auto simp: valid_iff)
  then show ?thesis
    using assms(2) by (simp add: nanotorrent_piece_offset_def piece_off_def unat_mult_fits)
qed

lemma last_piece_le:
  fixes fs ps n :: nat
  shows "fs \<le> n * ps \<Longrightarrow> 0 < n \<Longrightarrow> fs - (n - 1) * ps \<le> ps"
  by (cases n) auto

lemma last_piece_remainder:
  fixes fs ps n :: nat
  assumes "0 < ps" "fs \<le> n * ps" "(n - 1) * ps < fs" "0 < n"
  shows "(if fs mod ps = 0 then ps else fs mod ps) = fs - (n - 1) * ps"
proof -
  have fs: "fs = (fs - (n - 1) * ps) + (n - 1) * ps"
    using assms(3) by simp
  have le: "fs - (n - 1) * ps \<le> ps"
    using assms(2,4) by (rule last_piece_le)
  have m: "fs mod ps = (fs - (n - 1) * ps) mod ps"
    by (subst fs) simp
  show ?thesis
  proof (cases "fs - (n - 1) * ps = ps")
    case True
    then show ?thesis using m by simp
  next
    case False
    then have "(fs - (n - 1) * ps) mod ps = fs - (n - 1) * ps"
      using le by simp
    then show ?thesis using m assms(3) by simp
  qed
qed

lemma unat_piece_size:
  assumes "torrent_wf (the_info s)" "nanotorrent_piece_is_valid i s"
  shows "unat (nanotorrent_piece_size i s) = piece_len (the_info s) (unat i)"
proof -
  let ?n = "unat (num_pieces (the_info s))" and ?fs = "unat (file_size (the_info s))"
    and ?ps = "unat (piece_size (the_info s))"
  have v: "unat i < ?n"
    using assms(2) by (simp add: valid_iff)
  have last: "uint i = uint (num_pieces (the_info s)) - 1 \<longleftrightarrow> unat i = ?n - 1"
  proof -
    have "uint i = int (unat i)" "uint (num_pieces (the_info s)) = int ?n"
      by simp_all
    with v show ?thesis by linarith
  qed
  show ?thesis
  proof (cases "unat i = ?n - 1")
    case False
    then have "Suc (unat i) * ?ps < ?fs"
      using wf_before_last [OF assms(1), of "unat i"] v by simp
    then show ?thesis
      using assms(2) False by (simp add: nanotorrent_piece_size_def last piece_len_def Let_def)
  next
    case True
    show ?thesis
    proof (cases "i = 0")
      case i: True
      then have n: "?n = 1"
        using True v by simp
      then have "?fs \<le> ?ps"
        using assms(1) unfolding torrent_wf_def by simp
      moreover have "num_pieces (the_info s) = 1"
        using n by (intro unsigned_word_eqI [where ?'a = nat]) simp
      ultimately show ?thesis
        using assms(2) i by (simp add: nanotorrent_piece_size_def piece_len_def Let_def)
    next
      case i: False
      then have "unat i \<noteq> 0"
        by (simp add: unat_eq_0)
      with True have n: "1 < ?n" by simp
      have eq: "(if ?fs mod ?ps = 0 then ?ps else ?fs mod ?ps) = ?fs - unat i * ?ps"
        unfolding True
        by (rule last_piece_remainder) (use assms(1) n in \<open>auto simp: torrent_wf_def\<close>)
      have "?fs - unat i * ?ps \<le> ?ps"
        unfolding True by (rule last_piece_le) (use assms(1) in \<open>simp_all add: torrent_wf_def\<close>)
      moreover have "file_size (the_info s) mod piece_size (the_info s) = 0 \<longleftrightarrow> ?fs mod ?ps = 0"
        by (simp add: unat_mod unat_eq_0 [symmetric])
      ultimately show ?thesis
        using assms(2) True i eq
        by (auto simp add: nanotorrent_piece_size_def last piece_len_def Let_def unat_mod split: if_splits)
    qed
  qed
qed

lemma piece_in_file:
  assumes "torrent_wf ti" "i < unat (num_pieces ti)"
  shows "piece_off ti i + piece_len ti i \<le> unat (file_size ti)"
  using wf_offset [OF assms] by (auto simp: piece_off_def piece_len_def)

lemma next_piece_off:
  assumes "torrent_wf ti" "Suc i < unat (num_pieces ti)"
  shows "piece_off ti (Suc i) = piece_off ti i + piece_len ti i"
  using wf_before_last [OF assms] by (simp add: piece_off_def piece_len_def)

lemma last_piece_end:
  assumes "torrent_wf ti" "Suc i = unat (num_pieces ti)"
  shows "piece_off ti i + piece_len ti i = unat (file_size ti)"
proof -
  have "unat (file_size ti) \<le> Suc i * unat (piece_size ti)"
    using assms by (simp add: torrent_wf_def)
  moreover have "i * unat (piece_size ti) \<le> unat (file_size ti)"
    using wf_offset [OF assms(1), of i] assms(2) by auto
  ultimately show ?thesis
    by (simp add: piece_off_def piece_len_def)
qed

lemma pieces_cover:
  assumes "torrent_wf ti" "k < unat (num_pieces ti)"
  shows "(\<Sum>i<Suc k. piece_len ti i) = piece_off ti k + piece_len ti k"
  using assms(2)
proof (induction k)
  case 0
  then show ?case by (simp add: piece_off_def)
next
  case (Suc k)
  then show ?case
    using next_piece_off [OF assms(1)] by simp
qed

section \<open>Digests and verification\<close>

lemma cfs_seek_set:
  assumes "cfs_ok K" "cfs_seek K fd (uint (off :: u16)) CFS_SEEK_SET f = (r, f')"
  shows "cfs_content K f' = cfs_content K f" "0 \<le> r \<Longrightarrow> cfs_pos K f' fd = unat off"
proof -
  have "cfs_seek K fd (int (unat off)) CFS_SEEK_SET f = (r, f')"
    using assms(2) by simp
  then show "cfs_content K f' = cfs_content K f" "0 \<le> r \<Longrightarrow> cfs_pos K f' fd = unat off"
    using assms(1) unfolding cfs_ok_def cfs_seek_ok_def by blast+
qed

lemma cfs_read_cases:
  assumes "cfs_ok K" "cfs_read K fd n f = (r, bs, f')"
  shows "cfs_content K f' = cfs_content K f"
    and "0 \<le> r \<Longrightarrow> r = int (length bs) \<and> length bs \<le> n \<and>
      bs = take (length bs) (drop (cfs_pos K f fd) (cfs_content K f fd)) \<and>
      cfs_pos K f' fd = cfs_pos K f fd + length bs \<and>
      (bs = [] \<longrightarrow> n = 0 \<or> length (cfs_content K f fd) \<le> cfs_pos K f fd)"
proof -
  have l: "cfs_content K f' = cfs_content K f \<and>
     (0 \<le> r \<longrightarrow> length bs = nat r \<and> length bs \<le> n \<and>
        bs = take (length bs) (drop (cfs_pos K f fd) (cfs_content K f fd)) \<and>
        cfs_pos K f' fd = cfs_pos K f fd + length bs \<and>
        (bs = [] \<longrightarrow> n = 0 \<or> length (cfs_content K f fd) \<le> cfs_pos K f fd))"
    using assms unfolding cfs_ok_def cfs_read_ok_def by blast
  then show "cfs_content K f' = cfs_content K f" by blast
  show "r = int (length bs) \<and> length bs \<le> n \<and>
      bs = take (length bs) (drop (cfs_pos K f fd) (cfs_content K f fd)) \<and>
      cfs_pos K f' fd = cfs_pos K f fd + length bs \<and>
      (bs = [] \<longrightarrow> n = 0 \<or> length (cfs_content K f fd) \<le> cfs_pos K f fd)" if "0 \<le> r"
  proof -
    from l that have c: "length bs = nat r" and rest: "length bs \<le> n \<and>
      bs = take (length bs) (drop (cfs_pos K f fd) (cfs_content K f fd)) \<and>
      cfs_pos K f' fd = cfs_pos K f fd + length bs \<and>
      (bs = [] \<longrightarrow> n = 0 \<or> length (cfs_content K f fd) \<le> cfs_pos K f fd)"
      by blast+
    from c that have "r = int (length bs)" by simp
    with rest show ?thesis by blast
  qed
qed

text \<open>
  The digest loop ends, and unless it reports an error it has added to the context the next
  \<open>remaining\<close> bytes of the file, or all there are.
\<close>

definition digest_outcome :: "('f, 'm, 't) contiki \<Rightarrow> int \<Rightarrow> u8 list \<Rightarrow> nat \<Rightarrow> nat \<Rightarrow> 'f \<Rightarrow>
    int \<times> sha1_context \<times> 'f \<Rightarrow> bool" where
  "digest_outcome K fd m k n f res \<longleftrightarrow>
    (case res of (r, c', f') \<Rightarrow>
       cfs_content K f' = cfs_content K f \<and> length (next_block c') = 64 \<and>
       (r < 0 \<longrightarrow> \<not> cfs_reliable K) \<and>
       (0 \<le> r \<longrightarrow> (let bs = take k (drop (cfs_pos K f fd) (cfs_content K f fd)) in
          r = int (n + length bs) \<and> avr_repr c' (m @ bs) \<and> cfs_pos K f' fd = cfs_pos K f fd + length bs)))"

lemma sha1_add_ok: "avr_repr c m \<Longrightarrow> \<exists>c'. sha1_add c bs = (True, c') \<and> avr_repr c' (m @ bs)"
  using avr.add_ok [of c m bs] avr.repr_add [of c m bs] by (cases "sha1_add c bs") auto

lemma avr_repr_block: "avr_repr c m \<Longrightarrow> length (next_block c) = 64"
  by (simp add: avr_repr_def)

lemma take_prefix_split:
  assumes "bs = take (length bs) d" "length bs \<le> k"
  shows "take k d = bs @ take (k - length bs) (drop (length bs) d)"
proof -
  have "take k d = take (length bs) d @ take (k - length bs) (drop (length bs) d)"
    using take_add [of "length bs" "k - length bs" d] assms(2) by simp
  also have "take (length bs) d = bs"
    using assms(1) by (rule sym)
  finally show ?thesis .
qed

lemma digest_loop_outcome:
  assumes "cfs_ok K" "avr_repr c m" "unat len + unat remaining < 2 ^ 16"
  shows "\<exists>res. digest_loop K fd c len remaining f = Some res \<and>
    digest_outcome K fd m (unat remaining) (unat len) f res"
  using assms(2,3)
proof (induction "unat remaining" arbitrary: c m len remaining f rule: less_induct)
  case less
  note repr = less.prems(1) and fits = less.prems(2)
  show ?case
  proof (cases "remaining > 0")
    case False
    then have "unat remaining = 0"
      by (simp add: word_gt_0)
    with False repr show ?thesis
      by (subst digest_loop.simps) (simp add: digest_outcome_def avr_repr_block)
  next
    case True
    then have pos: "0 < unat remaining"
      by (simp add: word_gt_0 unat_gt_0)
    let ?n = "min (unat remaining) NANOTORRENT_PIECE_BUFFER_SIZE"
    obtain r bs f1 where read: "cfs_read K fd ?n f = (r, bs, f1)"
      by (cases "cfs_read K fd ?n f") auto
    note rd = cfs_read_cases [OF assms(1) read]
    have unfold: "digest_loop K fd c len remaining f =
        (if r = 0 then Some (uint len, c, f1) else if r < 0 then Some (- 1, c, f1)
         else (case sha1_add c bs of (ok, c) \<Rightarrow> if \<not> ok then Some (- 1, c, f1)
           else digest_loop K fd c (len + of_int r) (remaining - of_int r) f1))"
      using True read by (subst digest_loop.simps) simp
    consider "r < 0" | "r = 0" | "0 < r" by linarith
    then show ?thesis
    proof cases
      case 1
      then have "\<not> cfs_reliable K"
        using read by (auto simp: cfs_reliable_def intro!: exI [of _ fd] exI [of _ ?n] exI [of _ f])
      with 1 show ?thesis
        using rd(1) repr by (simp add: unfold digest_outcome_def avr_repr_block)
    next
      case 2
      with rd(2) have "bs = []" by simp
      with rd(2) 2 pos have "length (cfs_content K f fd) \<le> cfs_pos K f fd"
        by (auto simp: NANOTORRENT_PIECE_BUFFER_SIZE_def)
      then show ?thesis
        using 2 rd repr by (simp add: unfold digest_outcome_def avr_repr_block)
    next
      case 3
      then have r: "r = int (length bs)" "length bs \<le> ?n" "0 < length bs"
        "bs = take (length bs) (drop (cfs_pos K f fd) (cfs_content K f fd))"
        "cfs_pos K f1 fd = cfs_pos K f fd + length bs"
        using rd(2) by auto
      obtain c1 where add: "sha1_add c bs = (True, c1)" "avr_repr c1 (m @ bs)"
        using sha1_add_ok [OF repr] by blast
      have lr: "length bs \<le> unat remaining"
        using r(2) by simp
      have w: "unat (of_int r :: u16) = length bs"
        using r(1) lr unat_u16_less [of remaining] by (simp add: unat_of_nat)
      have rem: "unat (remaining - of_int r) = unat remaining - length bs"
        using lr w by (simp add: unat_sub_fits)
      have len1: "unat (len + of_int r) = unat len + length bs"
        using fits lr w by (simp add: unat_add_fits)
      have lt: "unat (remaining - of_int r) < unat remaining"
        using rem r(3) lr by linarith
      from less.hyps [OF lt add(2), of "len + of_int r" f1] obtain res where
        res: "digest_loop K fd c1 (len + of_int r) (remaining - of_int r) f1 = Some res"
          "digest_outcome K fd (m @ bs) (unat remaining - length bs) (unat len + length bs) f1 res"
        using rem len1 lr fits by auto
      let ?d = "drop (cfs_pos K f fd) (cfs_content K f fd)"
      have split: "take (unat remaining) ?d = bs @ take (unat remaining - length bs) (drop (length bs) ?d)"
        by (rule take_prefix_split [OF r(4) lr])
      have "digest_outcome K fd m (unat remaining) (unat len) f res"
        using res(2) rd(1) r(5) split
        by (cases res) (auto simp: digest_outcome_def Let_def add.commute)
      then show ?thesis
        using 3 add(1) res(1) by (simp add: unfold)
    qed
  qed
qed

lemma digest_outcome_total:
  assumes "cfs_ok K" "length (next_block c) = 64"
  shows "\<exists>res. nanotorrent_piece_digest K (sha1_reset c) fd psize f = Some res \<and>
    digest_outcome K fd [] (unat psize) 0 f res"
  using digest_loop_outcome [OF assms(1) avr_reset [OF assms(2)], of 0 psize fd f] unat_u16_less [of psize]
  by (simp add: nanotorrent_piece_digest_def)

text \<open>The bytes a file holds for piece \<open>i\<close>: fewer than the piece's size when the file is shorter.\<close>

definition piece_bytes :: "nanotorrent_torrent_info \<Rightarrow> nat \<Rightarrow> u8 list \<Rightarrow> u8 list" where
  "piece_bytes ti i content = take (piece_len ti i) (drop (piece_off ti i) content)"

definition piece_matches :: "nanotorrent_torrent_info \<Rightarrow> nat \<Rightarrow> u8 list \<Rightarrow> bool" where
  "piece_matches ti i content \<longleftrightarrow> sha1_spec (piece_bytes ti i content) = piece_hashes ti ! i"

definition own_content :: "('f, 'm, 't) contiki \<Rightarrow> ('f, 'a) piece_state_scheme \<Rightarrow> u8 list" where
  "own_content K s = cfs_content K (files s) (own_file s)"

text \<open>Verification ends, changes nothing of the state but the position in the file, and succeeds
  only for a piece whose bytes have the hash of the descriptor.\<close>

lemma piece_verify_outcome:
  assumes "cfs_ok K" "torrent_wf (the_info s)" "length (next_block c) = 64"
  shows "\<exists>b c' f. nanotorrent_piece_verify K c i s = Some (b, c', s\<lparr>files := f\<rparr>) \<and>
    cfs_content K f = cfs_content K (files s) \<and> length (next_block c') = 64 \<and>
    (b \<longrightarrow> nanotorrent_piece_is_valid i s \<and> piece_matches (the_info s) (unat i) (own_content K s)) \<and>
    (cfs_reliable K \<longrightarrow> nanotorrent_piece_is_valid i s \<longrightarrow> piece_matches (the_info s) (unat i) (own_content K s) \<longrightarrow> b)"
proof (cases "nanotorrent_piece_is_valid i s")
  case False
  then show ?thesis
    using assms(3) by (intro exI [of _ False] exI [of _ c] exI [of _ "files s"])
      (simp add: nanotorrent_piece_verify_def)
next
  case valid: True
  obtain r f1 where seek: "cfs_seek K (own_file s) (uint (nanotorrent_piece_offset i s)) CFS_SEEK_SET (files s) = (r, f1)"
    by (cases "cfs_seek K (own_file s) (uint (nanotorrent_piece_offset i s)) CFS_SEEK_SET (files s)")
  note sk = cfs_seek_set [OF assms(1) seek]
  show ?thesis
  proof (cases "r < 0")
    case True
    have "cfs_seek K (own_file s) (int (unat (nanotorrent_piece_offset i s))) CFS_SEEK_SET (files s) = (r, f1)"
      using seek by simp
    with True have "\<not> cfs_reliable K"
      unfolding cfs_reliable_def by (metis fst_conv not_le)
    then show ?thesis
      using True valid seek sk(1) assms(3)
      by (intro exI [of _ False] exI [of _ c] exI [of _ f1]) (simp add: nanotorrent_piece_verify_def)
  next
    case False
    then have pos: "cfs_pos K f1 (own_file s) = piece_off (the_info s) (unat i)"
      using sk(2) unat_piece_offset [OF assms(2) valid] by simp
    obtain n c1 f2 where d: "nanotorrent_piece_digest K (sha1_reset c) (own_file s) (nanotorrent_piece_size i s) f1 = Some (n, c1, f2)"
      and out: "digest_outcome K (own_file s) [] (unat (nanotorrent_piece_size i s)) 0 f1 (n, c1, f2)"
      using digest_outcome_total [OF assms(1,3), of "own_file s" "nanotorrent_piece_size i s" f1] by auto
    have i32: "unat i < length (piece_hashes (the_info s))"
      using assms(2) valid by (simp add: torrent_wf_def info_ok_def hash_array_def valid_iff)
    have content: "cfs_content K f2 = cfs_content K (files s)"
      using out sk(1) by (simp add: digest_outcome_def)
    show ?thesis
    proof (cases "n < 0")
      case True
      then show ?thesis
        using valid seek False d out content
        by (intro exI [of _ False] exI [of _ c1] exI [of _ f2])
          (simp add: nanotorrent_piece_verify_def digest_outcome_def)
    next
      case n: False
      have repr: "avr_repr c1 (piece_bytes (the_info s) (unat i) (own_content K s))"
        using out n pos sk(1) unat_piece_size [OF assms(2) valid]
        by (simp add: digest_outcome_def Let_def piece_bytes_def own_content_def)
      obtain digest c2 where res: "sha1_result c1 = (True, digest, c2)"
        using avr.result_ok [OF repr] by (cases "sha1_result c1") auto
      have dig: "digest = sha1_spec (piece_bytes (the_info s) (unat i) (own_content K s))"
        using avr.result_spec [OF repr] res by simp
      have c2: "length (next_block c2) = 64"
        using res avr_repr_block [OF repr] by (auto simp: sha1_result_def Let_def)
      have h20: "length (piece_hashes (the_info s) ! unat i) = 20"
        using assms(2) i32 by (simp add: torrent_wf_def info_ok_def hash_array_def)
      show ?thesis
        using valid seek False d n res i32 content c2 dig h20
        by (intro exI [of _ "sha1_cmp digest (piece_hashes (the_info s) ! unat i)"] exI [of _ c2] exI [of _ f2])
          (simp add: nanotorrent_piece_verify_def piece_matches_def)
    qed
  qed
qed

section \<open>The set of completed pieces\<close>

text \<open>The bit vectors of the torrent's pieces need one bit more in an \<^verbatim>\<open>int\<close> than there are pieces.\<close>

definition pieces_fit :: "nat \<Rightarrow> nanotorrent_torrent_info \<Rightarrow> bool" where
  "pieces_fit w ti \<longleftrightarrow> unat (num_pieces ti) + 1 < w \<and> unat (num_pieces ti) \<le> 32"

lemma pieces_fit_shift: "pieces_fit w ti \<Longrightarrow> i < unat (num_pieces ti) \<Longrightarrow> shift_ok w i"
  by (simp add: pieces_fit_def shift_ok_def)

lemma bits_all:
  assumes "pieces_fit w (the_info s)"
  shows "bits (nanotorrent_piece_bitset_all w s) = {..<unat (num_pieces (the_info s))}"
proof -
  let ?n = "unat (num_pieces (the_info s))"
  have "int_one_shl w ?n - 1 = mask ?n"
    using assms by (simp add: int_one_shl_ok pieces_fit_def mask_eq_exp_minus_1)
  moreover have "signed_take_bit (w - 1) (mask ?n) = (mask ?n :: int)"
    using assms by (intro bit_eqI) (auto simp: bit_signed_take_bit_iff bit_mask_iff pieces_fit_def min_def)
  ultimately show ?thesis
    using assms by (auto simp: nanotorrent_piece_bitset_all_def bits_def bit_word_of_int_iff bit_mask_iff pieces_fit_def)
qed

lemma is_seed_iff:
  assumes "pieces_fit (int_bits K) (the_info s)"
  shows "nanotorrent_piece_is_seed (int_bits K) s \<longleftrightarrow> {..<unat (num_pieces (the_info s))} \<subseteq> bits (own_have s)"
  using bits_all [OF assms] by (simp add: nanotorrent_piece_is_seed_def bits_contains)

lemma is_complete_iff:
  "nanotorrent_piece_is_complete i s \<longleftrightarrow> nanotorrent_piece_is_valid i s \<and> unat i \<in> bits (own_have s)"
  by (simp add: nanotorrent_piece_is_complete_def bits_get)

lemma set_complete_have:
  assumes "pieces_fit w (the_info s)"
  shows "bits (own_have (nanotorrent_piece_set_complete w i b s)) =
    (if \<not> nanotorrent_piece_is_valid i s then bits (own_have s)
     else if b then insert (unat i) (bits (own_have s)) else bits (own_have s) - {unat i})"
  using pieces_fit_shift [OF assms, of "unat i"]
  by (simp add: nanotorrent_piece_set_complete_def valid_iff bits_set bits_clear)

lemma set_complete_frame:
  "\<exists>h. nanotorrent_piece_set_complete w i b s = s\<lparr>own_have := h\<rparr>"
  by (cases "nanotorrent_piece_is_valid i s"; cases b)
    (auto simp: nanotorrent_piece_set_complete_def intro: exI [of _ "own_have s"])

lemma valid_frame [simp]:
  "nanotorrent_piece_is_valid i (s\<lparr>files := f\<rparr>) = nanotorrent_piece_is_valid i s"
  "nanotorrent_piece_is_valid i (s\<lparr>own_have := h\<rparr>) = nanotorrent_piece_is_valid i s"
  by (simp_all add: nanotorrent_piece_is_valid_def)

text \<open>Verifying all the pieces: exactly the pieces that match are in the result, when no read fails.\<close>

lemma verify_loop_outcome:
  assumes "cfs_ok K" "torrent_wf (the_info s)" "pieces_fit (int_bits K) (the_info s)"
    "length (next_block c) = 64" "i + k = unat (num_pieces (the_info s))"
  shows "\<exists>h f. verify_loop K i k c r s = Some (h, s\<lparr>files := f\<rparr>) \<and>
    cfs_content K f = cfs_content K (files s) \<and> bits r \<subseteq> bits h \<and>
    bits h - bits r \<subseteq> {j. i \<le> j \<and> j < i + k \<and> piece_matches (the_info s) j (own_content K s)} \<and>
    (cfs_reliable K \<longrightarrow> {j. i \<le> j \<and> j < i + k \<and> piece_matches (the_info s) j (own_content K s)} \<subseteq> bits h)"
  using assms(2-5)
proof (induction k arbitrary: i c r s)
  case 0
  then show ?case
    by (intro exI [of _ r] exI [of _ "files s"]) auto
next
  case (Suc k)
  have ui: "unat (of_nat i :: u8) = i"
    using Suc.prems(4) unat_u8_less [of "num_pieces (the_info s)"] by (simp add: unat_of_nat)
  obtain b c1 f1 where v: "nanotorrent_piece_verify K c (of_nat i) s = Some (b, c1, s\<lparr>files := f1\<rparr>)"
    "cfs_content K f1 = cfs_content K (files s)" "length (next_block c1) = 64"
    "b \<longrightarrow> piece_matches (the_info s) i (own_content K s)"
    "cfs_reliable K \<longrightarrow> piece_matches (the_info s) i (own_content K s) \<longrightarrow> b"
    using piece_verify_outcome [OF assms(1) Suc.prems(1,3), of "of_nat i"] ui Suc.prems(4)
    by (auto simp: valid_iff)
  let ?r = "if b then nanotorrent_bitset_set (int_bits K) r i else r" and ?s = "s\<lparr>files := f1\<rparr>"
  have br: "bits ?r = (if b then insert i (bits r) else bits r)"
    using pieces_fit_shift [OF Suc.prems(2), of i] Suc.prems(4) by (simp add: bits_set)
  have cont: "own_content K ?s = own_content K s"
    by (simp add: own_content_def v(2))
  obtain h f where ih: "verify_loop K (Suc i) k c1 ?r ?s = Some (h, ?s\<lparr>files := f\<rparr>)"
    "cfs_content K f = cfs_content K f1" "bits ?r \<subseteq> bits h"
    "bits h - bits ?r \<subseteq> {j. Suc i \<le> j \<and> j < Suc i + k \<and> piece_matches (the_info s) j (own_content K s)}"
    "cfs_reliable K \<longrightarrow> {j. Suc i \<le> j \<and> j < Suc i + k \<and> piece_matches (the_info s) j (own_content K s)} \<subseteq> bits h"
    using Suc.IH [of ?s c1 "Suc i" ?r] Suc.prems v(3) cont by auto
  have "verify_loop K i (Suc k) c r s = Some (h, s\<lparr>files := f\<rparr>)"
    using v(1) ih(1) by simp
  moreover have "bits r \<subseteq> bits h"
    using ih(3) br by (auto split: if_splits)
  moreover have "bits h - bits r \<subseteq> {j. i \<le> j \<and> j < i + Suc k \<and> piece_matches (the_info s) j (own_content K s)}"
    using ih(4) br v(4) by (fastforce split: if_splits)
  moreover have "{j. i \<le> j \<and> j < i + Suc k \<and> piece_matches (the_info s) j (own_content K s)} \<subseteq> bits h"
    if rel: "cfs_reliable K"
  proof
    fix j assume j: "j \<in> {j. i \<le> j \<and> j < i + Suc k \<and> piece_matches (the_info s) j (own_content K s)}"
    show "j \<in> bits h"
    proof (cases "j = i")
      case True
      with j rel v(5) have b by auto
      with ih(3) br True show ?thesis by auto
    next
      case False
      with j rel ih(5) show ?thesis by auto
    qed
  qed
  moreover have "cfs_content K f = cfs_content K (files s)"
    using ih(2) v(2) by simp
  ultimately show ?case
    by (intro exI [of _ h] exI [of _ f]) simp
qed

lemma verify_all_outcome:
  assumes "cfs_ok K" "torrent_wf (the_info s)" "pieces_fit (int_bits K) (the_info s)" "length (next_block c) = 64"
  shows "\<exists>h f. nanotorrent_piece_verify_all K c s = Some (h, s\<lparr>files := f\<rparr>) \<and>
    cfs_content K f = cfs_content K (files s) \<and>
    bits h \<subseteq> {j. j < unat (num_pieces (the_info s)) \<and> piece_matches (the_info s) j (own_content K s)} \<and>
    (cfs_reliable K \<longrightarrow> {j. j < unat (num_pieces (the_info s)) \<and> piece_matches (the_info s) j (own_content K s)} \<subseteq> bits h)"
  using verify_loop_outcome [OF assms, of 0 "unat (num_pieces (the_info s))" 0]
  by (simp add: nanotorrent_piece_verify_all_def)

section \<open>Writing to a piece\<close>

lemma cfs_write_cases:
  assumes "cfs_ok K" "cfs_write K fd bs f = (r, f')"
  shows "length (cfs_content K f fd) \<le> length (cfs_content K f' fd)" "r \<le> int (length bs)"
    "\<And>j. j < length (cfs_content K f fd) \<Longrightarrow> j < cfs_pos K f fd \<or> cfs_pos K f fd + nat r \<le> j \<Longrightarrow>
      cfs_content K f' fd ! j = cfs_content K f fd ! j"
    "\<And>k. k < nat r \<Longrightarrow> cfs_pos K f fd + k < length (cfs_content K f' fd) \<and>
      cfs_content K f' fd ! (cfs_pos K f fd + k) = bs ! k"
  using assms unfolding cfs_ok_def cfs_write_ok_def by blast+

text \<open>What a write to piece \<open>i\<close> does: it may only change bytes of the piece, and it never loses bytes.\<close>

definition writes_piece :: "nanotorrent_torrent_info \<Rightarrow> nat \<Rightarrow> u8 list \<Rightarrow> u8 list \<Rightarrow> bool" where
  "writes_piece ti i old new \<longleftrightarrow> length old \<le> length new \<and>
     (\<forall>j < length old. j < piece_off ti i \<or> piece_off ti i + piece_len ti i \<le> j \<longrightarrow> new ! j = old ! j)"

lemma writes_piece_refl: "writes_piece ti i c c"
  by (simp add: writes_piece_def)

lemma piece_write_outcome:
  assumes "cfs_ok K" "torrent_wf (the_info s)"
    and "min (unat n) (piece_len (the_info s) (unat i)) \<le> length buffer"
  shows "\<exists>r f. nanotorrent_piece_write K i off buffer n s = Some (r, s\<lparr>files := f\<rparr>) \<and>
    writes_piece (the_info s) (unat i) (own_content K s) (cfs_content K f (own_file s)) \<and>
    (\<forall>j < length (own_content K s). j < piece_off (the_info s) (unat i) + unat off \<or> piece_off (the_info s) (unat i) + unat off + nat r \<le> j \<longrightarrow>
       cfs_content K f (own_file s) ! j = own_content K s ! j) \<and>
    (0 \<le> r \<longrightarrow> nanotorrent_piece_is_valid i s \<and> unat off + nat r \<le> piece_len (the_info s) (unat i) \<and>
       nat r \<le> unat n \<and>
       (\<forall>k < nat r. cfs_content K f (own_file s) ! (piece_off (the_info s) (unat i) + unat off + k) = buffer ! k) \<and>
       (0 < r \<longrightarrow> piece_off (the_info s) (unat i) + unat off + nat r \<le> length (cfs_content K f (own_file s))))"
proof (cases "nanotorrent_piece_is_valid i s \<and> unat off < piece_len (the_info s) (unat i)")
  case False
  then have "nanotorrent_piece_write K i off buffer n s = Some (- 1, s\<lparr>files := files s\<rparr>)"
    using unat_piece_size [OF assms(2)] by (auto simp: nanotorrent_piece_write_def Let_def word_le_nat_alt)
  then show ?thesis
    by (intro exI [of _ "- 1"] exI [of _ "files s"]) (simp add: writes_piece_refl own_content_def)
next
  case True
  then have valid: "nanotorrent_piece_is_valid i s" and off: "unat off < piece_len (the_info s) (unat i)"
    by simp_all
  let ?len = "piece_len (the_info s) (unat i)" and ?po = "piece_off (the_info s) (unat i)"
  note sz = unat_piece_size [OF assms(2) valid] and po = unat_piece_offset [OF assms(2) valid]
  have le: "?po + ?len < 65536"
    using piece_in_file [OF assms(2), of "unat i"] valid unat_u16_less [of "file_size (the_info s)"]
    by (simp add: valid_iff)
  have o: "unat (nanotorrent_piece_offset i s + ucast off) = ?po + unat off"
    using le off po by (simp add: unat_add_fits)
  have d: "unat (nanotorrent_piece_size i s - ucast off) = ?len - unat off"
    using off sz by (simp add: unat_sub_fits)
  have ge: "\<not> ucast off \<ge> nanotorrent_piece_size i s"
    using off sz by (simp add: word_le_nat_alt)
  define k where "k = unat (min n (nanotorrent_piece_size i s - ucast off))"
  have k: "k = min (unat n) (?len - unat off)"
    by (simp add: k_def min_def word_le_nat_alt d)
  obtain r f1 where seek: "cfs_seek K (own_file s) (uint (nanotorrent_piece_offset i s + ucast off)) CFS_SEEK_SET (files s) = (r, f1)"
    by (cases "cfs_seek K (own_file s) (uint (nanotorrent_piece_offset i s + ucast off)) CFS_SEEK_SET (files s)")
  note sk = cfs_seek_set [OF assms(1) seek]
  show ?thesis
  proof (cases "r < 0")
    case True
    then show ?thesis
      using valid ge seek sk(1)
      by (intro exI [of _ "- 1"] exI [of _ f1])
        (simp add: nanotorrent_piece_write_def Let_def writes_piece_refl own_content_def)
  next
    case False
    have pos: "cfs_pos K f1 (own_file s) = ?po + unat off"
      using sk(2) False o by simp
    obtain r2 f2 where wr: "cfs_write K (own_file s) (take k buffer) f1 = (r2, f2)"
      by (cases "cfs_write K (own_file s) (take k buffer) f1")
    note w = cfs_write_cases [OF assms(1) wr]
    have kb: "k \<le> length buffer"
      using assms(3) k by simp
    have r2: "nat r2 \<le> k"
      using w(2) kb by simp
    have "nanotorrent_piece_write K i off buffer n s = Some (if r2 < 0 then - 1 else r2, s\<lparr>files := f2\<rparr>)"
      using valid ge seek False kb wr
      by (simp add: nanotorrent_piece_write_def Let_def flip: k_def)
    moreover have "writes_piece (the_info s) (unat i) (own_content K s) (cfs_content K f2 (own_file s))"
      using w(1,3) r2 k off pos sk(1) by (auto simp: writes_piece_def own_content_def)
    moreover have "\<forall>j < nat r2. cfs_content K f2 (own_file s) ! (?po + unat off + j) = buffer ! j"
      using w(4) r2 pos by simp
    moreover have "\<forall>j < length (own_content K s). j < ?po + unat off \<or> ?po + unat off + nat r2 \<le> j \<longrightarrow>
        cfs_content K f2 (own_file s) ! j = own_content K s ! j"
      using w(3) pos sk(1) by (simp add: own_content_def)
    moreover have "?po + unat off + nat r2 \<le> length (cfs_content K f2 (own_file s))" if "0 < r2"
      using w(4) [of "nat r2 - 1"] that pos by auto
    ultimately show ?thesis
      using valid r2 k off
      by (intro exI [of _ "if r2 < 0 then - 1 else r2"] exI [of _ f2]) auto
  qed
qed

text \<open>
  The invariant of the store: every piece marked complete has been found, at some time, to have the hash
  of the descriptor, and its bytes have not changed since. The verified bytes may be fewer than the
  piece's size when the file ended there.
\<close>

definition piece_verified :: "nanotorrent_torrent_info \<Rightarrow> nat \<Rightarrow> u8 list \<Rightarrow> bool" where
  "piece_verified ti i content \<longleftrightarrow> (\<exists>n \<le> piece_len ti i. (n = 0 \<or> piece_off ti i + n \<le> length content) \<and>
     sha1_spec (take n (drop (piece_off ti i) content)) = piece_hashes ti ! i)"

definition have_ok :: "('f, 'm, 't) contiki \<Rightarrow> ('f, 'a) piece_state_scheme \<Rightarrow> bool" where
  "have_ok K s \<longleftrightarrow> bits (own_have s) \<subseteq> {..<unat (num_pieces (the_info s))} \<and>
     (\<forall>i \<in> bits (own_have s). piece_verified (the_info s) i (own_content K s))"

lemma matches_verified: "piece_matches ti i c \<Longrightarrow> piece_verified ti i c"
  unfolding piece_verified_def piece_matches_def piece_bytes_def
  by (rule exI [of _ "min (piece_len ti i) (length c - piece_off ti i)"]) (auto simp: min_def split: if_splits)

lemma piece_disjoint:
  assumes "i \<noteq> k"
  shows "piece_off ti i + piece_len ti i \<le> piece_off ti k \<or> piece_off ti k + piece_len ti k \<le> piece_off ti i"
proof -
  have "piece_off ti a + piece_len ti a \<le> piece_off ti b" if "a < b" for a b
  proof -
    have "Suc a * unat (piece_size ti) \<le> b * unat (piece_size ti)"
      using that by (intro mult_le_mono1) simp
    then show ?thesis
      by (simp add: piece_off_def piece_len_def)
  qed
  with assms show ?thesis
    by (meson nat_neq_iff)
qed

lemma verified_after_write:
  assumes "piece_verified ti i old" "writes_piece ti k old new" "i \<noteq> k"
  shows "piece_verified ti i new"
proof -
  obtain n where n: "n \<le> piece_len ti i" "n = 0 \<or> piece_off ti i + n \<le> length old"
    "sha1_spec (take n (drop (piece_off ti i) old)) = piece_hashes ti ! i"
    using assms(1) by (auto simp: piece_verified_def)
  have "take n (drop (piece_off ti i) new) = take n (drop (piece_off ti i) old)"
  proof (cases "n = 0")
    case False
    with n have l: "piece_off ti i + n \<le> length old" by simp
    moreover have "length old \<le> length new"
      using assms(2) by (simp add: writes_piece_def)
    moreover have "new ! (piece_off ti i + j) = old ! (piece_off ti i + j)" if "j < n" for j
      using assms(2) piece_disjoint [OF assms(3), of ti] n(1) l that unfolding writes_piece_def by auto
    ultimately show ?thesis
      by (intro nth_equalityI) simp_all
  qed simp
  moreover have "length old \<le> length new"
    using assms(2) by (simp add: writes_piece_def)
  ultimately show ?thesis
    using n unfolding piece_verified_def by (intro exI [of _ n]) auto
qed

section \<open>Reading from a piece\<close>

lemma piece_read_outcome:
  assumes "cfs_ok K" "torrent_wf (the_info s)"
  shows "\<exists>r bs f. nanotorrent_piece_read K i off n s = (r, bs, s\<lparr>files := f\<rparr>) \<and>
    cfs_content K f = cfs_content K (files s) \<and>
    (0 \<le> r \<longrightarrow> nanotorrent_piece_is_valid i s \<and> r = int (length bs) \<and> length bs \<le> unat n \<and>
       unat off < piece_len (the_info s) (unat i) \<and> unat off + length bs \<le> piece_len (the_info s) (unat i) \<and>
       bs = take (length bs) (drop (piece_off (the_info s) (unat i) + unat off) (own_content K s)) \<and>
       (bs = [] \<longrightarrow> n = 0 \<or> length (own_content K s) \<le> piece_off (the_info s) (unat i) + unat off))"
proof (cases "nanotorrent_piece_is_valid i s \<and> unat off < piece_len (the_info s) (unat i)")
  case False
  then have "nanotorrent_piece_read K i off n s = (- 1, [], s\<lparr>files := files s\<rparr>)"
    using unat_piece_size [OF assms(2)] by (auto simp: nanotorrent_piece_read_def Let_def word_le_nat_alt)
  then show ?thesis
    by (intro exI [of _ "- 1"] exI [of _ "[]"] exI [of _ "files s"]) simp
next
  case True
  then have valid: "nanotorrent_piece_is_valid i s" and off: "unat off < piece_len (the_info s) (unat i)"
    by simp_all
  let ?len = "piece_len (the_info s) (unat i)" and ?po = "piece_off (the_info s) (unat i)"
  note sz = unat_piece_size [OF assms(2) valid] and po = unat_piece_offset [OF assms(2) valid]
  have le: "?po + ?len < 65536"
    using piece_in_file [OF assms(2), of "unat i"] valid unat_u16_less [of "file_size (the_info s)"]
    by (simp add: valid_iff)
  have o: "unat (nanotorrent_piece_offset i s + ucast off) = ?po + unat off"
    using le off po by (simp add: unat_add_fits)
  have d: "unat (nanotorrent_piece_size i s - ucast off) = ?len - unat off"
    using off sz by (simp add: unat_sub_fits)
  have ge: "\<not> ucast off \<ge> nanotorrent_piece_size i s"
    using off sz by (simp add: word_le_nat_alt)
  define k where "k = unat (min n (nanotorrent_piece_size i s - ucast off))"
  have k: "k = min (unat n) (?len - unat off)"
    by (simp add: k_def min_def word_le_nat_alt d)
  obtain r f1 where seek: "cfs_seek K (own_file s) (uint (nanotorrent_piece_offset i s + ucast off)) CFS_SEEK_SET (files s) = (r, f1)"
    by (cases "cfs_seek K (own_file s) (uint (nanotorrent_piece_offset i s + ucast off)) CFS_SEEK_SET (files s)")
  note sk = cfs_seek_set [OF assms(1) seek]
  show ?thesis
  proof (cases "r < 0")
    case True
    then show ?thesis
      using valid ge seek sk(1)
      by (intro exI [of _ "- 1"] exI [of _ "[]"] exI [of _ f1]) (simp add: nanotorrent_piece_read_def Let_def)
  next
    case False
    have pos: "cfs_pos K f1 (own_file s) = ?po + unat off"
      using sk(2) False o by simp
    obtain r2 bs f2 where rd: "cfs_read K (own_file s) k f1 = (r2, bs, f2)"
      by (cases "cfs_read K (own_file s) k f1") auto
    note c = cfs_read_cases [OF assms(1) rd]
    have eq: "nanotorrent_piece_read K i off n s = (if r2 < 0 then (- 1, [], s\<lparr>files := f2\<rparr>) else (r2, bs, s\<lparr>files := f2\<rparr>))"
      using valid ge seek False rd by (simp add: nanotorrent_piece_read_def Let_def flip: k_def)
    show ?thesis
    proof (cases "r2 < 0")
      case True
      then show ?thesis
        using eq c(1) sk(1) by (intro exI [of _ "- 1"] exI [of _ "[]"] exI [of _ f2]) simp
    next
      case r2: False
      then have r: "r2 = int (length bs)" "length bs \<le> k"
        "bs = take (length bs) (drop (?po + unat off) (own_content K s))"
        "bs = [] \<longrightarrow> k = 0 \<or> length (own_content K s) \<le> ?po + unat off"
        using c(2) pos sk(1) by (auto simp: own_content_def)
      have "k = 0 \<Longrightarrow> n = 0"
        using k off by (auto simp: min_def unat_eq_0 split: if_splits)
      then show ?thesis
        using eq c(1) sk(1) r2 valid r k off
        by (intro exI [of _ r2] exI [of _ bs] exI [of _ f2]) auto
    qed
  qed
qed

section \<open>Properties of the piece store\<close>

text \<open>A file of 700 bytes in three pieces of 256, for the witnesses.\<close>

definition demo_info :: nanotorrent_torrent_info where
  "demo_info = \<lparr>file_size = 700, piece_size = 256, num_pieces = 3, piece_hashes = replicate 32 (replicate 20 0x11)\<rparr>"

definition demo_piece_state :: "sim_file piece_state" where
  "demo_piece_state = \<lparr>now = 0, outputs = [], info_hash = replicate 20 1, file_name = ''f'',
     desc = \<lparr>tracker_ip = replicate 16 0, tracker_port = 1, desc_info = demo_info\<rparr>,
     own_file = 0, own_have = 0, files = (replicate 700 7, 0)\<rparr>"

lemma demo_info_wf: "torrent_wf demo_info"
  by (simp add: torrent_wf_def demo_info_def info_ok_def hash_array_def NANOTORRENT_MAX_PIECES_def)

lemma demo_the_info [simp]: "the_info demo_piece_state = demo_info"
  by (simp add: demo_piece_state_def)

lemma demo_fit: "pieces_fit 32 demo_info" "pieces_fit (int_bits sim_contiki) demo_info"
  by (simp_all add: pieces_fit_def demo_info_def sim_contiki_def)

text \<open>
  C23: the pieces tile the file. For a well-formed descriptor the 16-bit products and sums of the piece
  arithmetic do not wrap: every piece lies inside the file, each one starts where the one before ends,
  and the sizes of all the pieces add up to the size of the file.
\<close>

theorem pieces_tile_the_file:
  assumes "torrent_wf (the_info s)"
  shows "(\<forall>i. nanotorrent_piece_is_valid i s \<longrightarrow>
      unat (nanotorrent_piece_offset i s) + unat (nanotorrent_piece_size i s) \<le> unat (file_size (the_info s)) \<and>
      (nanotorrent_piece_is_valid (i + 1) s \<longrightarrow> i < 255 \<longrightarrow>
         unat (nanotorrent_piece_offset (i + 1) s) =
           unat (nanotorrent_piece_offset i s) + unat (nanotorrent_piece_size i s))) \<and>
    (\<Sum>i<unat (num_pieces (the_info s)). unat (nanotorrent_piece_size (of_nat i) s)) = unat (file_size (the_info s))"
proof (intro conjI allI impI)
  let ?n = "unat (num_pieces (the_info s))"
  fix i
  assume v: "nanotorrent_piece_is_valid i s"
  show "unat (nanotorrent_piece_offset i s) + unat (nanotorrent_piece_size i s) \<le> unat (file_size (the_info s))"
    using piece_in_file [OF assms] v by (simp add: unat_piece_offset [OF assms v] unat_piece_size [OF assms v] valid_iff)
  assume w: "nanotorrent_piece_is_valid (i + 1) s" and "i < 255"
  then have "unat (i + 1) = Suc (unat i)"
    by (simp add: unat_add_fits word_less_nat_alt)
  then show "unat (nanotorrent_piece_offset (i + 1) s) = unat (nanotorrent_piece_offset i s) + unat (nanotorrent_piece_size i s)"
    using next_piece_off [OF assms, of "unat i"] w
    by (simp add: unat_piece_offset [OF assms] unat_piece_size [OF assms] v valid_iff)
next
  let ?n = "unat (num_pieces (the_info s))"
  have n: "Suc (?n - 1) = ?n"
    using assms by (simp add: torrent_wf_def)
  have "unat (nanotorrent_piece_size (of_nat i) s) = piece_len (the_info s) i" if "i < ?n" for i
  proof -
    have "unat (of_nat i :: u8) = i"
      using that unat_u8_less [of "num_pieces (the_info s)"] by (simp add: unat_of_nat)
    then show ?thesis
      using that unat_piece_size [OF assms, of "of_nat i"] by (simp add: valid_iff)
  qed
  then have "(\<Sum>i<?n. unat (nanotorrent_piece_size (of_nat i) s)) = (\<Sum>i<?n. piece_len (the_info s) i)"
    by simp
  also have "\<dots> = unat (file_size (the_info s))"
    using pieces_cover [OF assms, of "?n - 1"] last_piece_end [OF assms n] n by simp
  finally show "(\<Sum>i<?n. unat (nanotorrent_piece_size (of_nat i) s)) = unat (file_size (the_info s))" .
qed

theorem pieces_tile_the_file_witness:
  "(\<Sum>i<unat (num_pieces (the_info demo_piece_state)). unat (nanotorrent_piece_size (of_nat i) demo_piece_state)) = 700"
  using pieces_tile_the_file [of demo_piece_state] demo_info_wf by (simp add: demo_info_def)



text \<open>
  C9: \<^verbatim>\<open>nanotorrent_piece_write\<close> is confined. Given a buffer that holds the bytes it announces, it returns,
  it changes no byte of the file outside the piece it is asked to write (whatever index and offset a
  message names), it returns at most the announced length, and so, when the piece is not marked
  complete, every piece marked complete stays verified.
\<close>

theorem piece_write_confined:
  assumes "cfs_ok K" "torrent_wf (the_info s)" "unat n \<le> length buffer"
  shows "\<exists>r s'. nanotorrent_piece_write K i off buffer n s = Some (r, s') \<and> own_have s' = own_have s \<and>
    nat r \<le> unat n \<and> length (own_content K s) \<le> length (own_content K s') \<and>
    (\<forall>j < length (own_content K s). own_content K s' ! j \<noteq> own_content K s ! j \<longrightarrow>
       nanotorrent_piece_is_valid i s \<and> unat (nanotorrent_piece_offset i s) \<le> j \<and>
       j < unat (nanotorrent_piece_offset i s) + unat (nanotorrent_piece_size i s)) \<and>
    (have_ok K s \<longrightarrow> \<not> nanotorrent_piece_is_complete i s \<longrightarrow> have_ok K s')"
proof (cases "nanotorrent_piece_is_valid i s")
  case False
  then show ?thesis
    by (intro exI [of _ "- 1"] exI [of _ s]) (simp add: nanotorrent_piece_write_def)
next
  case valid: True
  have "min (unat n) (piece_len (the_info s) (unat i)) \<le> length buffer"
    using assms(3) by simp
  then obtain r f where w: "nanotorrent_piece_write K i off buffer n s = Some (r, s\<lparr>files := f\<rparr>)"
    "writes_piece (the_info s) (unat i) (own_content K s) (cfs_content K f (own_file s))"
    "0 \<le> r \<longrightarrow> nat r \<le> unat n"
    using piece_write_outcome [OF assms(1,2)] by blast
  let ?s = "s\<lparr>files := f\<rparr>"
  have c: "own_content K ?s = cfs_content K f (own_file s)"
    by (simp add: own_content_def)
  have "have_ok K ?s" if "have_ok K s" "\<not> nanotorrent_piece_is_complete i s"
    using that verified_after_write [OF _ w(2)] valid by (auto simp: have_ok_def is_complete_iff c)
  then show ?thesis
    using w valid unfolding writes_piece_def
    by (intro exI [of _ r] exI [of _ ?s])
      (auto simp: c unat_piece_offset [OF assms(2) valid] unat_piece_size [OF assms(2) valid])
qed

theorem piece_write_confined_witness:
  "\<exists>r s'. nanotorrent_piece_write sim_contiki 2 10 [1, 2, 3] 3 demo_piece_state = Some (r, s') \<and> nat r \<le> 3"
  using piece_write_confined [of sim_contiki demo_piece_state 3 "[1, 2, 3]" 2 10] sim_ok demo_info_wf by auto

text \<open>
  \<^verbatim>\<open>nanotorrent_piece_is_seed\<close> says that every piece is complete, where the shift \<open>1 << num_pieces\<close> fits
  the target's \<^verbatim>\<open>int\<close> (at most 14 pieces with 16 bits, 30 with 32 bits).
\<close>

theorem is_seed_all_complete:
  assumes "pieces_fit (int_bits K) (the_info s)"
  shows "nanotorrent_piece_is_seed (int_bits K) s \<longleftrightarrow>
    (\<forall>i. nanotorrent_piece_is_valid i s \<longrightarrow> nanotorrent_piece_is_complete i s)"
proof -
  have "(\<exists>i. unat (i :: u8) = j \<and> nanotorrent_piece_is_valid i s)" if "j < unat (num_pieces (the_info s))" for j
    using that unat_u8_less [of "num_pieces (the_info s)"]
    by (intro exI [of _ "of_nat j"]) (simp add: valid_iff unat_of_nat)
  then show ?thesis
    unfolding is_seed_iff [OF assms] is_complete_iff by (force simp: valid_iff)
qed

theorem is_seed_all_complete_witness:
  "nanotorrent_piece_is_seed (int_bits sim_contiki) (demo_piece_state\<lparr>own_have := 7\<rparr>) \<longleftrightarrow>
    (\<forall>i. nanotorrent_piece_is_valid i (demo_piece_state\<lparr>own_have := 7\<rparr>) \<longrightarrow>
      nanotorrent_piece_is_complete i (demo_piece_state\<lparr>own_have := 7\<rparr>))"
  by (rule is_seed_all_complete) (use demo_fit in \<open>simp add: demo_piece_state_def\<close>)

text \<open>
  \<^verbatim>\<open>nanotorrent_piece_read\<close> gives the bytes of the piece. It never reads past the end of the piece or of
  the caller's buffer, the bytes are those of the file at the piece's offset plus the requested one, and
  it gives none only at the end of the file.
\<close>

theorem piece_read_exact:
  assumes "cfs_ok K" "torrent_wf (the_info s)" "nanotorrent_piece_read K i off n s = (r, bs, s')" "0 \<le> r" "0 < n"
  shows "nanotorrent_piece_is_valid i s \<and> own_content K s' = own_content K s \<and> r = int (length bs) \<and>
    length bs \<le> unat n \<and> unat off + length bs \<le> unat (nanotorrent_piece_size i s) \<and>
    bs = take (length bs) (drop (unat (nanotorrent_piece_offset i s) + unat off) (own_content K s)) \<and>
    (bs \<noteq> [] \<or> length (own_content K s) \<le> unat (nanotorrent_piece_offset i s) + unat off)"
proof -
  obtain r' bs' f where o: "nanotorrent_piece_read K i off n s = (r', bs', s\<lparr>files := f\<rparr>)"
    "cfs_content K f = cfs_content K (files s)"
    "0 \<le> r' \<longrightarrow> nanotorrent_piece_is_valid i s \<and> r' = int (length bs') \<and> length bs' \<le> unat n \<and>
       unat off < piece_len (the_info s) (unat i) \<and> unat off + length bs' \<le> piece_len (the_info s) (unat i) \<and>
       bs' = take (length bs') (drop (piece_off (the_info s) (unat i) + unat off) (own_content K s)) \<and>
       (bs' = [] \<longrightarrow> n = 0 \<or> length (own_content K s) \<le> piece_off (the_info s) (unat i) + unat off)"
    using piece_read_outcome [OF assms(1,2)] by blast
  have eq: "r' = r" "bs' = bs" "s' = s\<lparr>files := f\<rparr>"
    using o(1) assms(3) by simp_all
  have valid: "nanotorrent_piece_is_valid i s"
    using o(3) eq assms(4) by blast
  have "n \<noteq> 0"
    using assms(5) by auto
  then show ?thesis
    using o(2,3) eq assms(4) valid
    by (simp add: own_content_def unat_piece_offset [OF assms(2) valid] unat_piece_size [OF assms(2) valid])
qed

theorem piece_read_exact_witness:
  "case nanotorrent_piece_read sim_contiki 2 188 9 demo_piece_state of (r, bs, s') \<Rightarrow>
    0 \<le> r \<longrightarrow> unat (188 :: u8) + length bs \<le> unat (nanotorrent_piece_size 2 demo_piece_state)"
proof (cases "nanotorrent_piece_read sim_contiki 2 188 9 demo_piece_state")
  case (fields r bs s')
  then show ?thesis
    using piece_read_exact [of sim_contiki demo_piece_state 2 188 9 r bs s'] sim_ok demo_info_wf by simp
qed

end
