(* ===== verification/Torrent.thy ===== *)
theory Torrent
  imports Piece
begin

text \<open>
  \<^verbatim>\<open>peer/torrent.c\<close>: the info hash that names a torrent, and the creation of a descriptor from a
  file (the work of nanogen).
\<close>

section \<open>The operations\<close>

text \<open>\<open>data\<close> is the local array of \<^verbatim>\<open>sizeof(*info)\<close> bytes, \<open>context\<close> the local hash context.\<close>

definition nanotorrent_torrent_info_hash ::
  "sha1_context \<Rightarrow> u8 list \<Rightarrow> nanotorrent_torrent_info \<Rightarrow> (bool \<times> sha1_digest_t) option" where
  "nanotorrent_torrent_info_hash context data ti = do {
     (data, len) \<leftarrow> nanotorrent_pack_torrent_info ti (data, 0);
     Some (sha1_compute context (take len data)) }"

text \<open>After the loop: the last piece read has to be empty.\<close>

definition create_end :: "nat \<Rightarrow> int \<Rightarrow> nanotorrent_torrent_info \<Rightarrow> 'f \<Rightarrow> bool \<times> nanotorrent_torrent_info \<times> 'f" where
  "create_end i piece_length ti f =
    (if piece_length \<noteq> 0 then (False, ti, f) else (True, ti\<lparr>num_pieces := of_nat i\<rparr>, f))"

text \<open>The \<^verbatim>\<open>do ... while\<close> loop over the pieces, from index \<open>i\<close> on.\<close>

function create_loop :: "('f, 'm, 't) contiki \<Rightarrow> int \<Rightarrow> u16 \<Rightarrow> sha1_context \<Rightarrow> nat \<Rightarrow> nanotorrent_torrent_info \<Rightarrow> 'f \<Rightarrow>
    (bool \<times> nanotorrent_torrent_info \<times> 'f) option" where
  "create_loop K file psize context i ti f = do {
     (piece_length, context, f) \<leftarrow> nanotorrent_piece_digest K (sha1_reset context) file psize f;
     if piece_length < 0 then Some (False, ti, f)
     else if i = 0 \<or> piece_length > 0 then
       (if i < length (piece_hashes ti) then
          (case sha1_result context of (ok, digest, context) \<Rightarrow>
             if \<not> ok then Some (False, ti, f)
             else
               (let ti = ti\<lparr>piece_hashes := (piece_hashes ti)[i := digest]\<rparr> in
                if Suc i < NANOTORRENT_MAX_PIECES \<and> piece_length \<noteq> 0
                then create_loop K file psize context (Suc i) ti f
                else Some (create_end (Suc i) piece_length ti f)))
        else None)
     else if i < NANOTORRENT_MAX_PIECES \<and> piece_length \<noteq> 0 then None
     else Some (create_end i piece_length ti f) }"
  by pat_completeness auto
termination
  apply (relation "measure (\<lambda>(K, file, psize, context, i, ti, f). NANOTORRENT_MAX_PIECES - i)")
   apply simp
  apply (simp only: in_measure prod.case)
  apply (elim conjE, rule diff_less_mono2, rule lessI, erule Suc_lessD)
  done

declare create_loop.simps [simp del]

definition nanotorrent_torrent_info_create :: "('f, 'm, 't) contiki \<Rightarrow> sha1_context \<Rightarrow> nanotorrent_torrent_info \<Rightarrow>
    int \<Rightarrow> u16 \<Rightarrow> 'f \<Rightarrow> (bool \<times> nanotorrent_torrent_info \<times> 'f) option" where
  "nanotorrent_torrent_info_create K context ti file psize f =
    (let (r, f) = cfs_seek K file 0 CFS_SEEK_END f;
         ti = ti\<lparr>file_size := of_int r\<rparr>;
         (r, f) = cfs_seek K file 0 CFS_SEEK_SET f;
         ti = ti\<lparr>piece_size := psize\<rparr>
     in create_loop K file psize context 0 ti f)"

section \<open>The info hash\<close>

lemma info_hash_spec:
  assumes "info_ok ti" "645 \<le> length data" "length (next_block c) = 64"
  shows "nanotorrent_torrent_info_hash c data ti = Some (True, sha1_spec (enc_info ti))"
proof -
  have "length (enc_info ti) \<le> length data"
    using assms(1,2) length_enc_info [OF assms(1)] by (simp add: info_ok_def NANOTORRENT_MAX_PIECES_def)
  then show ?thesis
    using info.pack_Some [OF assms(1), of 0 data] sha1_compute_spec [OF assms(3)]
    by (simp add: nanotorrent_torrent_info_hash_def memcpy_at_def)
qed

section \<open>Creating a descriptor\<close>

text \<open>What the loop leaves behind: \<open>n\<close> pieces that cover a file of \<open>content\<close>, each with its hash.\<close>

definition created :: "nat \<Rightarrow> u8 list \<Rightarrow> nanotorrent_torrent_info \<Rightarrow> nanotorrent_torrent_info \<Rightarrow> bool" where
  "created ps content ti ti' \<longleftrightarrow>
     file_size ti' = file_size ti \<and> piece_size ti' = piece_size ti \<and> hash_array (piece_hashes ti') \<and>
     (\<exists>n. num_pieces ti' = of_nat n \<and> 1 \<le> n \<and> n < NANOTORRENT_MAX_PIECES \<and> length content \<le> n * ps \<and>
       (1 < n \<longrightarrow> (n - 1) * ps < length content) \<and>
       (\<forall>j < n. piece_hashes ti' ! j = sha1_spec (take ps (drop (j * ps) content))))"

lemma hash_array_update: "hash_array hs \<Longrightarrow> length d = 20 \<Longrightarrow> hash_array (hs[i := d])"
  by (auto simp: hash_array_def dest: subsetD [OF set_update_subset_insert])

lemma create_loop_outcome:
  assumes "cfs_ok K" "cfs_reliable K" "0 < psize"
    and "length (next_block c) = 64" "i < NANOTORRENT_MAX_PIECES" "hash_array (piece_hashes ti)"
    and "cfs_content K f file = content" "cfs_pos K f file = min (i * unat psize) (length content)"
    and "i = 0 \<or> (i - 1) * unat psize < length content"
    and "\<forall>j < i. piece_hashes ti ! j = sha1_spec (take (unat psize) (drop (j * unat psize) content))"
  shows "\<exists>ok ti' f'. create_loop K file psize c i ti f = Some (ok, ti', f') \<and>
    (ok \<longleftrightarrow> length content \<le> 31 * unat psize) \<and> (ok \<longrightarrow> created (unat psize) content ti ti')"
  using assms(4-10)
proof (induction "NANOTORRENT_MAX_PIECES - i" arbitrary: c i ti f rule: less_induct)
  case less
  let ?ps = "unat psize" and ?L = "length content"
  define bs where "bs = take ?ps (drop (i * ?ps) content)"
  have ps: "0 < ?ps"
    using assms(3) by (simp add: word_less_nat_alt)
  obtain r c1 f1 where d: "nanotorrent_piece_digest K (sha1_reset c) file psize f = Some (r, c1, f1)"
    and out: "digest_outcome K file [] ?ps 0 f (r, c1, f1)"
    using digest_outcome_total [OF assms(1) less.prems(1), of "file" psize f] by auto
  have "take ?ps (drop (min (i * ?ps) ?L) content) = bs"
    by (simp add: bs_def min_def)
  then have o: "0 \<le> r" "r = int (length bs)" "avr_repr c1 bs" "cfs_content K f1 = cfs_content K f"
    "cfs_pos K f1 file = min (i * ?ps) ?L + length bs"
    using out assms(2) less.prems(4,5) by (auto simp: digest_outcome_def Let_def not_less)
  obtain digest c2 where res: "sha1_result c1 = (True, digest, c2)"
    using avr.result_ok [OF o(3)] by (cases "sha1_result c1") auto
  have dig: "digest = sha1_spec bs"
    using avr.result_spec [OF o(3)] res by simp
  have c2: "length (next_block c2) = 64"
    using res avr_repr_block [OF o(3)] by (auto simp: sha1_result_def Let_def)
  have l32: "length (piece_hashes ti) = 32"
    using less.prems(3) by (simp add: hash_array_def NANOTORRENT_MAX_PIECES_def)
  have i32: "i < 32"
    using less.prems(2) by (simp add: NANOTORRENT_MAX_PIECES_def)
  define ti1 where "ti1 = ti\<lparr>piece_hashes := (piece_hashes ti)[i := digest]\<rparr>"
  have ha: "hash_array (piece_hashes ti1)"
    using less.prems(3) by (simp add: ti1_def dig hash_array_update)
  have hashes: "\<forall>j < Suc i. piece_hashes ti1 ! j = sha1_spec (take ?ps (drop (j * ?ps) content))"
    using less.prems(7) l32 i32 by (auto simp: ti1_def dig bs_def less_Suc_eq)
  have lbs: "length bs = min ?ps (?L - i * ?ps)"
    by (simp add: bs_def min.commute)
  consider (first) "i = 0" "bs = []" | (finished) "i \<noteq> 0" "bs = []" | (more) "bs \<noteq> []" "Suc i < 32" | (full) "bs \<noteq> []" "i = 31"
    using i32 by fastforce
  then show ?case
  proof cases
    case first
    then have L: "?L = 0"
      using lbs ps by (auto simp: min_def split: if_splits)
    have "create_loop K file psize c i ti f = Some (True, ti1\<lparr>num_pieces := of_nat (Suc i)\<rparr>, f1)"
      using d o(2) res first l32 i32 by (subst create_loop.simps) (simp add: create_end_def ti1_def)
    moreover have "created ?ps content ti (ti1\<lparr>num_pieces := of_nat (Suc i)\<rparr>)"
      using first L ha hashes unfolding created_def
      by (intro conjI exI [of _ 1]) (simp_all add: ti1_def NANOTORRENT_MAX_PIECES_def)
    ultimately show ?thesis
      using L by auto
  next
    case finished
    then have L: "?L \<le> i * ?ps"
      using lbs ps by (auto simp: min_def split: if_splits)
    have "create_loop K file psize c i ti f = Some (True, ti\<lparr>num_pieces := of_nat i\<rparr>, f1)"
      using d o(2) finished i32 by (subst create_loop.simps) (simp add: create_end_def)
    moreover have "created ?ps content ti (ti\<lparr>num_pieces := of_nat i\<rparr>)"
      using finished L less.prems(2,3,6,7) unfolding created_def by (intro conjI exI [of _ i]) simp_all
    moreover have "i * ?ps \<le> 31 * ?ps"
      using i32 by (intro mult_le_mono1) simp
    with L have "?L \<le> 31 * ?ps" by (rule le_trans)
    ultimately show ?thesis
      by auto
  next
    case more
    have eq: "create_loop K file psize c i ti f = create_loop K file psize c2 (Suc i) ti1 f1"
      using d o(2) res more l32 by (subst create_loop.simps) (simp add: ti1_def NANOTORRENT_MAX_PIECES_def)
    have "0 < length bs"
      using more by simp
    then have L: "i * ?ps < ?L"
      unfolding lbs by (simp add: min_def split: if_splits)
    have pos: "cfs_pos K f1 file = min (Suc i * ?ps) ?L"
      using o(5) lbs L by (auto simp: min_def)
    have lt: "NANOTORRENT_MAX_PIECES - Suc i < NANOTORRENT_MAX_PIECES - i"
      using less.prems(2) by (intro diff_less_mono2) simp_all
    have "\<exists>ok ti' f'. create_loop K file psize c2 (Suc i) ti1 f1 = Some (ok, ti', f') \<and>
        (ok \<longleftrightarrow> ?L \<le> 31 * ?ps) \<and> (ok \<longrightarrow> created ?ps content ti1 ti')"
      by (rule less.hyps [OF lt c2 _ ha _ pos _ hashes])
        (use more L o(4) less.prems(4) in \<open>simp_all add: NANOTORRENT_MAX_PIECES_def\<close>)
    moreover have "created ?ps content ti1 t \<Longrightarrow> created ?ps content ti t" for t
      by (simp add: created_def ti1_def)
    ultimately show ?thesis
      using eq by auto
  next
    case full
    have "create_loop K file psize c i ti f = Some (False, ti1, f1)"
      using d o(2) res full l32
      by (subst create_loop.simps) (simp add: create_end_def ti1_def NANOTORRENT_MAX_PIECES_def)
    moreover have "0 < length bs"
      using full by simp
    then have "\<not> ?L \<le> 31 * ?ps"
      using full(2) unfolding lbs by (simp add: min_def split: if_splits)
    ultimately show ?thesis by auto
  qed
qed

lemma info_create_outcome:
  assumes "cfs_ok K" "cfs_reliable K" "0 < psize" "length (next_block c) = 64" "hash_array (piece_hashes ti)"
    and "cfs_content K f fd = content"
  shows "\<exists>ok ti' f'. nanotorrent_torrent_info_create K c ti fd psize f = Some (ok, ti', f') \<and>
    (ok \<longleftrightarrow> length content \<le> 31 * unat psize) \<and>
    (ok \<longrightarrow> created (unat psize) content (ti\<lparr>file_size := of_nat (length content), piece_size := psize\<rparr>) ti')"
proof -
  obtain r f1 where se: "cfs_seek K fd 0 CFS_SEEK_END f = (r, f1)"
    by (cases "cfs_seek K fd 0 CFS_SEEK_END f")
  obtain r2 f2 where ss: "cfs_seek K fd 0 CFS_SEEK_SET f1 = (r2, f2)"
    by (cases "cfs_seek K fd 0 CFS_SEEK_SET f1")
  have "0 \<le> fst (cfs_seek K fd 0 CFS_SEEK_END f)" "0 \<le> fst (cfs_seek K fd (int 0) CFS_SEEK_SET f1)"
    using assms(2) unfolding cfs_reliable_def by blast+
  then have nonneg: "0 \<le> r" "0 \<le> r2"
    using se ss by simp_all
  have r: "r = int (length content)" "cfs_content K f1 = cfs_content K f"
    using assms(1,6) se nonneg(1) unfolding cfs_ok_def cfs_seek_ok_def by blast+
  have i0: "cfs_seek K fd (int 0) CFS_SEEK_SET f1 = (r2, f2)"
    using ss by simp
  have s: "cfs_content K f2 = cfs_content K f1" "cfs_pos K f2 fd = 0"
    using assms(1) i0 nonneg(2) unfolding cfs_ok_def cfs_seek_ok_def by blast+
  have "nanotorrent_torrent_info_create K c ti fd psize f =
      create_loop K fd psize c 0 (ti\<lparr>file_size := of_nat (length content), piece_size := psize\<rparr>) f2"
    using se ss r(1) by (simp add: nanotorrent_torrent_info_create_def)
  then show ?thesis
    using create_loop_outcome [OF assms(1-4), of 0 "ti\<lparr>file_size := of_nat (length content), piece_size := psize\<rparr>" f2 fd content]
      assms(5,6) r(2) s by (simp add: NANOTORRENT_MAX_PIECES_def)
qed

lemma created_wf:
  assumes "created (unat (piece_size ti')) content ti ti'" "file_size ti' = of_nat (length content)"
    and "length content < 2 ^ 16" "0 < piece_size ti'"
  shows "torrent_wf ti'" "\<And>i. i < unat (num_pieces ti') \<Longrightarrow> piece_matches ti' i content"
proof -
  obtain n where n: "num_pieces ti' = of_nat n" "1 \<le> n" "n < 32" "length content \<le> n * unat (piece_size ti')"
    "1 < n \<longrightarrow> (n - 1) * unat (piece_size ti') < length content" "hash_array (piece_hashes ti')"
    "\<forall>j < n. piece_hashes ti' ! j = sha1_spec (take (unat (piece_size ti')) (drop (j * unat (piece_size ti')) content))"
    using assms(1) by (auto simp: created_def NANOTORRENT_MAX_PIECES_def)
  have un: "unat (num_pieces ti') = n"
    using n(1,3) by (simp add: unat_of_nat)
  have uf: "unat (file_size ti') = length content"
    using assms(2,3) by (simp add: unat_of_nat)
  have ps: "0 < unat (piece_size ti')"
    using assms(4) by (simp add: word_less_nat_alt)
  show "torrent_wf ti'"
    using n un uf ps by (simp add: torrent_wf_def info_ok_def NANOTORRENT_MAX_PIECES_def)
  show "piece_matches ti' i content" if "i < unat (num_pieces ti')" for i
  proof -
    have "take (piece_len ti' i) (drop (i * unat (piece_size ti')) content) =
        take (unat (piece_size ti')) (drop (i * unat (piece_size ti')) content)"
      by (simp add: piece_len_def uf min_def)
    then show ?thesis
      using n(7) that un by (simp add: piece_matches_def piece_bytes_def piece_off_def)
  qed
qed

section \<open>Properties of descriptors\<close>

text \<open>
  The info hash of a descriptor is the SHA-1 digest of its wire format (5 bytes and the hashes of its
  pieces), it fits the local array of the size of the structure, and it does not depend on the entries
  of the hash array beyond the last piece: descriptors with the same sizes and piece hashes have the
  same info hash, so a peer that unpacked a descriptor agrees with the one that packed it.
\<close>

theorem info_hash_of_wire_format:
  assumes "info_ok ti" "info_ok ti'" "length (next_block c) = 64" "length (next_block c') = 64"
    and "645 \<le> length data" "645 \<le> length data'"
  shows "nanotorrent_torrent_info_hash c data ti = Some (True, sha1_spec
      ([ucast (drop_bit 8 (file_size ti)), ucast (file_size ti), ucast (drop_bit 8 (piece_size ti)), ucast (piece_size ti),
        num_pieces ti] @ concat (take (unat (num_pieces ti)) (piece_hashes ti)))) \<and>
    (file_size ti = file_size ti' \<and> piece_size ti = piece_size ti' \<and> num_pieces ti = num_pieces ti' \<and>
     take (unat (num_pieces ti)) (piece_hashes ti) = take (unat (num_pieces ti)) (piece_hashes ti') \<longrightarrow>
     nanotorrent_torrent_info_hash c data ti = nanotorrent_torrent_info_hash c' data' ti')"
  using info_hash_spec [OF assms(1,5,3)] info_hash_spec [OF assms(2,6,4)]
  by (auto simp: enc_info_def enc_u16_def info_hashes_def)

theorem info_hash_of_wire_format_witness:
  "nanotorrent_torrent_info_hash used_context (replicate 645 0) demo_info =
   nanotorrent_torrent_info_hash used_context (replicate 700 1) (demo_info\<lparr>piece_hashes := (piece_hashes demo_info)[9 := replicate 20 0]\<rparr>)"
proof -
  have ok: "info_ok demo_info" "info_ok (demo_info\<lparr>piece_hashes := (piece_hashes demo_info)[9 := replicate 20 0]\<rparr>)"
    by (auto simp: info_ok_def hash_array_def demo_info_def NANOTORRENT_MAX_PIECES_def
        dest: subsetD [OF set_update_subset_insert])
  show ?thesis
    by (rule mp [OF conjunct2 [OF info_hash_of_wire_format [OF ok]]]) (simp_all add: demo_info_def)
qed

text \<open>
  C11: \<^verbatim>\<open>nanotorrent_torrent_info_create\<close>, on a file that can be read, succeeds exactly when the file fits
  into 31 pieces (one fewer than \<^verbatim>\<open>NANOTORRENT_MAX_PIECES\<close>: the loop wants to read an empty piece after
  the last one). The descriptor it makes of a file of fewer than 65536 bytes is well-formed, and the hash
  of each of its pieces is the digest of the bytes of that piece; a larger file gets its size modulo
  65536 without an error.
\<close>

theorem info_create_correct:
  assumes "cfs_ok K" "cfs_reliable K" "0 < psize" "length (next_block c) = 64" "hash_array (piece_hashes ti)"
  shows "\<exists>ok ti' f'. nanotorrent_torrent_info_create K c ti fd psize f = Some (ok, ti', f') \<and>
    (ok \<longleftrightarrow> length (cfs_content K f fd) \<le> 31 * unat psize) \<and>
    (ok \<longrightarrow> file_size ti' = of_nat (length (cfs_content K f fd)) \<and> piece_size ti' = psize \<and>
      (length (cfs_content K f fd) < 65536 \<longrightarrow> torrent_wf ti' \<and>
        (\<forall>i < unat (num_pieces ti'). piece_hashes ti' ! i =
           sha1_spec (take (piece_len ti' i) (drop (piece_off ti' i) (cfs_content K f fd))))))"
proof -
  let ?c = "cfs_content K f fd"
  obtain ok ti' f' where cr: "nanotorrent_torrent_info_create K c ti fd psize f = Some (ok, ti', f')"
    "ok \<longleftrightarrow> length ?c \<le> 31 * unat psize"
    "ok \<longrightarrow> created (unat psize) ?c (ti\<lparr>file_size := of_nat (length ?c), piece_size := psize\<rparr>) ti'"
    using info_create_outcome [OF assms refl] by blast
  have sz: "file_size ti' = of_nat (length ?c)" "piece_size ti' = psize" if ok
    using cr(3) that by (simp_all add: created_def)
  show ?thesis
    using cr sz created_wf [of ti' ?c "ti\<lparr>file_size := of_nat (length ?c), piece_size := psize\<rparr>"] assms(3)
    by (intro exI [of _ ok] exI [of _ ti'] exI [of _ f']) (auto simp: piece_matches_def piece_bytes_def)
qed

theorem info_create_correct_witness:
  "\<exists>ok ti' f'. nanotorrent_torrent_info_create sim_contiki used_context demo_info 0 256 (replicate 700 7, 0) = Some (ok, ti', f') \<and>
    ok \<and> torrent_wf ti'"
  using info_create_correct [of sim_contiki 256 used_context demo_info 0 "(replicate 700 7, 0)"] sim_ok demo_info_wf
  by (auto simp: torrent_wf_def info_ok_def) (auto simp: sim_contiki_def)

text \<open>
  Creation and verification agree. A peer whose file holds the bytes a descriptor was created from finds
  every piece complete when it verifies its file, and is a seed.
\<close>

theorem created_descriptor_verifies:
  assumes "cfs_ok K" "cfs_reliable K" "0 < psize" "length (next_block c) = 64" "hash_array (piece_hashes ti)"
    and "nanotorrent_torrent_info_create K c ti fd psize f = Some (True, ti', f')"
    and "length (cfs_content K f fd) < 65536"
    and "the_info s = ti'" "own_content K s = cfs_content K f fd" "pieces_fit (int_bits K) ti'"
  shows "\<exists>have s'. nanotorrent_piece_verify_all K c s = Some (have, s') \<and>
    nanotorrent_piece_is_seed (int_bits K) (s'\<lparr>own_have := have\<rparr>)"
proof -
  let ?c = "cfs_content K f fd"
  have cr: "created (unat psize) ?c (ti\<lparr>file_size := of_nat (length ?c), piece_size := psize\<rparr>) ti'"
    using info_create_outcome [OF assms(1-5) refl, of fd f] assms(6) by auto
  then have "file_size ti' = of_nat (length ?c)" "piece_size ti' = psize"
    by (simp_all add: created_def)
  then have wf: "torrent_wf ti'" "\<And>i. i < unat (num_pieces ti') \<Longrightarrow> piece_matches ti' i ?c"
    using created_wf [of ti' ?c] cr assms(3,7) by auto
  obtain h g where v: "nanotorrent_piece_verify_all K c s = Some (h, s\<lparr>files := g\<rparr>)"
    "{j. j < unat (num_pieces ti') \<and> piece_matches ti' j ?c} \<subseteq> bits h"
    using verify_all_outcome [of K s c] assms(1,2,4,8-10) wf(1) by auto
  have "nanotorrent_piece_is_seed (int_bits K) (s\<lparr>files := g, own_have := h\<rparr>)"
    using is_seed_iff [of K "s\<lparr>files := g, own_have := h\<rparr>"] assms(8,10) v(2) wf(2) by auto
  with v(1) show ?thesis by auto
qed

theorem created_descriptor_verifies_witness:
  "\<exists>ti' f' have s'. nanotorrent_torrent_info_create sim_contiki used_context demo_info 0 256 (replicate 700 7, 0) = Some (True, ti', f') \<and>
    nanotorrent_piece_verify_all sim_contiki used_context (demo_piece_state\<lparr>desc := (desc demo_piece_state)\<lparr>desc_info := ti'\<rparr>\<rparr>) =
      Some (have, s') \<and> nanotorrent_piece_is_seed (int_bits sim_contiki) (s'\<lparr>own_have := have\<rparr>)"
proof -
  have h: "hash_array (piece_hashes demo_info)"
    using demo_info_wf by (simp add: torrent_wf_def info_ok_def)
  have l: "length (cfs_content sim_contiki (replicate 700 7, 0) 0) = 700"
    by (simp add: sim_contiki_def)
  obtain ti' f' where cr: "nanotorrent_torrent_info_create sim_contiki used_context demo_info 0 256 (replicate 700 7, 0) = Some (True, ti', f')"
    and c: "created 256 (cfs_content sim_contiki (replicate 700 7, 0) 0) (demo_info\<lparr>file_size := of_nat 700, piece_size := 256\<rparr>) ti'"
    using info_create_outcome [OF sim_cfs_ok sim_cfs_reliable _ _ h refl, of 256 used_context 0 "(replicate 700 7, 0)"] l by auto
  obtain n where "num_pieces ti' = of_nat n" "n < 32" "1 < n \<longrightarrow> (n - 1) * 256 < 700"
    using c l by (auto simp: created_def NANOTORRENT_MAX_PIECES_def)
  then have fit: "pieces_fit (int_bits sim_contiki) ti'"
    by (auto simp: pieces_fit_def sim_contiki_def unat_of_nat)
  show ?thesis
    using cr created_descriptor_verifies [OF sim_cfs_ok sim_cfs_reliable _ _ h cr _ _ _ fit,
        of "demo_piece_state\<lparr>desc := (desc demo_piece_state)\<lparr>desc_info := ti'\<rparr>\<rparr>"]
    by (auto simp: demo_piece_state_def own_content_def) (auto simp: sim_contiki_def)
qed

end
