(* ===== verification/Retry.thy ===== *)
theory Retry
  imports Contiki Bitset
begin

text \<open>
  \<^verbatim>\<open>peer/retry.h\<close> and \<^verbatim>\<open>peer/retry.c\<close>: retrying an action with exponential back-off. The functions that
  may call a callback return which one, with its data; in the code the call is the last thing they do, and
  the users of this module run the callback when they get one.
\<close>

section \<open>State and operations\<close>

datatype nanotorrent_retry_callback =
    nanotorrent_peer_request_retry_again | nanotorrent_peer_request_retry_stop
  | nanotorrent_swarm_announce_retry_again | nanotorrent_swarm_announce_retry_stop

record 't nanotorrent_retry =
  rt_timeout :: nat
  rt_max_retries :: u8
  rt_num_retries :: u8
  rt_timer :: 't
  rt_again_callback :: nanotorrent_retry_callback
  rt_stop_callback :: nanotorrent_retry_callback
  rt_data :: "nat option"

type_synonym callback_call = "nanotorrent_retry_callback \<times> nat option"

definition nanotorrent_retry_stop :: "('f, 'm, 't) contiki \<Rightarrow> 't nanotorrent_retry \<Rightarrow> 't nanotorrent_retry" where
  "nanotorrent_retry_stop K retry = retry\<lparr>rt_timer := etimer_stop K (rt_timer retry)\<rparr>"

definition nanotorrent_retry_init :: "('f, 'm, 't) contiki \<Rightarrow> 't nanotorrent_retry \<Rightarrow> nat \<Rightarrow>
    nanotorrent_retry_callback \<Rightarrow> nanotorrent_retry_callback \<Rightarrow> 't nanotorrent_retry" where
  "nanotorrent_retry_init K retry timeout again_callback stop_callback =
    nanotorrent_retry_stop K
      (retry\<lparr>rt_timeout := timeout, rt_again_callback := again_callback, rt_stop_callback := stop_callback,
             rt_num_retries := 0, rt_max_retries := 0, rt_data := None\<rparr>)"

text \<open>The timeout is a \<^verbatim>\<open>clock_time_t\<close> times an \<^verbatim>\<open>int\<close>, stored in a \<^verbatim>\<open>clock_time_t\<close>.\<close>

definition backoff_timeout :: "('f, 'm, 't) contiki \<Rightarrow> nat \<Rightarrow> nat \<Rightarrow> nat" where
  "backoff_timeout K timeout n = nat ((int timeout * int_one_shl (int_bits K) n) mod 2 ^ clock_bits K)"

definition nanotorrent_retry_next :: "('f, 'm, 't) contiki \<Rightarrow> nat \<Rightarrow> 't nanotorrent_retry \<Rightarrow>
    't nanotorrent_retry \<times> callback_call option" where
  "nanotorrent_retry_next K t retry =
    (if rt_num_retries retry < rt_max_retries retry then
       (let timeout = backoff_timeout K (rt_timeout retry) (unat (rt_num_retries retry));
            retry = retry\<lparr>rt_timer := etimer_set K t timeout (rt_timer retry)\<rparr>;
            retry = retry\<lparr>rt_num_retries := rt_num_retries retry + 1\<rparr>
        in (retry, Some (rt_again_callback retry, rt_data retry)))
     else if rt_num_retries retry = rt_max_retries retry then
       (let retry = retry\<lparr>rt_num_retries := rt_num_retries retry + 1\<rparr>;
            retry = nanotorrent_retry_stop K retry
        in (retry, Some (rt_stop_callback retry, rt_data retry)))
     else (retry, None))"

definition nanotorrent_retry_start :: "('f, 'm, 't) contiki \<Rightarrow> nat \<Rightarrow> 't nanotorrent_retry \<Rightarrow> u8 \<Rightarrow> nat option \<Rightarrow>
    't nanotorrent_retry \<times> callback_call option" where
  "nanotorrent_retry_start K t retry max_retries data =
    nanotorrent_retry_next K t (retry\<lparr>rt_data := data, rt_num_retries := 0, rt_max_retries := max_retries\<rparr>)"

definition nanotorrent_retry_check :: "('f, 'm, 't) contiki \<Rightarrow> nat \<Rightarrow> 't nanotorrent_retry \<Rightarrow> bool" where
  "nanotorrent_retry_check K t retry =
    (rt_num_retries retry \<le> rt_max_retries retry \<and> etimer_expired K t (rt_timer retry))"

definition nanotorrent_retry_process :: "('f, 'm, 't) contiki \<Rightarrow> nat \<Rightarrow> 't nanotorrent_retry \<Rightarrow>
    't nanotorrent_retry \<times> callback_call option" where
  "nanotorrent_retry_process K t retry =
    (if nanotorrent_retry_check K t retry then nanotorrent_retry_next K t retry else (retry, None))"

section \<open>The contract of a bounded retry\<close>

text \<open>
  What the peer and swarm components rely on: however often and whenever the retry is processed, the
  action is tried at most \<open>budget\<close> more times, then stopping is reported once, and then nothing happens
  any more.
\<close>

fun poll_all :: "(nat \<Rightarrow> 'r \<Rightarrow> 'r \<times> 'c option) \<Rightarrow> nat list \<Rightarrow> 'r \<Rightarrow> 'c list" where
  "poll_all poll [] r = []"
| "poll_all poll (t # ts) r =
    (case poll t r of (r, None) \<Rightarrow> poll_all poll ts r | (r, Some c) \<Rightarrow> c # poll_all poll ts r)"

locale bounded_retry =
  fixes poll :: "nat \<Rightarrow> 'r \<Rightarrow> 'r \<times> 'c option"
    and again stop :: "'r \<Rightarrow> 'c"
    and budget :: "'r \<Rightarrow> nat"
    and over inv :: "'r \<Rightarrow> bool"
  assumes poll_inv: "inv r \<Longrightarrow> inv (fst (poll t r))"
    and poll_frame: "again (fst (poll t r)) = again r \<and> stop (fst (poll t r)) = stop r"
    and poll_over: "inv r \<Longrightarrow> over r \<Longrightarrow> poll t r = (r, None)"
    and poll_live: "inv r \<Longrightarrow> \<not> over r \<Longrightarrow> poll t r = (r, None) \<or>
      0 < budget r \<and> snd (poll t r) = Some (again r) \<and> budget (fst (poll t r)) = budget r - 1 \<and> \<not> over (fst (poll t r)) \<or>
      budget r = 0 \<and> snd (poll t r) = Some (stop r) \<and> over (fst (poll t r))"
begin

lemma run_over: "inv r \<Longrightarrow> over r \<Longrightarrow> poll_all poll ts r = []"
  by (induction ts) (simp_all add: poll_over)

lemma run_shape:
  "inv r \<Longrightarrow> \<not> over r \<Longrightarrow>
   (\<exists>k \<le> budget r. poll_all poll ts r = replicate k (again r)) \<or> poll_all poll ts r = replicate (budget r) (again r) @ [stop r]"
proof (induction ts arbitrary: r)
  case Nil
  show ?case by simp
next
  case (Cons t ts)
  obtain r' c where p: "poll t r = (r', c)"
    by (cases "poll t r")
  have i: "inv r'" and f: "again r' = again r" "stop r' = stop r"
    using poll_inv [OF Cons.prems(1), of t] poll_frame [of t r] p by simp_all
  from poll_live [OF Cons.prems, of t] p consider (idle) "c = None" "r' = r"
    | (again) "0 < budget r" "c = Some (again r)" "budget r' = budget r - 1" "\<not> over r'"
    | (stop) "budget r = 0" "c = Some (stop r)" "over r'"
    by auto
  then show ?case
  proof cases
    case idle
    then show ?thesis
      using Cons.IH [OF Cons.prems] p by simp
  next
    case again
    have e: "poll_all poll (t # ts) r = again r # poll_all poll ts r'"
      using p again(2) by simp
    from Cons.IH [OF i again(4)] show ?thesis
    proof
      assume "\<exists>k \<le> budget r'. poll_all poll ts r' = replicate k (again r')"
      then obtain k where "k \<le> budget r'" "poll_all poll ts r' = replicate k (again r')"
        by blast
      with again e f have "Suc k \<le> budget r \<and> poll_all poll (t # ts) r = replicate (Suc k) (again r)"
        by simp
      then show ?thesis by blast
    next
      assume "poll_all poll ts r' = replicate (budget r') (again r') @ [stop r']"
      moreover have "budget r = Suc (budget r')"
        using again by simp
      ultimately show ?thesis
        using e f by simp
    qed
  next
    case stop
    then show ?thesis
      using p run_over [OF i stop(3)] by simp
  qed
qed

lemma run_bounded: "inv r \<Longrightarrow> \<not> over r \<Longrightarrow> length (poll_all poll ts r) \<le> Suc (budget r)"
  using run_shape [of r ts] by auto

end

text \<open>The code keeps the contract as long as the counter of 8 bits cannot wrap.\<close>

definition retry_over :: "'t nanotorrent_retry \<Rightarrow> bool" where
  "retry_over r \<longleftrightarrow> rt_max_retries r < rt_num_retries r"

definition retry_budget :: "'t nanotorrent_retry \<Rightarrow> nat" where
  "retry_budget r = unat (rt_max_retries r) - unat (rt_num_retries r)"

definition retry_inv :: "'t nanotorrent_retry \<Rightarrow> bool" where
  "retry_inv r \<longleftrightarrow> unat (rt_max_retries r) < 255"

lemma retry_succ: "unat n < 255 \<Longrightarrow> unat ((n :: u8) + 1) = Suc (unat n)"
  by (simp add: unat_add_fits)

lemma retry_next_frame [simp]:
  "rt_max_retries (fst (nanotorrent_retry_next K t r)) = rt_max_retries r"
  "rt_timeout (fst (nanotorrent_retry_next K t r)) = rt_timeout r"
  "rt_again_callback (fst (nanotorrent_retry_next K t r)) = rt_again_callback r"
  "rt_stop_callback (fst (nanotorrent_retry_next K t r)) = rt_stop_callback r"
  "rt_data (fst (nanotorrent_retry_next K t r)) = rt_data r"
  by (simp_all add: nanotorrent_retry_next_def nanotorrent_retry_stop_def Let_def)

lemma retry_process_frame [simp]:
  "rt_max_retries (fst (nanotorrent_retry_process K t r)) = rt_max_retries r"
  "rt_again_callback (fst (nanotorrent_retry_process K t r)) = rt_again_callback r"
  "rt_stop_callback (fst (nanotorrent_retry_process K t r)) = rt_stop_callback r"
  "rt_data (fst (nanotorrent_retry_process K t r)) = rt_data r"
  by (simp_all add: nanotorrent_retry_process_def)

interpretation retry: bounded_retry "nanotorrent_retry_process K"
    "\<lambda>r. (rt_again_callback r, rt_data r)" "\<lambda>r. (rt_stop_callback r, rt_data r)" retry_budget retry_over retry_inv
  for K
proof unfold_locales
  fix t and r :: "'c nanotorrent_retry"
  assume i: "retry_inv r" and o: "\<not> retry_over r"
  have n: "unat (rt_num_retries r) \<le> unat (rt_max_retries r)" "unat (rt_max_retries r) < 255"
    using i o by (simp_all add: retry_inv_def retry_over_def word_less_nat_alt)
  then have s: "unat (rt_num_retries r + 1) = Suc (unat (rt_num_retries r))"
    by (intro retry_succ) simp
  show "nanotorrent_retry_process K t r = (r, None) \<or>
      0 < retry_budget r \<and> snd (nanotorrent_retry_process K t r) = Some (rt_again_callback r, rt_data r) \<and>
        retry_budget (fst (nanotorrent_retry_process K t r)) = retry_budget r - 1 \<and>
        \<not> retry_over (fst (nanotorrent_retry_process K t r)) \<or>
      retry_budget r = 0 \<and> snd (nanotorrent_retry_process K t r) = Some (rt_stop_callback r, rt_data r) \<and>
        retry_over (fst (nanotorrent_retry_process K t r))"
    using n s by (auto simp: nanotorrent_retry_process_def nanotorrent_retry_next_def nanotorrent_retry_stop_def Let_def
        retry_budget_def retry_over_def word_less_nat_alt word_unat_eq_iff)
qed (auto simp: retry_inv_def retry_process_frame retry_over_def nanotorrent_retry_process_def nanotorrent_retry_check_def)

section \<open>Back-off\<close>

lemma backoff_exact:
  assumes "n + 1 < int_bits K" "timeout * 2 ^ n < 2 ^ clock_bits K"
  shows "backoff_timeout K timeout n = timeout * 2 ^ n"
proof -
  have "int timeout * 2 ^ n = int (timeout * 2 ^ n)"
    by simp
  moreover have "int (timeout * 2 ^ n) < 2 ^ clock_bits K"
    using assms(2) by (metis of_nat_less_iff of_nat_numeral of_nat_power)
  ultimately have "(int timeout * 2 ^ n) mod 2 ^ clock_bits K = int (timeout * 2 ^ n)"
    by (simp only: mod_pos_pos_trivial of_nat_0_le_iff)
  then have "nat ((int timeout * 2 ^ n) mod 2 ^ clock_bits K) = timeout * 2 ^ n"
    by (simp only: nat_int)
  then show ?thesis
    using assms(1) by (simp add: backoff_timeout_def int_one_shl_ok push_bit_eq_mult)
qed

lemma retry_next_again:
  assumes "unat (rt_num_retries r) = k" "k < unat (rt_max_retries r)"
  shows "nanotorrent_retry_next K t r =
    (r\<lparr>rt_timer := etimer_set K t (backoff_timeout K (rt_timeout r) k) (rt_timer r),
       rt_num_retries := rt_num_retries r + 1\<rparr>, Some (rt_again_callback r, rt_data r))"
  using assms by (simp add: nanotorrent_retry_next_def word_less_nat_alt)

lemma retry_next_stop:
  assumes "rt_num_retries r = rt_max_retries r"
  shows "snd (nanotorrent_retry_next K t r) = Some (rt_stop_callback r, rt_data r)"
  using assms by (simp add: nanotorrent_retry_next_def Let_def nanotorrent_retry_stop_def)

text \<open>The state after try number \<open>k + 1\<close> at time \<open>t\<close>: the next poll does something exactly when the
  doubled timeout has passed.\<close>

definition waiting :: "('f, 'm, 't) contiki \<Rightarrow> nat \<Rightarrow> nat \<Rightarrow> 't nanotorrent_retry \<Rightarrow> bool" where
  "waiting K t k r \<longleftrightarrow> unat (rt_num_retries r) = Suc k \<and> k < unat (rt_max_retries r) \<and>
     (\<exists>e. rt_timer r = etimer_set K t (backoff_timeout K (rt_timeout r) k) e)"

lemma next_waiting:
  assumes "unat (rt_num_retries r) = k" "k < unat (rt_max_retries r)" "unat (rt_max_retries r) < 255"
  shows "waiting K t k (fst (nanotorrent_retry_next K t r))"
proof -
  have "unat (rt_num_retries r + 1) = Suc k"
    using assms retry_succ [of "rt_num_retries r"] by simp
  then show ?thesis
    using assms by (auto simp: retry_next_again waiting_def)
qed

lemma waiting_check:
  assumes "etimer_ok K" "waiting K t k r" "t \<le> u"
  shows "nanotorrent_retry_check K u r \<longleftrightarrow> t + backoff_timeout K (rt_timeout r) k \<le> u"
  using assms by (auto simp: waiting_def nanotorrent_retry_check_def etimer_ok_def word_le_nat_alt)

text \<open>Poll times that are late enough for the \<open>k\<close>-th and later timeouts.\<close>

fun deadlines :: "nat \<Rightarrow> nat \<Rightarrow> nat \<Rightarrow> nat list \<Rightarrow> bool" where
  "deadlines timeout k t [] = True"
| "deadlines timeout k t (u # us) = (t + timeout * 2 ^ k \<le> u \<and> deadlines timeout (Suc k) u us)"

lemma poll_all_deadlines:
  assumes "etimer_ok K" "waiting K t k r" "unat (rt_max_retries r) < 255"
    and "unat (rt_max_retries r) \<le> int_bits K - 1" "1 \<le> int_bits K"
    and "rt_timeout r * 2 ^ unat (rt_max_retries r) \<le> 2 ^ clock_bits K" "0 < rt_timeout r"
    and "deadlines (rt_timeout r) k t us" "length us = unat (rt_max_retries r) - k"
  shows "poll_all (nanotorrent_retry_process K) us r =
    replicate (unat (rt_max_retries r) - Suc k) (rt_again_callback r, rt_data r) @ [(rt_stop_callback r, rt_data r)]"
  using assms(2-)
proof (induction us arbitrary: t k r)
  case Nil
  then show ?case by (simp add: waiting_def)
next
  case (Cons u us)
  let ?m = "unat (rt_max_retries r)"
  have k: "unat (rt_num_retries r) = Suc k" "k < ?m"
    using Cons.prems(1) by (simp_all add: waiting_def)
  have "rt_timeout r * 2 ^ k < rt_timeout r * 2 ^ ?m"
    using k(2) Cons.prems(6) by simp
  from less_le_trans [OF this Cons.prems(5)] have b: "backoff_timeout K (rt_timeout r) k = rt_timeout r * 2 ^ k"
    using Cons.prems(3,4) k(2) by (intro backoff_exact) simp_all
  have due: "t + rt_timeout r * 2 ^ k \<le> u"
    using Cons.prems(7) by simp
  then have "t \<le> u" by simp
  then have "nanotorrent_retry_check K u r"
    using waiting_check [OF assms(1) Cons.prems(1)] b due by simp
  then have p: "nanotorrent_retry_process K u r = nanotorrent_retry_next K u r"
    by (simp add: nanotorrent_retry_process_def)
  show ?case
  proof (cases "Suc k < ?m")
    case True
    let ?r = "fst (nanotorrent_retry_next K u r)"
    have "waiting K u (Suc k) ?r"
      using next_waiting [OF k(1) True Cons.prems(2)] .
    then have "poll_all (nanotorrent_retry_process K) us ?r =
        replicate (?m - Suc (Suc k)) (rt_again_callback r, rt_data r) @ [(rt_stop_callback r, rt_data r)]"
      using Cons.IH [of u "Suc k" ?r] Cons.prems(2-8) by simp
    moreover have "?m - Suc k = Suc (?m - Suc (Suc k))"
      using True by simp
    ultimately show ?thesis
      using p retry_next_again [OF k(1) True, of K u] by simp
  next
    case False
    with k have "Suc k = ?m" by simp
    with k(1) have e: "rt_num_retries r = rt_max_retries r"
      by (intro unsigned_word_eqI [where ?'a = nat]) simp
    have "us = []"
      using Cons.prems(8) False by (cases us) simp_all
    then show ?thesis
      using p retry_next_stop [OF e, of K u] \<open>Suc k = ?m\<close>
      by (cases "nanotorrent_retry_next K u r") simp
  qed
qed

section \<open>Properties of retrying\<close>

text \<open>
  C24: retrying is bounded. Started with a maximum of \<open>m\<close> tries, a retry calls the again callback at most \<open>m\<close>
  times, the first time at once, then the stop callback once, and then nothing, however often and at
  whatever times it is processed afterwards.
\<close>

theorem retry_bounded:
  assumes "unat m < 255" "nanotorrent_retry_start K t r m data = (r', c)"
  shows "(\<exists>k \<le> unat m. (case c of None \<Rightarrow> [] | Some x \<Rightarrow> [x]) @ poll_all (nanotorrent_retry_process K) ts r' =
      replicate k (rt_again_callback r, data)) \<or>
    (case c of None \<Rightarrow> [] | Some x \<Rightarrow> [x]) @ poll_all (nanotorrent_retry_process K) ts r' =
      replicate (unat m) (rt_again_callback r, data) @ [(rt_stop_callback r, data)]"
proof -
  define r0 where "r0 = r\<lparr>rt_data := data, rt_num_retries := 0, rt_max_retries := m\<rparr>"
  have r0: "rt_again_callback r0 = rt_again_callback r" "rt_stop_callback r0 = rt_stop_callback r" "rt_data r0 = data"
    "unat (rt_num_retries r0) = 0" "rt_max_retries r0 = m"
    by (simp_all add: r0_def)
  have st: "nanotorrent_retry_next K t r0 = (r', c)"
    using assms(2) by (simp add: nanotorrent_retry_start_def r0_def)
  have i: "retry_inv r'"
    using retry_next_frame(1) [of K t r0] st r0(5) assms(1) by (simp add: retry_inv_def)
  have cb: "rt_again_callback r' = rt_again_callback r" "rt_stop_callback r' = rt_stop_callback r" "rt_data r' = data"
    using retry_next_frame(3-5) [of K t r0] st r0 by simp_all
  show ?thesis
  proof (cases "unat m = 0")
    case True
    then have "rt_num_retries r0 = rt_max_retries r0"
      using r0 by (intro unsigned_word_eqI [where ?'a = nat]) simp
    then have c: "c = Some (rt_stop_callback r, data)" and "retry_over r'"
      using retry_next_stop [of r0 K t] st r0 True
      by (auto simp: nanotorrent_retry_next_def Let_def nanotorrent_retry_stop_def retry_over_def word_less_nat_alt
          unat_eq_0)
    then show ?thesis
      using retry.run_over [OF i] True by simp
  next
    case False
    then have n: "nanotorrent_retry_next K t r0 = (r', Some (rt_again_callback r, data))"
      and w: "unat (rt_num_retries r') = 1" "rt_max_retries r' = m"
      using retry_next_again [OF r0(4), of K t] next_waiting [OF r0(4), of K t] st r0 assms(1)
      by (auto simp: waiting_def)
    have o: "\<not> retry_over r'" and b: "retry_budget r' = unat m - 1"
      using w False by (simp_all add: retry_over_def retry_budget_def word_less_nat_alt)
    from retry.run_shape [OF i o, of K ts] show ?thesis
    proof
      assume "\<exists>k \<le> retry_budget r'. poll_all (nanotorrent_retry_process K) ts r' = replicate k (rt_again_callback r', rt_data r')"
      then obtain k where "k \<le> unat m - 1" "poll_all (nanotorrent_retry_process K) ts r' = replicate k (rt_again_callback r, data)"
        using b cb by auto
      then show ?thesis
        using n st False by (intro disjI1 exI [of _ "Suc k"]) auto
    next
      assume "poll_all (nanotorrent_retry_process K) ts r' =
        replicate (retry_budget r') (rt_again_callback r', rt_data r') @ [(rt_stop_callback r', rt_data r')]"
      moreover have "unat m = Suc (unat m - 1)"
        using False by simp
      ultimately show ?thesis
        using n st b cb by (metis append_Cons append_Nil option.simps(5) prod.inject replicate_Suc)
    qed
  qed
qed

text \<open>A retry with the values of the announce request: a base timeout of 3 seconds.\<close>

definition demo_retry :: "sim_timer nanotorrent_retry" where
  "demo_retry = \<lparr>rt_timeout = 384, rt_max_retries = 9, rt_num_retries = 9, rt_timer = (0, 0),
     rt_again_callback = nanotorrent_swarm_announce_retry_again,
     rt_stop_callback = nanotorrent_swarm_announce_retry_stop, rt_data = None\<rparr>"

lemma shape_length: "(\<exists>k \<le> n. xs = replicate k a) \<or> xs = replicate n a @ [b] \<Longrightarrow> length xs \<le> Suc n"
  by auto

theorem retry_bounded_witness:
  "case nanotorrent_retry_start sim_contiki 0 demo_retry 5 None of (r', c) \<Rightarrow>
    length ((case c of None \<Rightarrow> [] | Some x \<Rightarrow> [x]) @ poll_all (nanotorrent_retry_process sim_contiki) [9, 999, 99999] r') \<le> 6"
proof (cases "nanotorrent_retry_start sim_contiki 0 demo_retry 5 None")
  case (Pair r' c)
  have "unat (5 :: u8) < 255" by simp
  from shape_length [OF retry_bounded [OF this Pair, of "[9, 999, 99999]"]] show ?thesis
    using Pair by simp
qed

text \<open>
  The back-off is exponential. After try number \<open>k + 1\<close> (at time \<open>t\<close>) processing the retry does nothing
  before \<open>t + timeout * 2 ^ k\<close>, and from then on it makes the next try, or, after the last one, stops.
\<close>

theorem retry_backoff:
  assumes "etimer_ok K" "unat (rt_num_retries r) = k" "k < unat (rt_max_retries r)" "unat (rt_max_retries r) < 255"
    and "k + 1 < int_bits K" "rt_timeout r * 2 ^ k < 2 ^ clock_bits K" "t \<le> u"
    and "fst (nanotorrent_retry_next K t r) = r'"
  shows "nanotorrent_retry_process K u r' =
    (if u < t + rt_timeout r * 2 ^ k then (r', None) else nanotorrent_retry_next K u r') \<and>
    snd (nanotorrent_retry_next K u r') =
      Some (if k + 1 < unat (rt_max_retries r) then rt_again_callback r else rt_stop_callback r, rt_data r)"
proof -
  have w: "waiting K t k r'"
    using next_waiting [OF assms(2-4), of K t] assms(8) by simp
  have fr: "rt_max_retries r' = rt_max_retries r" "rt_timeout r' = rt_timeout r" "rt_again_callback r' = rt_again_callback r"
    "rt_stop_callback r' = rt_stop_callback r" "rt_data r' = rt_data r"
    using assms(8) by (simp_all flip: assms(8))
  have b: "backoff_timeout K (rt_timeout r) k = rt_timeout r * 2 ^ k"
    using assms(5,6) by (rule backoff_exact)
  have n: "unat (rt_num_retries r') = Suc k"
    using w by (simp add: waiting_def)
  have "snd (nanotorrent_retry_next K u r') =
      Some (if k + 1 < unat (rt_max_retries r) then rt_again_callback r else rt_stop_callback r, rt_data r)"
  proof (cases "Suc k < unat (rt_max_retries r)")
    case True
    then show ?thesis
      using retry_next_again [OF n, of K u] fr by simp
  next
    case False
    with n assms(3) fr have "rt_num_retries r' = rt_max_retries r'"
      by (intro unsigned_word_eqI [where ?'a = nat]) simp
    then show ?thesis
      using retry_next_stop [of r' K u] False fr by simp
  qed
  then show ?thesis
    using waiting_check [OF assms(1) w assms(7)] b fr by (simp add: nanotorrent_retry_process_def not_less)
qed

theorem retry_backoff_witness:
  "snd (nanotorrent_retry_process sim_contiki 383 (fst (nanotorrent_retry_next sim_contiki 0 (demo_retry\<lparr>rt_num_retries := 0\<rparr>)))) = None \<and>
   snd (nanotorrent_retry_process sim_contiki 384 (fst (nanotorrent_retry_next sim_contiki 0 (demo_retry\<lparr>rt_num_retries := 0\<rparr>)))) =
     Some (nanotorrent_swarm_announce_retry_again, None)"
  using retry_backoff [OF sim_etimer_ok _ _ _ _ _ _ refl, of "demo_retry\<lparr>rt_num_retries := 0\<rparr>" 0 0 383]
    retry_backoff [OF sim_etimer_ok _ _ _ _ _ _ refl, of "demo_retry\<lparr>rt_num_retries := 0\<rparr>" 0 0 384]
  by (simp add: demo_retry_def) (simp add: sim_contiki_def)

text \<open>
  C25: a retry gives up. When it is processed \<open>m\<close> times, each time after the pending timeout, it has called the
  again callback exactly \<open>m\<close> times and then the stop callback.
\<close>

theorem retry_gives_up:
  assumes "etimer_ok K" "0 < unat m" "unat m < 255" "unat m < int_bits K" "0 < rt_timeout r"
    and "rt_timeout r * 2 ^ unat m \<le> 2 ^ clock_bits K"
    and "nanotorrent_retry_start K t r m data = (r', c)" "deadlines (rt_timeout r) 0 t us" "length us = unat m"
  shows "(case c of None \<Rightarrow> [] | Some x \<Rightarrow> [x]) @ poll_all (nanotorrent_retry_process K) us r' =
    replicate (unat m) (rt_again_callback r, data) @ [(rt_stop_callback r, data)]"
proof -
  define r0 where "r0 = r\<lparr>rt_data := data, rt_num_retries := 0, rt_max_retries := m\<rparr>"
  have r0: "rt_again_callback r0 = rt_again_callback r" "rt_stop_callback r0 = rt_stop_callback r" "rt_data r0 = data"
    "unat (rt_num_retries r0) = 0" "rt_max_retries r0 = m" "rt_timeout r0 = rt_timeout r"
    by (simp_all add: r0_def)
  have st: "nanotorrent_retry_next K t r0 = (r', c)"
    using assms(7) by (simp add: nanotorrent_retry_start_def r0_def)
  have w: "waiting K t 0 r'" and c: "c = Some (rt_again_callback r, data)"
    using next_waiting [OF r0(4), of K t] retry_next_again [OF r0(4), of K t] st r0 assms(2,3) by simp_all
  have cb: "rt_again_callback r' = rt_again_callback r" "rt_stop_callback r' = rt_stop_callback r" "rt_data r' = data"
    "rt_max_retries r' = m" "rt_timeout r' = rt_timeout r"
    using retry_next_frame [of K t r0] st r0 by simp_all
  have "poll_all (nanotorrent_retry_process K) us r' =
      replicate (unat m - Suc 0) (rt_again_callback r, data) @ [(rt_stop_callback r, data)]"
    using poll_all_deadlines [OF assms(1) w, of us] cb assms by simp
  moreover have "unat m = Suc (unat m - Suc 0)"
    using assms(2) by simp
  ultimately show ?thesis
    using c by (metis append_Cons append_Nil option.simps(5) replicate_Suc)
qed

theorem retry_gives_up_witness:
  "case nanotorrent_retry_start sim_contiki 10 demo_retry 3 None of (r', c) \<Rightarrow>
    (case c of None \<Rightarrow> [] | Some x \<Rightarrow> [x]) @ poll_all (nanotorrent_retry_process sim_contiki) [400, 1500, 4000] r' =
      replicate 3 (nanotorrent_swarm_announce_retry_again, None) @ [(nanotorrent_swarm_announce_retry_stop, None)]"
proof (cases "nanotorrent_retry_start sim_contiki 10 demo_retry 3 None")
  case (Pair r' c)
  then show ?thesis
    using retry_gives_up [OF sim_etimer_ok _ _ _ _ _ Pair, of "[400, 1500, 4000]"]
    by (simp add: demo_retry_def) (simp add: sim_contiki_def)
qed

end
