(* ===== verification/Select.thy ===== *)
theory Select
  imports Torrent Retry "HOL-Library.Multiset"
begin

text \<open>
  \<^verbatim>\<open>peer/piece-select.c\<close>: which piece to request next, rarest first, with an end game. The state of the
  peer component (\<^verbatim>\<open>peer.h\<close> and the static variables of \<^verbatim>\<open>peer.c\<close>) is declared here, because the
  selection asks the peer component which pieces of a connection are interesting.

  Connections live in an array of structures: a pointer is a natural number, the peers list is a list of
  pointers.
\<close>

section \<open>State\<close>

record 't nanotorrent_peer_conn =
  conn_peer_info :: nanotorrent_peer_info
  conn_have :: u32
  conn_heartbeat :: 't
  has_request :: bool
  request_index :: u8
  request_offset :: u16
  request_retry :: "'t nanotorrent_retry"

record 'f select_state = "'f piece_state" +
  piece_counts :: "u8 list"

record ('f, 'm, 't) peer_state = "'f select_state" +
  conns :: "nat \<Rightarrow> 't nanotorrent_peer_conn"
  peers :: "nat list"
  peers_in :: 'm
  peers_out :: 'm
  pending_pieces :: u32
  heartbeat :: 't
  heartbeat_delay :: nat
  posted_seeding_event :: bool

section \<open>Counting the pieces of the connected peers\<close>

definition nanotorrent_select_init :: "('f, 'a) select_state_scheme \<Rightarrow> ('f, 'a) select_state_scheme" where
  "nanotorrent_select_init s = s\<lparr>piece_counts := replicate (length (piece_counts s)) 0\<rparr>"

text \<open>The loop of \<^verbatim>\<open>nanotorrent_select_update_have\<close>, from piece \<open>i\<close> for \<open>k\<close> pieces; \<open>None\<close> beyond the array.\<close>

fun update_counts :: "u32 \<Rightarrow> u32 \<Rightarrow> nat \<Rightarrow> nat \<Rightarrow> u8 list \<Rightarrow> u8 list option" where
  "update_counts old_have new_have i 0 cs = Some cs"
| "update_counts old_have new_have i (Suc k) cs =
    (let had_piece = nanotorrent_bitset_get old_have i;
         has_piece = nanotorrent_bitset_get new_have i
     in if had_piece \<noteq> has_piece then
          (if i < length cs
           then update_counts old_have new_have (Suc i) k
             (cs[i := (if has_piece then cs ! i + 1 else cs ! i - 1)])
           else None)
        else update_counts old_have new_have (Suc i) k cs)"

definition nanotorrent_select_update_have ::
  "u32 \<Rightarrow> u32 \<Rightarrow> ('f, 'a) select_state_scheme \<Rightarrow> ('f, 'a) select_state_scheme option" where
  "nanotorrent_select_update_have old_have new_have s =
    (if old_have = new_have then Some s
     else map_option (\<lambda>cs. s\<lparr>piece_counts := cs\<rparr>)
       (update_counts old_have new_have 0 (unat (num_pieces (the_info s))) (piece_counts s)))"

section \<open>The end game\<close>

text \<open>
  The product \<^verbatim>\<open>0.8f * num_pieces\<close> is computed in IEEE single precision. \<open>0.8f\<close> is
  \<open>13421773 / 2 ^ 24\<close>; a product is rounded to 24 significant bits, to the nearest, ties to even. The values
  here are multiples of \<open>1 / 2 ^ 24\<close>, written as integers.
\<close>

fun bit_length :: "nat \<Rightarrow> nat" where
  "bit_length n = (if n = 0 then 0 else Suc (bit_length (n div 2)))"

declare bit_length.simps [simp del]

definition round_single :: "nat \<Rightarrow> nat" where
  "round_single m =
    (if bit_length m \<le> 24 then m
     else
       (let k = bit_length m - 24; q = m div 2 ^ k; r = m mod 2 ^ k; half = 2 ^ (k - 1) in
        (if r > half \<or> (r = half \<and> odd q) then q + 1 else q) * 2 ^ k))"

definition END_GAME_MIN_COMPLETION :: nat where
  "END_GAME_MIN_COMPLETION = 13421773"

definition nanotorrent_select_is_endgame :: "('f, 'a) select_state_scheme \<Rightarrow> bool" where
  "nanotorrent_select_is_endgame s =
    (unat (nanotorrent_piece_count_complete s) * 2 ^ 24 \<ge>
      round_single (END_GAME_MIN_COMPLETION * unat (num_pieces (the_info s))))"

section \<open>Interesting pieces (peer.c)\<close>

definition nanotorrent_peer_interesting :: "'t nanotorrent_peer_conn \<Rightarrow> ('f, 'm, 't, 'a) peer_state_scheme \<Rightarrow> u32" where
  "nanotorrent_peer_interesting conn s =
    (let interesting = conn_have conn;
         interesting = nanotorrent_bitset_diff interesting (nanotorrent_piece_have s);
         interesting = nanotorrent_bitset_diff interesting (pending_pieces s)
     in interesting)"

definition nanotorrent_peer_interesting_endgame :: "'t nanotorrent_peer_conn \<Rightarrow> ('f, 'm, 't, 'a) peer_state_scheme \<Rightarrow> u32" where
  "nanotorrent_peer_interesting_endgame conn s =
    (let interesting = conn_have conn;
         interesting = nanotorrent_bitset_diff interesting (nanotorrent_piece_have s)
     in interesting)"

section \<open>Selecting a piece\<close>

text \<open>The loop over the pieces from \<open>i\<close> on, \<open>k\<close> of them; \<open>None\<close> beyond the array of counts.\<close>

fun rarest_loop :: "u32 \<Rightarrow> u8 list \<Rightarrow> nat \<Rightarrow> nat \<Rightarrow> nat \<Rightarrow> u8 \<Rightarrow> nat option" where
  "rarest_loop interesting cs i 0 rarest_index rarest_count = Some rarest_index"
| "rarest_loop interesting cs i (Suc k) rarest_index rarest_count =
    (if nanotorrent_bitset_get interesting i then
       (if i < length cs then
          (if cs ! i < rarest_count
           then rarest_loop interesting cs (Suc i) k i (cs ! i)
           else rarest_loop interesting cs (Suc i) k rarest_index rarest_count)
        else None)
     else rarest_loop interesting cs (Suc i) k rarest_index rarest_count)"

text \<open>The inner option is the result: \<open>None\<close> for \<^verbatim>\<open>false\<close>, else the piece index the code stores.\<close>

definition nanotorrent_select_next ::
  "'t nanotorrent_peer_conn \<Rightarrow> ('f, 'm, 't, 'a) peer_state_scheme \<Rightarrow> u8 option option" where
  "nanotorrent_select_next conn s =
    (let rarest = (\<lambda>interesting. map_option (\<lambda>i. Some (of_nat i))
           (rarest_loop interesting (piece_counts s) 0 (unat (num_pieces (the_info s))) 0 0xFF));
         interesting = nanotorrent_peer_interesting conn s
     in if interesting = 0 then
          (if \<not> nanotorrent_select_is_endgame s then Some None
           else
             (let interesting = nanotorrent_peer_interesting_endgame conn s
              in if interesting = 0 then Some None else rarest interesting))
        else rarest interesting)"

section \<open>Counts\<close>

lemma update_counts_nth:
  "i + k \<le> length cs \<Longrightarrow> \<exists>cs'. update_counts a b i k cs = Some cs' \<and> length cs' = length cs \<and>
    (\<forall>j < length cs. cs' ! j =
      (if i \<le> j \<and> j < i + k then cs ! j + of_bool (j \<in> bits b) - of_bool (j \<in> bits a) else cs ! j))"
proof (induction k arbitrary: i cs)
  case 0
  then show ?case by auto
next
  case (Suc k)
  let ?cs = "if (i \<in> bits a) \<noteq> (i \<in> bits b) then cs[i := (if i \<in> bits b then cs ! i + 1 else cs ! i - 1)] else cs"
  have l: "Suc i + k \<le> length ?cs"
    using Suc.prems by simp
  have e: "update_counts a b i (Suc k) cs = update_counts a b (Suc i) k ?cs"
    using Suc.prems by (simp add: bits_get)
  have n: "?cs ! j = (if j = i then cs ! j + of_bool (j \<in> bits b) - of_bool (j \<in> bits a) else cs ! j)" if "j < length cs" for j
    using that by auto
  from Suc.IH [OF l] obtain cs' where u: "update_counts a b (Suc i) k ?cs = Some cs'" "length cs' = length ?cs"
    "\<forall>j < length ?cs. cs' ! j = (if Suc i \<le> j \<and> j < Suc i + k then ?cs ! j + of_bool (j \<in> bits b) - of_bool (j \<in> bits a) else ?cs ! j)"
    by blast
  have "cs' ! j = (if i \<le> j \<and> j < i + Suc k then cs ! j + of_bool (j \<in> bits b) - of_bool (j \<in> bits a) else cs ! j)"
    if j: "j < length cs" for j
  proof (cases "j = i")
    case True
    then show ?thesis
      using u(3) n [OF j] j by simp
  next
    case False
    have "cs' ! j = (if Suc i \<le> j \<and> j < Suc i + k then cs ! j + of_bool (j \<in> bits b) - of_bool (j \<in> bits a) else cs ! j)"
      using u(3) n [OF j] j False by simp
    then show ?thesis
      using False by auto
  qed
  moreover have "length cs' = length cs"
    using u(2) by simp
  ultimately show ?case
    using e u(1) by (intro exI [of _ cs']) simp
qed

lemma update_have_nth:
  assumes "unat (num_pieces (the_info s)) \<le> length (piece_counts s)"
  shows "\<exists>cs. nanotorrent_select_update_have a b s = Some (s\<lparr>piece_counts := cs\<rparr>) \<and> length cs = length (piece_counts s) \<and>
    (\<forall>j < unat (num_pieces (the_info s)). cs ! j = piece_counts s ! j + of_bool (j \<in> bits b) - of_bool (j \<in> bits a))"
proof (cases "a = b")
  case True
  then show ?thesis
    by (intro exI [of _ "piece_counts s"]) (simp add: nanotorrent_select_update_have_def)
next
  case False
  then show ?thesis
    using update_counts_nth [of 0 "unat (num_pieces (the_info s))" "piece_counts s" a b] assms
    by (auto simp: nanotorrent_select_update_have_def)
qed

section \<open>The end game threshold\<close>

lemma endgame_values:
  "list_all (\<lambda>n. let r = round_single (END_GAME_MIN_COMPLETION * n); d = (4 * n + 4) div 5 in
     r \<le> d * 2 ^ 24 \<and> (d = 0 \<or> (d - 1) * 2 ^ 24 < r)) [0..<33]"
  by (simp add: upt_rec END_GAME_MIN_COMPLETION_def round_single_def bit_length.simps Let_def)

lemma endgame_threshold:
  assumes "n \<le> 32"
  shows "round_single (END_GAME_MIN_COMPLETION * n) \<le> c * 2 ^ 24 \<longleftrightarrow> 4 * n \<le> 5 * c"
proof -
  define r d :: nat where "r = round_single (END_GAME_MIN_COMPLETION * n)" and "d = (4 * n + 4) div 5"
  have "n \<in> set [0..<33]"
    using assms by simp
  then have r: "r \<le> d * 2 ^ 24" "d = 0 \<or> (d - 1) * 2 ^ 24 < r"
    using endgame_values unfolding list_all_iff Let_def r_def d_def by blast+
  have d: "4 * n \<le> 5 * c \<longleftrightarrow> d \<le> c"
    unfolding d_def by linarith
  show ?thesis
  proof (cases "d \<le> c")
    case True
    then have "d * 2 ^ 24 \<le> c * 2 ^ 24"
      by (rule mult_le_mono1)
    then show ?thesis
      using r(1) True unfolding d r_def [symmetric] by (metis le_trans)
  next
    case False
    then have "c * 2 ^ 24 \<le> (d - 1) * 2 ^ 24"
      by (intro mult_le_mono1) simp
    then show ?thesis
      using r(2) False unfolding d r_def [symmetric] by auto
  qed
qed

lemma is_endgame_iff:
  assumes "unat (num_pieces (the_info s)) \<le> 32"
  shows "nanotorrent_select_is_endgame s \<longleftrightarrow> 4 * unat (num_pieces (the_info s)) \<le> 5 * card (bits (own_have s))"
  using endgame_threshold [OF assms, of "card (bits (own_have s))"]
  by (simp add: nanotorrent_select_is_endgame_def nanotorrent_piece_count_complete_def count_eq_card)

section \<open>The counts are the histogram of the peers' vectors\<close>

definition have_count :: "u32 list \<Rightarrow> nat \<Rightarrow> nat" where
  "have_count hs j = length (filter (\<lambda>h. j \<in> bits h) hs)"

definition counts_ok :: "nat \<Rightarrow> u8 list \<Rightarrow> u32 list \<Rightarrow> bool" where
  "counts_ok n cs hs \<longleftrightarrow> n \<le> length cs \<and> (\<forall>j < n. cs ! j = of_nat (have_count hs j))"

lemma have_count_simps [simp]:
  "have_count [] j = 0"
  "have_count (h # hs) j = of_bool (j \<in> bits h) + have_count hs j"
  by (simp_all add: have_count_def)

lemma have_count_mset: "mset hs = mset hs' \<Longrightarrow> have_count hs j = have_count hs' j"
  unfolding have_count_def by (metis mset_filter size_mset)

lemma counts_ok_mset: "mset hs = mset hs' \<Longrightarrow> counts_ok n cs hs \<Longrightarrow> counts_ok n cs hs'"
  by (simp add: counts_ok_def have_count_mset [of hs hs'])

lemma counts_ok_zero: "counts_ok n cs hs \<Longrightarrow> counts_ok n cs (0 # hs)"
  by (simp add: counts_ok_def)

lemma counts_ok_drop_zero: "counts_ok n cs (0 # hs) \<Longrightarrow> counts_ok n cs hs"
  by (simp add: counts_ok_def)

lemma update_have_counts:
  assumes "counts_ok (unat (num_pieces (the_info s))) (piece_counts s) (a # hs)"
  shows "\<exists>cs. nanotorrent_select_update_have a b s = Some (s\<lparr>piece_counts := cs\<rparr>) \<and>
    length cs = length (piece_counts s) \<and> counts_ok (unat (num_pieces (the_info s))) cs (b # hs)"
proof -
  let ?n = "unat (num_pieces (the_info s))"
  have l: "?n \<le> length (piece_counts s)" and c: "\<And>j. j < ?n \<Longrightarrow> piece_counts s ! j = of_nat (have_count (a # hs) j)"
    using assms by (simp_all add: counts_ok_def)
  from update_have_nth [OF l, of a b] obtain cs where
    u: "nanotorrent_select_update_have a b s = Some (s\<lparr>piece_counts := cs\<rparr>)" "length cs = length (piece_counts s)"
      "\<And>j. j < ?n \<Longrightarrow> cs ! j = piece_counts s ! j + of_bool (j \<in> bits b) - of_bool (j \<in> bits a)"
    by blast
  have "cs ! j = of_nat (have_count (b # hs) j)" if "j < ?n" for j
    using u(3) [OF that] c [OF that] by simp
  with u l show ?thesis
    by (auto simp: counts_ok_def)
qed

section \<open>The rarest piece\<close>

definition is_rarest :: "u8 list \<Rightarrow> nat set \<Rightarrow> nat \<Rightarrow> bool" where
  "is_rarest cs S i \<longleftrightarrow> i \<in> S \<and> (\<forall>j \<in> S. cs ! i \<le> cs ! j \<and> (j < i \<longrightarrow> cs ! i < cs ! j))"

lemma rarest_loop_outcome:
  assumes "i + k \<le> length cs"
  shows "\<exists>r. rarest_loop x cs i k ri rc = Some r \<and>
    (let S = {j \<in> bits x. i \<le> j \<and> j < i + k \<and> cs ! j < rc} in if S = {} then r = ri else is_rarest cs S r)"
  using assms
proof (induction k arbitrary: i ri rc)
  case 0
  then show ?case by simp
next
  case (Suc k)
  let ?S = "\<lambda>i k rc. {j \<in> bits x. i \<le> j \<and> j < i + k \<and> cs ! j < rc}"
  have l: "Suc i + k \<le> length cs"
    using Suc.prems by simp
  show ?case
  proof (cases "i \<in> bits x \<and> cs ! i < rc")
    case False
    then have "?S i (Suc k) rc = ?S (Suc i) k rc"
      by (auto intro!: Suc_leI le_neq_implies_less)
    moreover have "rarest_loop x cs i (Suc k) ri rc = rarest_loop x cs (Suc i) k ri rc"
      using False Suc.prems by (simp add: bits_get)
    ultimately show ?thesis
      using Suc.IH [OF l, of ri rc] by simp
  next
    case True
    then have e: "rarest_loop x cs i (Suc k) ri rc = rarest_loop x cs (Suc i) k i (cs ! i)"
      using Suc.prems by (simp add: bits_get)
    have iS: "i \<in> ?S i (Suc k) rc"
      using True by simp
    from Suc.IH [OF l, of i "cs ! i"] obtain r where r: "rarest_loop x cs (Suc i) k i (cs ! i) = Some r"
      "if ?S (Suc i) k (cs ! i) = {} then r = i else is_rarest cs (?S (Suc i) k (cs ! i)) r"
      by (auto simp: Let_def)
    have "is_rarest cs (?S i (Suc k) rc) r"
    proof (cases "?S (Suc i) k (cs ! i) = {}")
      case none: True
      then have ri: "r = i"
        using r(2) by simp
      have "cs ! i \<le> cs ! j \<and> \<not> j < i" if "j \<in> ?S i (Suc k) rc" for j
        using that none by (cases "j = i") (auto simp: not_less Suc_le_eq le_neq_implies_less)
      then show ?thesis
        using iS by (auto simp: is_rarest_def ri)
    next
      case False
      then have m: "is_rarest cs (?S (Suc i) k (cs ! i)) r"
        using r(2) by (simp only: if_False)
      have rS: "r \<in> ?S i (Suc k) rc" and ri: "cs ! r < cs ! i" "i < r"
        using m True by (auto simp: is_rarest_def)
      have "cs ! r \<le> cs ! j \<and> (j < r \<longrightarrow> cs ! r < cs ! j)" if j: "j \<in> ?S i (Suc k) rc" for j
      proof (cases "j \<in> ?S (Suc i) k (cs ! i)")
        case True
        then show ?thesis
          using m by (auto simp: is_rarest_def)
      next
        case False
        then have "cs ! i \<le> cs ! j"
          using j by (cases "j = i") (auto simp: not_less)
        then show ?thesis
          using ri by auto
      qed
      then show ?thesis
        using rS by (auto simp: is_rarest_def)
    qed
    then show ?thesis
      using e r(1) iS by (auto simp: Let_def)
  qed
qed

definition picks :: "u8 list \<Rightarrow> nat \<Rightarrow> nat set \<Rightarrow> u8 option \<Rightarrow> bool" where
  "picks cs n S r \<longleftrightarrow> (\<exists>i. r = Some (of_nat i) \<and>
    (if S \<inter> {..<n} = {} then i = 0 else is_rarest cs (S \<inter> {..<n}) i))"

lemma rarest_picks:
  assumes "n \<le> length cs" "\<forall>j < n. cs ! j < 0xFF"
  shows "\<exists>r. map_option (\<lambda>i. Some (of_nat i)) (rarest_loop x cs 0 n 0 0xFF) = Some r \<and> picks cs n (bits x) r"
proof -
  have e: "{j \<in> bits x. 0 \<le> j \<and> j < 0 + n \<and> cs ! j < 0xFF} = bits x \<inter> {..<n}"
    using assms(2) by auto
  obtain r where "rarest_loop x cs 0 n 0 0xFF = Some r"
      "if bits x \<inter> {..<n} = {} then r = 0 else is_rarest cs (bits x \<inter> {..<n}) r"
    using rarest_loop_outcome [of 0 n cs x 0 "0xFF"] assms(1) unfolding Let_def e by auto
  then show ?thesis
    unfolding picks_def by (intro exI [of _ "Some (of_nat r)"] conjI exI [of _ r]) simp_all
qed

lemma picks_less: "picks cs n S (Some i) \<Longrightarrow> n \<le> 32 \<Longrightarrow> unat i < n \<or> i = 0"
  by (auto simp: picks_def is_rarest_def unat_of_nat split: if_splits)

lemma select_next_total:
  assumes "unat (num_pieces (the_info s)) \<le> length (piece_counts s)" "unat (num_pieces (the_info s)) \<le> 32"
  shows "\<exists>r. nanotorrent_select_next conn s = Some r \<and> (\<forall>i. r = Some i \<longrightarrow> unat i < unat (num_pieces (the_info s)) \<or> i = 0)"
proof -
  let ?n = "unat (num_pieces (the_info s))"
  have r: "\<exists>r. rarest_loop x (piece_counts s) 0 ?n 0 0xFF = Some r \<and> (r < ?n \<or> r = 0)" for x
  proof -
    define S where "S = {j \<in> bits x. 0 \<le> j \<and> j < 0 + ?n \<and> piece_counts s ! j < 0xFF}"
    have "\<exists>r. rarest_loop x (piece_counts s) 0 ?n 0 0xFF = Some r \<and> (if S = {} then r = 0 else is_rarest (piece_counts s) S r)"
      using rarest_loop_outcome [of 0 ?n "piece_counts s" x 0 "0xFF"] assms(1) unfolding Let_def S_def by simp
    moreover have "is_rarest (piece_counts s) S r \<Longrightarrow> r < ?n" for r
      by (auto simp: is_rarest_def S_def)
    ultimately show ?thesis
      by (auto split: if_splits)
  qed
  have u: "r < ?n \<or> r = 0 \<Longrightarrow> unat (of_nat r :: u8) < ?n \<or> (of_nat r :: u8) = 0" for r
    using assms(2) by (auto simp: unat_of_nat)
  show ?thesis
    using r [of "nanotorrent_peer_interesting conn s"] r [of "nanotorrent_peer_interesting_endgame conn s"] u
    unfolding nanotorrent_select_next_def Let_def by auto
qed

lemma interesting_bits:
  "bits (nanotorrent_peer_interesting conn s) = bits (conn_have conn) - bits (own_have s) - bits (pending_pieces s)"
  "bits (nanotorrent_peer_interesting_endgame conn s) = bits (conn_have conn) - bits (own_have s)"
  by (simp_all add: nanotorrent_peer_interesting_def nanotorrent_peer_interesting_endgame_def
      nanotorrent_piece_have_def bits_diff)

lemma select_next_outcome:
  assumes "unat (num_pieces (the_info s)) \<le> length (piece_counts s)" "unat (num_pieces (the_info s)) \<le> 32"
    and "\<forall>j < unat (num_pieces (the_info s)). piece_counts s ! j < 0xFF"
    and F: "F = bits (conn_have conn) - bits (own_have s) - bits (pending_pieces s)"
    and M: "M = bits (conn_have conn) - bits (own_have s)"
  shows "\<exists>r. nanotorrent_select_next conn s = Some r \<and>
    (if F \<noteq> {} then picks (piece_counts s) (unat (num_pieces (the_info s))) F r
     else if 4 * unat (num_pieces (the_info s)) \<le> 5 * card (bits (own_have s)) \<and> M \<noteq> {}
     then picks (piece_counts s) (unat (num_pieces (the_info s))) M r
     else r = None)"
proof -
  let ?x = "nanotorrent_peer_interesting conn s" and ?y = "nanotorrent_peer_interesting_endgame conn s"
  have x: "bits ?x = F" "?x = 0 \<longleftrightarrow> F = {}" and y: "bits ?y = M" "?y = 0 \<longleftrightarrow> M = {}"
    unfolding bits_empty_iff [symmetric] interesting_bits F M by blast+
  show ?thesis
    using rarest_picks [OF assms(1,3), of ?x] rarest_picks [OF assms(1,3), of ?y] is_endgame_iff [OF assms(2)]
    unfolding nanotorrent_select_next_def Let_def x y by simp
qed

section \<open>Properties\<close>

text \<open>
  For the witnesses: two connected peers, one with all the three pieces of the demonstration file, one with the
  first two, and no piece complete here.
\<close>

definition demo_conn :: "u8 \<Rightarrow> u32 \<Rightarrow> sim_timer nanotorrent_peer_conn" where
  "demo_conn ip h = \<lparr>conn_peer_info = \<lparr>peer_ip = replicate 15 0 @ [ip]\<rparr>, conn_have = h, conn_heartbeat = (0, 100),
     has_request = False, request_index = 0, request_offset = 0,
     request_retry = demo_retry\<lparr>rt_again_callback := nanotorrent_peer_request_retry_again,
       rt_stop_callback := nanotorrent_peer_request_retry_stop\<rparr>\<rparr>"

definition demo_peer_state :: "(sim_file, sim_memb, sim_timer) peer_state" where
  "demo_peer_state = \<lparr>now = 0, outputs = [], info_hash = replicate 20 1, file_name = ''f'',
     desc = \<lparr>tracker_ip = replicate 16 0, tracker_port = 1, desc_info = demo_info\<rparr>,
     own_file = 0, own_have = 0, files = (replicate 700 7, 0), piece_counts = [2, 2, 1] @ replicate 29 0,
     conns = (\<lambda>c. if c = 0 then demo_conn 0 7 else if c = 5 then demo_conn 5 3 else demo_conn 9 0), peers = [5, 0],
     peers_in = (0, 5, [0]), peers_out = (5, 5, [5]), pending_pieces = 0, heartbeat = (0, 0),
     heartbeat_delay = 0, posted_seeding_event = False\<rparr>"

lemma demo_peer_simps [simp]:
  "desc demo_peer_state = \<lparr>tracker_ip = replicate 16 0, tracker_port = 1, desc_info = demo_info\<rparr>"
  "own_have demo_peer_state = 0" "piece_counts demo_peer_state = [2, 2, 1] @ replicate 29 0"
  "pending_pieces demo_peer_state = 0" "num_pieces demo_info = 3"
  by (simp_all add: demo_peer_state_def demo_info_def)

lemma bits_numeral_code: "bits x = set (filter (bit x) [0..<32])"
  by (auto simp: bits_def dest: bit_imp_le_length)

lemma bits_3: "bits 3 = {0, 1}" and bits_7: "bits 7 = {0, 1, 2}" and bits_8: "bits 8 = {3}"
  unfolding bits_numeral_code by (simp_all add: upt_rec bit_numeral_rec numeral_2_eq_2 numeral_3_eq_3)

text \<open>
  C17: the selection asks for the rarest piece. When the peer has a piece that is neither complete here nor
  already requested, the piece with the fewest owners is selected, the lowest index among equals. When
  all such pieces are requested already, a missing piece is selected once more, by the same rule, but only in
  the end game: when at least four fifths of the pieces are complete (the comparison is in single precision
  in the code). Otherwise nothing is selected. The peer has announced pieces of the torrent only; \<open>select_next_stray_bits\<close>
  shows what happens when it has not.
\<close>

theorem select_next_rarest:
  assumes "unat (num_pieces (the_info s)) \<le> length (piece_counts s)" "unat (num_pieces (the_info s)) \<le> 32"
    and "\<forall>j < unat (num_pieces (the_info s)). piece_counts s ! j < 0xFF"
    and "bits (conn_have conn) \<subseteq> {..<unat (num_pieces (the_info s))}"
  shows "let missing = bits (conn_have conn) - bits (own_have s); fresh = missing - bits (pending_pieces s);
         endgame = 4 * unat (num_pieces (the_info s)) \<le> 5 * card (bits (own_have s));
         S = (if fresh \<noteq> {} then fresh else if endgame then missing else {})
     in if S = {} then nanotorrent_select_next conn s = Some None
        else \<exists>i. is_rarest (piece_counts s) S i \<and> nanotorrent_select_next conn s = Some (Some (of_nat i))"
proof -
  define M F where M: "M = bits (conn_have conn) - bits (own_have s)"
    and F: "F = bits (conn_have conn) - bits (own_have s) - bits (pending_pieces s)"
  have i: "M \<inter> {..<unat (num_pieces (the_info s))} = M" "F \<inter> {..<unat (num_pieces (the_info s))} = F"
    using assms(4) by (auto simp: M F)
  have FM: "M - bits (pending_pieces s) = F"
    by (simp add: M F)
  from select_next_outcome [OF assms(1-3) F M] show ?thesis
    unfolding Let_def picks_def i M [symmetric] FM by (auto split: if_splits)
qed

theorem select_next_rarest_witness: "nanotorrent_select_next (demo_conn 0 7) demo_peer_state = Some (Some 2)"
proof -
  have c: "\<forall>j < 3. ([2, 2, 1] @ replicate 29 0 :: u8 list) ! j < 0xFF"
    by (simp add: numeral_3_eq_3 less_Suc_eq all_conj_distrib)
  have r: "is_rarest ([2, 2, 1] @ replicate 29 0) {0, 1, 2} i \<Longrightarrow> i = 2" for i
    by (auto simp: is_rarest_def word_le_nat_alt)
  have "\<exists>i. is_rarest ([2, 2, 1] @ replicate 29 0) {0, 1, 2} i \<and>
      nanotorrent_select_next (demo_conn 0 7) demo_peer_state = Some (Some (of_nat i))"
    using select_next_rarest [of demo_peer_state "demo_conn 0 7"] c
    by (simp add: bits_7 demo_conn_def) 
  then obtain i where i: "is_rarest ([2, 2, 1] @ replicate 29 0) {0, 1, 2} i"
      "nanotorrent_select_next (demo_conn 0 7) demo_peer_state = Some (Some (of_nat i))"
    by blast
  show ?thesis
    using i(2) unfolding r [OF i(1)] by simp
qed

text \<open>
  Pieces that do not exist. The code does not mask the bit vector a peer announces: when the only bits that
  are missing here lie at or above the number of pieces, the selection does not refuse but asks for piece 0,
  even when piece 0 is complete or requested already.
\<close>

theorem select_next_stray_bits:
  assumes "unat (num_pieces (the_info s)) \<le> length (piece_counts s)" "unat (num_pieces (the_info s)) \<le> 32"
    and "\<forall>j < unat (num_pieces (the_info s)). piece_counts s ! j < 0xFF"
    and "bits (conn_have conn) - bits (own_have s) - bits (pending_pieces s) \<noteq> {}"
    and "\<forall>j \<in> bits (conn_have conn) - bits (own_have s) - bits (pending_pieces s). unat (num_pieces (the_info s)) \<le> j"
  shows "nanotorrent_select_next conn s = Some (Some 0)"
proof -
  define F where F: "F = bits (conn_have conn) - bits (own_have s) - bits (pending_pieces s)"
  have "F \<inter> {..<unat (num_pieces (the_info s))} = {}"
    using assms(5) unfolding F [symmetric] by (auto simp: not_less [symmetric])
  then show ?thesis
    using select_next_outcome [OF assms(1-3) F refl] assms(4) by (auto simp: picks_def F [symmetric])
qed

theorem select_next_stray_bits_witness:
  "nanotorrent_select_next (demo_conn 0 8) demo_peer_state = Some (Some 0)"
proof -
  have c: "\<forall>j < 3. ([2, 2, 1] @ replicate 29 0 :: u8 list) ! j < 0xFF"
    by (simp add: numeral_3_eq_3 less_Suc_eq all_conj_distrib)
  show ?thesis
    using c by (intro select_next_stray_bits) (simp_all add: bits_8 demo_conn_def)
qed

text \<open>
  C18: the piece counts are the histogram of the connected peers' bit vectors. When they count the vectors
  \<open>a # hs\<close> (modulo 256), the update that replaces one vector \<open>a\<close> by \<open>b\<close> makes them count \<open>b # hs\<close>, stays inside the
  array and changes nothing else.
\<close>

theorem select_update_have_counts:
  assumes "counts_ok (unat (num_pieces (the_info s))) (piece_counts s) (a # hs)"
  shows "\<exists>cs. nanotorrent_select_update_have a b s = Some (s\<lparr>piece_counts := cs\<rparr>) \<and>
    length cs = length (piece_counts s) \<and> counts_ok (unat (num_pieces (the_info s))) cs (b # hs)"
  using assms by (rule update_have_counts)

theorem select_update_have_counts_witness:
  "\<exists>cs. nanotorrent_select_update_have 3 0 demo_peer_state = Some (demo_peer_state\<lparr>piece_counts := cs\<rparr>) \<and>
    counts_ok 3 cs [0, 7]"
proof -
  have "counts_ok 3 ([2, 2, 1] @ replicate 29 0) [3, 7]"
    by (simp add: counts_ok_def bits_7 bits_3 numeral_3_eq_3 less_Suc_eq all_conj_distrib)
  then show ?thesis
    using select_update_have_counts [of demo_peer_state 3 "[7]" 0] by auto
qed

end
