(* ===== verification/Peer.thy ===== *)
theory Peer
  imports Select
begin

text \<open>
  \<^verbatim>\<open>peer/peer.h\<close> and \<^verbatim>\<open>peer/peer.c\<close>: connections with peers, requests for pieces, messages and the
  peer process. The configuration is the default one, with the tracker and with the link-local
  optimisations.

  A connection is a natural number, the pointer to its structure. The functions take the state last and
  return it after their result; \<open>None\<close> is an execution without a defined result: a null pointer
  dereference, an access outside an array or a loop that does not end. Local buffers are zero where the code leaves them
  uninitialised, the hash context of \<^verbatim>\<open>nanotorrent_peer_receive_data\<close> is an argument.
\<close>

section \<open>Configuration\<close>

definition NANOTORRENT_PEER_PORT :: nat where
  "NANOTORRENT_PEER_PORT = 4242"

definition NANOTORRENT_MAX_PEER_RETRIES :: u8 where
  "NANOTORRENT_MAX_PEER_RETRIES = 3"

text \<open>Times are stored as \<^verbatim>\<open>clock_time_t\<close>.\<close>

definition clock_time :: "('f, 'm, 't) contiki \<Rightarrow> nat \<Rightarrow> nat" where
  "clock_time K n = n mod 2 ^ clock_bits K"

definition NANOTORRENT_PEER_RETRY_TIMEOUT :: "('f, 'm, 't) contiki \<Rightarrow> nat" where
  "NANOTORRENT_PEER_RETRY_TIMEOUT K = clock_time K (1 * clock_second K)"

definition NANOTORRENT_PEER_HEARTBEAT_PERIOD :: "('f, 'm, 't) contiki \<Rightarrow> nat" where
  "NANOTORRENT_PEER_HEARTBEAT_PERIOD K = clock_time K (15 * clock_second K)"

definition NANOTORRENT_PEER_HEARTBEAT_TIMEOUT :: "('f, 'm, 't) contiki \<Rightarrow> nat" where
  "NANOTORRENT_PEER_HEARTBEAT_TIMEOUT K = clock_time K (3 * (15 * clock_second K))"

definition NANOTORRENT_MAX_OUT_PEERS :: nat where
  "NANOTORRENT_MAX_OUT_PEERS = 5"

definition NANOTORRENT_MAX_IN_PEERS :: nat where
  "NANOTORRENT_MAX_IN_PEERS = NANOTORRENT_MAX_OUT_PEERS"

definition NANOTORRENT_PEER_CLOSE :: u8 where "NANOTORRENT_PEER_CLOSE = 0"
definition NANOTORRENT_PEER_HAVE :: u8 where "NANOTORRENT_PEER_HAVE = 1"
definition NANOTORRENT_PEER_DATA_REQUEST :: u8 where "NANOTORRENT_PEER_DATA_REQUEST = 2"
definition NANOTORRENT_PEER_DATA_REPLY :: u8 where "NANOTORRENT_PEER_DATA_REPLY = 3"

section \<open>Connections\<close>

definition set_conn :: "nat \<Rightarrow> ('t nanotorrent_peer_conn \<Rightarrow> 't nanotorrent_peer_conn) \<Rightarrow>
    ('f, 'm, 't, 'a) peer_state_scheme \<Rightarrow> ('f, 'm, 't, 'a) peer_state_scheme" where
  "set_conn c g s = s\<lparr>conns := (conns s)(c := g (conns s c))\<rparr>"

definition nanotorrent_peer_init :: "('f, 'm, 't) contiki \<Rightarrow>
    ('f, 'm, 't, 'a) peer_state_scheme \<Rightarrow> ('f, 'm, 't, 'a) peer_state_scheme" where
  "nanotorrent_peer_init K s =
    (let s = s\<lparr>peers := []\<rparr>;
         s = s\<lparr>peers_in := memb_init K (peers_in s)\<rparr>;
         s = s\<lparr>peers_out := memb_init K (peers_out s)\<rparr>;
         s = emit (UdpClose PeerSocket) s;
         s = emit (UdpRegister PeerSocket) s;
         s = emit (UdpBind PeerSocket NANOTORRENT_PEER_PORT) s;
         s = s\<lparr>heartbeat_delay := NANOTORRENT_PEER_HEARTBEAT_PERIOD K\<rparr>;
         s = s\<lparr>heartbeat := etimer_stop K (heartbeat s)\<rparr>
     in s\<lparr>posted_seeding_event := False\<rparr>)"

definition nanotorrent_peer_shutdown :: "('f, 'm, 't) contiki \<Rightarrow>
    ('f, 'm, 't, 'a) peer_state_scheme \<Rightarrow> ('f, 'm, 't, 'a) peer_state_scheme" where
  "nanotorrent_peer_shutdown K s =
    (let s = emit (UdpClose PeerSocket) s
     in s\<lparr>heartbeat := etimer_stop K (heartbeat s)\<rparr>)"

definition nanotorrent_peer_start :: "'a env_scheme \<Rightarrow> 'a env_scheme" where
  "nanotorrent_peer_start s = emit (ProcessStart PeerProcess) s"

definition nanotorrent_peer_stop :: "'a env_scheme \<Rightarrow> 'a env_scheme" where
  "nanotorrent_peer_stop s = emit (ProcessExit PeerProcess) s"

definition nanotorrent_peer_post_event :: "'a env_scheme \<Rightarrow> 'a env_scheme" where
  "nanotorrent_peer_post_event s = emit (ProcessPost MainProcess peer_event) s"

definition nanotorrent_peer_count :: "('f, 'm, 't, 'a) peer_state_scheme \<Rightarrow> u8" where
  "nanotorrent_peer_count s = of_nat (length (peers s))"

definition nanotorrent_peer_info_cmp :: "('f, 'm, 't) contiki \<Rightarrow> nanotorrent_peer_info \<Rightarrow> nanotorrent_peer_info \<Rightarrow> bool" where
  "nanotorrent_peer_info_cmp K a b = ip6addr_cmp K (peer_ip a) (peer_ip b)"

definition nanotorrent_peer_find :: "('f, 'm, 't) contiki \<Rightarrow> nanotorrent_peer_info \<Rightarrow>
    ('f, 'm, 't, 'a) peer_state_scheme \<Rightarrow> nat option" where
  "nanotorrent_peer_find K peer s =
    List.find (\<lambda>c. nanotorrent_peer_info_cmp K peer (conn_peer_info (conns s c))) (peers s)"

definition nanotorrent_peer_free :: "('f, 'm, 't) contiki \<Rightarrow> nat \<Rightarrow>
    ('f, 'm, 't, 'a) peer_state_scheme \<Rightarrow> ('f, 'm, 't, 'a) peer_state_scheme" where
  "nanotorrent_peer_free K c s =
    (if memb_inmemb K (peers_in s) c then s\<lparr>peers_in := memb_free K c (peers_in s)\<rparr>
     else if memb_inmemb K (peers_out s) c then s\<lparr>peers_out := memb_free K c (peers_out s)\<rparr>
     else s)"

definition nanotorrent_peer_add :: "('f, 'm, 't) contiki \<Rightarrow> nat \<Rightarrow>
    ('f, 'm, 't, 'a) peer_state_scheme \<Rightarrow> ('f, 'm, 't, 'a) peer_state_scheme" where
  "nanotorrent_peer_add K c s =
    (let s = set_conn c (\<lambda>x. x\<lparr>conn_have := 0\<rparr>) s;
         s = set_conn c (\<lambda>x. x\<lparr>has_request := False\<rparr>) s;
         s = set_conn c (\<lambda>x. x\<lparr>request_retry := nanotorrent_retry_init K (request_retry x)
               (NANOTORRENT_PEER_RETRY_TIMEOUT K) nanotorrent_peer_request_retry_again
               nanotorrent_peer_request_retry_stop\<rparr>) s;
         s = set_conn c (\<lambda>x. x\<lparr>conn_heartbeat :=
               etimer_set K (now s) (NANOTORRENT_PEER_HEARTBEAT_TIMEOUT K) (conn_heartbeat x)\<rparr>) s
     in s\<lparr>peers := list_push K c (peers s)\<rparr>)"

section \<open>Requests\<close>

definition nanotorrent_peer_has_request :: "u8 \<Rightarrow> ('f, 'm, 't, 'a) peer_state_scheme \<Rightarrow> bool" where
  "nanotorrent_peer_has_request i s = nanotorrent_bitset_get (pending_pieces s) (unat i)"

definition nanotorrent_peer_find_first_request :: "u8 \<Rightarrow> ('f, 'm, 't, 'a) peer_state_scheme \<Rightarrow> nat option" where
  "nanotorrent_peer_find_first_request i s =
    List.find (\<lambda>c. has_request (conns s c) \<and> request_index (conns s c) = i) (peers s)"

text \<open>The loop over the peers list, with the first match so far.\<close>

fun find_request :: "('f, 'm, 't) contiki \<Rightarrow> nanotorrent_peer_info \<Rightarrow> u8 \<Rightarrow> (nat \<Rightarrow> 't nanotorrent_peer_conn) \<Rightarrow>
    nat list \<Rightarrow> nat option \<Rightarrow> nat option" where
  "find_request K peer i m [] first_match = first_match"
| "find_request K peer i m (c # cs) first_match =
    (if has_request (m c) \<and> request_index (m c) = i then
       (if nanotorrent_peer_info_cmp K (conn_peer_info (m c)) peer then Some c
        else if first_match = None then find_request K peer i m cs (Some c)
        else find_request K peer i m cs first_match)
     else find_request K peer i m cs first_match)"

definition nanotorrent_peer_find_request :: "('f, 'm, 't) contiki \<Rightarrow> nanotorrent_peer_info \<Rightarrow> u8 \<Rightarrow>
    ('f, 'm, 't, 'a) peer_state_scheme \<Rightarrow> nat option" where
  "nanotorrent_peer_find_request K peer i s = find_request K peer i (conns s) (peers s) None"

definition nanotorrent_peer_request_init :: "('f, 'm, 't) contiki \<Rightarrow> nat \<Rightarrow>
    ('f, 'm, 't, 'a) peer_state_scheme \<Rightarrow> ('f, 'm, 't, 'a) peer_state_scheme" where
  "nanotorrent_peer_request_init K c s =
    (let s = set_conn c (\<lambda>x. x\<lparr>has_request := True\<rparr>) s
     in s\<lparr>pending_pieces := nanotorrent_bitset_set (int_bits K) (pending_pieces s) (unat (request_index (conns s c)))\<rparr>)"

definition nanotorrent_peer_request_stop_partial :: "('f, 'm, 't) contiki \<Rightarrow> nat \<Rightarrow>
    ('f, 'm, 't, 'a) peer_state_scheme \<Rightarrow> ('f, 'm, 't, 'a) peer_state_scheme" where
  "nanotorrent_peer_request_stop_partial K c s =
    (let s = set_conn c (\<lambda>x. x\<lparr>has_request := False\<rparr>) s
     in set_conn c (\<lambda>x. x\<lparr>request_retry := nanotorrent_retry_stop K (request_retry x)\<rparr>) s)"

definition nanotorrent_peer_request_stop :: "('f, 'm, 't) contiki \<Rightarrow> nat \<Rightarrow>
    ('f, 'm, 't, 'a) peer_state_scheme \<Rightarrow> ('f, 'm, 't, 'a) peer_state_scheme" where
  "nanotorrent_peer_request_stop K c s =
    (let had_request = has_request (conns s c);
         i = request_index (conns s c);
         s = nanotorrent_peer_request_stop_partial K c s
     in if \<not> had_request then s
        else if nanotorrent_peer_find_first_request i s \<noteq> None then
          s\<lparr>pending_pieces := nanotorrent_bitset_set (int_bits K) (pending_pieces s) (unat i)\<rparr>
        else
          s\<lparr>pending_pieces := nanotorrent_bitset_clear (int_bits K) (pending_pieces s) (unat i)\<rparr>)"

definition nanotorrent_peer_request_stop_all :: "('f, 'm, 't) contiki \<Rightarrow> u8 \<Rightarrow>
    ('f, 'm, 't, 'a) peer_state_scheme \<Rightarrow> ('f, 'm, 't, 'a) peer_state_scheme" where
  "nanotorrent_peer_request_stop_all K i s =
    (let s = fold (\<lambda>c s. if has_request (conns s c) \<and> request_index (conns s c) = i
                     then nanotorrent_peer_request_stop_partial K c s else s) (peers s) s
     in s\<lparr>pending_pieces := nanotorrent_bitset_clear (int_bits K) (pending_pieces s) (unat i)\<rparr>)"

section \<open>Sending messages\<close>

text \<open>
  The buffers have the size of the message's structure, \<open>25\<close> and \<open>28\<close> bytes when the compiler does not pad
  it, which is enough for the packed message.
\<close>

definition nanotorrent_peer_send_message :: "u8 list \<Rightarrow> u16 \<Rightarrow> nanotorrent_peer_info \<Rightarrow> 'a env_scheme \<Rightarrow> 'a env_scheme" where
  "nanotorrent_peer_send_message buffer buffer_length peer s =
    emit (UdpSendTo PeerSocket (take (unat buffer_length) buffer) (peer_ip peer) NANOTORRENT_PEER_PORT) s"

definition nanotorrent_peer_make_header :: "u8 \<Rightarrow> ('f, 'm, 't, 'a) peer_state_scheme \<Rightarrow> nanotorrent_peer_message_header" where
  "nanotorrent_peer_make_header ty s =
    \<lparr>msg_type = ty, msg_info_hash = info_hash s, msg_have = nanotorrent_piece_have s\<rparr>"

definition nanotorrent_peer_send_close :: "nanotorrent_peer_info \<Rightarrow>
    ('f, 'm, 't, 'a) peer_state_scheme \<Rightarrow> ('f, 'm, 't, 'a) peer_state_scheme option" where
  "nanotorrent_peer_send_close peer s = do {
     let message = \<lparr>close_header = nanotorrent_peer_make_header NANOTORRENT_PEER_CLOSE s\<rparr>;
     (buffer, n) \<leftarrow> nanotorrent_pack_peer_close message (replicate 25 0, 0);
     Some (nanotorrent_peer_send_message buffer (of_nat n) peer s) }"

definition nanotorrent_peer_send_have :: "nanotorrent_peer_info \<Rightarrow>
    ('f, 'm, 't, 'a) peer_state_scheme \<Rightarrow> ('f, 'm, 't, 'a) peer_state_scheme option" where
  "nanotorrent_peer_send_have peer s = do {
     let message = \<lparr>have_header = nanotorrent_peer_make_header NANOTORRENT_PEER_HAVE s\<rparr>;
     (buffer, n) \<leftarrow> nanotorrent_pack_peer_have message (replicate 25 0, 0);
     Some (nanotorrent_peer_send_message buffer (of_nat n) peer s) }"

definition nanotorrent_peer_is_local :: "('f, 'm, 't) contiki \<Rightarrow> nanotorrent_peer_info \<Rightarrow> bool" where
  "nanotorrent_peer_is_local K peer = is_addr_linklocal K (peer_ip peer)"

definition nanotorrent_peer_send_local_multicast :: "('f, 'm, 't) contiki \<Rightarrow> u8 list \<Rightarrow> u16 \<Rightarrow> 'a env_scheme \<Rightarrow> 'a env_scheme" where
  "nanotorrent_peer_send_local_multicast K buffer buffer_length s =
    emit (UdpSendTo PeerSocket (take (unat buffer_length) buffer) (linklocal_allnodes_mcast K) NANOTORRENT_PEER_PORT) s"

definition nanotorrent_peer_send_have_local_multicast :: "('f, 'm, 't) contiki \<Rightarrow>
    ('f, 'm, 't, 'a) peer_state_scheme \<Rightarrow> ('f, 'm, 't, 'a) peer_state_scheme option" where
  "nanotorrent_peer_send_have_local_multicast K s = do {
     let message = \<lparr>have_header = nanotorrent_peer_make_header NANOTORRENT_PEER_HAVE s\<rparr>;
     (buffer, n) \<leftarrow> nanotorrent_pack_peer_have message (replicate 25 0, 0);
     Some (nanotorrent_peer_send_local_multicast K buffer (of_nat n) s) }"

definition nanotorrent_peer_send_data_request :: "nanotorrent_peer_info \<Rightarrow> u8 \<Rightarrow> u16 \<Rightarrow>
    ('f, 'm, 't, 'a) peer_state_scheme \<Rightarrow> ('f, 'm, 't, 'a) peer_state_scheme option" where
  "nanotorrent_peer_send_data_request peer i start s = do {
     let request = \<lparr>data_header = nanotorrent_peer_make_header NANOTORRENT_PEER_DATA_REQUEST s,
       piece_index = i, data_start = start\<rparr>;
     (buffer, n) \<leftarrow> nanotorrent_pack_peer_data request (replicate 28 0, 0);
     Some (nanotorrent_peer_send_message buffer (of_nat n) peer s) }"

section \<open>Starting requests\<close>

definition request_retry_again :: "nat \<Rightarrow> ('f, 'm, 't, 'a) peer_state_scheme \<Rightarrow> ('f, 'm, 't, 'a) peer_state_scheme option" where
  "request_retry_again c s =
    (let conn = conns s c in
     if \<not> has_request conn then Some s
     else nanotorrent_peer_send_data_request (conn_peer_info conn) (request_index conn) (request_offset conn) s)"

text \<open>
  \<^verbatim>\<open>nanotorrent_retry_start\<close> with a positive number of retries calls the again callback at once. Connections have
  \<^verbatim>\<open>nanotorrent_peer_request_retry_again\<close> there (\<^verbatim>\<open>nanotorrent_peer_add\<close>); a call of any other callback, or with
  no data, has no result here, and the invariant of the component excludes it.
\<close>

definition nanotorrent_peer_request_start :: "('f, 'm, 't) contiki \<Rightarrow> nat \<Rightarrow>
    ('f, 'm, 't, 'a) peer_state_scheme \<Rightarrow> ('f, 'm, 't, 'a) peer_state_scheme option" where
  "nanotorrent_peer_request_start K c s =
    (let s = nanotorrent_peer_request_init K c s;
         (r, call) = nanotorrent_retry_start K (now s) (request_retry (conns s c)) NANOTORRENT_MAX_PEER_RETRIES (Some c);
         s = set_conn c (\<lambda>x. x\<lparr>request_retry := r\<rparr>) s
     in case call of
          None \<Rightarrow> Some s
        | Some (nanotorrent_peer_request_retry_again, Some d) \<Rightarrow> request_retry_again d s
        | Some _ \<Rightarrow> None)"

definition nanotorrent_peer_request_next :: "('f, 'm, 't) contiki \<Rightarrow> nat \<Rightarrow>
    ('f, 'm, 't, 'a) peer_state_scheme \<Rightarrow> (bool \<times> ('f, 'm, 't, 'a) peer_state_scheme) option" where
  "nanotorrent_peer_request_next K c s =
    (if has_request (conns s c) then Some (False, s)
     else if nanotorrent_piece_is_seed (int_bits K) s then Some (False, s)
     else do {
       next_piece \<leftarrow> nanotorrent_select_next (conns s c) s;
       (case next_piece of
          None \<Rightarrow> Some (False, s)
        | Some i \<Rightarrow> do {
            let s = set_conn c (\<lambda>x. x\<lparr>request_index := i\<rparr>) s;
            let s = set_conn c (\<lambda>x. x\<lparr>request_offset := 0\<rparr>) s;
            s \<leftarrow> nanotorrent_peer_request_start K c s;
            Some (True, s) }) })"

definition request_retry_stop :: "('f, 'm, 't) contiki \<Rightarrow> nat \<Rightarrow>
    ('f, 'm, 't, 'a) peer_state_scheme \<Rightarrow> ('f, 'm, 't, 'a) peer_state_scheme option" where
  "request_retry_stop K c s =
    (if \<not> has_request (conns s c) then Some s
     else map_option snd (nanotorrent_peer_request_next K c (nanotorrent_peer_request_stop K c s)))"

text \<open>Processing the retry of a connection, and the callback it calls.\<close>

definition process_request_retry :: "('f, 'm, 't) contiki \<Rightarrow> nat \<Rightarrow>
    ('f, 'm, 't, 'a) peer_state_scheme \<Rightarrow> ('f, 'm, 't, 'a) peer_state_scheme option" where
  "process_request_retry K c s =
    (let (r, call) = nanotorrent_retry_process K (now s) (request_retry (conns s c));
         s = set_conn c (\<lambda>x. x\<lparr>request_retry := r\<rparr>) s
     in case call of
          None \<Rightarrow> Some s
        | Some (nanotorrent_peer_request_retry_again, Some d) \<Rightarrow> request_retry_again d s
        | Some (nanotorrent_peer_request_retry_stop, Some d) \<Rightarrow> request_retry_stop K d s
        | Some _ \<Rightarrow> None)"

section \<open>Connecting and disconnecting\<close>

definition nanotorrent_peer_remove :: "('f, 'm, 't) contiki \<Rightarrow> nat \<Rightarrow>
    ('f, 'm, 't, 'a) peer_state_scheme \<Rightarrow> ('f, 'm, 't, 'a) peer_state_scheme option" where
  "nanotorrent_peer_remove K c s = do {
     let s = s\<lparr>peers := list_remove K c (peers s)\<rparr>;
     s \<leftarrow> nanotorrent_select_update_have (conn_have (conns s c)) 0 s;
     let s = set_conn c (\<lambda>x. x\<lparr>conn_have := 0\<rparr>) s;
     let s = nanotorrent_peer_request_stop K c s;
     Some (set_conn c (\<lambda>x. x\<lparr>conn_heartbeat := etimer_stop K (conn_heartbeat x)\<rparr>) s) }"

text \<open>The pool a connection is taken from is passed as a pointer in the code.\<close>

datatype pool = PeersIn | PeersOut

definition alloc_conn :: "('f, 'm, 't) contiki \<Rightarrow> pool \<Rightarrow>
    ('f, 'm, 't, 'a) peer_state_scheme \<Rightarrow> nat option \<times> ('f, 'm, 't, 'a) peer_state_scheme" where
  "alloc_conn K p s = (case p of
     PeersIn \<Rightarrow> (case memb_alloc K (peers_in s) of (c, m) \<Rightarrow> (c, s\<lparr>peers_in := m\<rparr>))
   | PeersOut \<Rightarrow> (case memb_alloc K (peers_out s) of (c, m) \<Rightarrow> (c, s\<lparr>peers_out := m\<rparr>)))"

definition nanotorrent_peer_connect_with :: "('f, 'm, 't) contiki \<Rightarrow> nanotorrent_peer_info \<Rightarrow> pool \<Rightarrow>
    ('f, 'm, 't, 'a) peer_state_scheme \<Rightarrow> nat option \<times> ('f, 'm, 't, 'a) peer_state_scheme" where
  "nanotorrent_peer_connect_with K peer p s =
    (case nanotorrent_peer_find K peer s of
       Some c \<Rightarrow> (Some c, s)
     | None \<Rightarrow>
         (case alloc_conn K p s of
            (None, s) \<Rightarrow> (None, s)
          | (Some c, s) \<Rightarrow>
              (let s = set_conn c (\<lambda>x. x\<lparr>conn_peer_info := peer\<rparr>) s
               in (Some c, nanotorrent_peer_add K c s))))"

definition nanotorrent_peer_connect :: "('f, 'm, 't) contiki \<Rightarrow> nanotorrent_peer_info \<Rightarrow>
    ('f, 'm, 't, 'a) peer_state_scheme \<Rightarrow> nat option \<times> ('f, 'm, 't, 'a) peer_state_scheme" where
  "nanotorrent_peer_connect K peer s = nanotorrent_peer_connect_with K peer PeersOut s"

definition nanotorrent_peer_accept :: "('f, 'm, 't) contiki \<Rightarrow> nanotorrent_peer_info \<Rightarrow>
    ('f, 'm, 't, 'a) peer_state_scheme \<Rightarrow> nat option \<times> ('f, 'm, 't, 'a) peer_state_scheme" where
  "nanotorrent_peer_accept K peer s = nanotorrent_peer_connect_with K peer PeersIn s"

definition nanotorrent_peer_force_disconnect_conn :: "('f, 'm, 't) contiki \<Rightarrow> nat \<Rightarrow>
    ('f, 'm, 't, 'a) peer_state_scheme \<Rightarrow> ('f, 'm, 't, 'a) peer_state_scheme option" where
  "nanotorrent_peer_force_disconnect_conn K c s = do {
     s \<leftarrow> nanotorrent_peer_remove K c s;
     let s = nanotorrent_peer_free K c s;
     Some (nanotorrent_peer_post_event s) }"

definition nanotorrent_peer_disconnect_conn :: "('f, 'm, 't) contiki \<Rightarrow> nat \<Rightarrow>
    ('f, 'm, 't, 'a) peer_state_scheme \<Rightarrow> ('f, 'm, 't, 'a) peer_state_scheme option" where
  "nanotorrent_peer_disconnect_conn K c s = do {
     s \<leftarrow> nanotorrent_peer_force_disconnect_conn K c s;
     nanotorrent_peer_send_close (conn_peer_info (conns s c)) s }"

definition nanotorrent_peer_force_disconnect :: "('f, 'm, 't) contiki \<Rightarrow> nanotorrent_peer_info \<Rightarrow>
    ('f, 'm, 't, 'a) peer_state_scheme \<Rightarrow> (bool \<times> ('f, 'm, 't, 'a) peer_state_scheme) option" where
  "nanotorrent_peer_force_disconnect K peer s =
    (case nanotorrent_peer_find K peer s of
       None \<Rightarrow> Some (False, s)
     | Some c \<Rightarrow> map_option (Pair True) (nanotorrent_peer_force_disconnect_conn K c s))"

definition nanotorrent_peer_disconnect :: "('f, 'm, 't) contiki \<Rightarrow> nanotorrent_peer_info \<Rightarrow>
    ('f, 'm, 't, 'a) peer_state_scheme \<Rightarrow> (bool \<times> ('f, 'm, 't, 'a) peer_state_scheme) option" where
  "nanotorrent_peer_disconnect K peer s =
    (case nanotorrent_peer_find K peer s of
       None \<Rightarrow> Some (False, s)
     | Some c \<Rightarrow> map_option (Pair True) (nanotorrent_peer_disconnect_conn K c s))"

definition nanotorrent_peer_update_have :: "('f, 'm, 't) contiki \<Rightarrow> nat \<Rightarrow> u32 \<Rightarrow>
    ('f, 'm, 't, 'a) peer_state_scheme \<Rightarrow> ('f, 'm, 't, 'a) peer_state_scheme option" where
  "nanotorrent_peer_update_have K c have s = do {
     let new_have = conn_have (conns s c) OR have;
     s \<leftarrow> nanotorrent_select_update_have (conn_have (conns s c)) new_have s;
     let s = set_conn c (\<lambda>x. x\<lparr>conn_have := new_have\<rparr>) s;
     Some (set_conn c (\<lambda>x. x\<lparr>conn_heartbeat := etimer_restart K (now s) (conn_heartbeat x)\<rparr>) s) }"

end
