(* ===== verification/Messages.thy ===== *)
theory Messages
  imports Peer
begin

text \<open>
  \<^verbatim>\<open>peer/peer.c\<close>, second part: receiving data, handling messages and the peer process. A received datagram
  is the list \<open>mem\<close> of the bytes from its first byte to the end of the network buffer, and the length
  \<open>datalen\<close> the network stack reports.
\<close>

section \<open>Receiving data\<close>

definition nanotorrent_peer_post_seeding :: "('f, 'm, 't) contiki \<Rightarrow>
    ('f, 'm, 't, 'a) peer_state_scheme \<Rightarrow> ('f, 'm, 't, 'a) peer_state_scheme" where
  "nanotorrent_peer_post_seeding K s =
    (if posted_seeding_event s then s
     else
       (let s = emit (ProcessPost PROCESS_BROADCAST seeding_event) s
        in if process_post_ok K (outputs s) then s\<lparr>posted_seeding_event := True\<rparr> else s))"

text \<open>
  The sum of two \<^verbatim>\<open>uint16_t\<close>: they are promoted to \<^verbatim>\<open>int\<close>, or, when \<^verbatim>\<open>int\<close> has 16 bits, added as unsigned 16-bit
  numbers.
\<close>

definition u16_sum :: "('f, 'm, 't) contiki \<Rightarrow> u16 \<Rightarrow> u16 \<Rightarrow> nat" where
  "u16_sum K a b = (if int_bits K \<le> 16 then unat (a + b) else unat a + unat b)"

text \<open>The inner option is the pointer the code returns.\<close>

definition nanotorrent_peer_data_receiver :: "('f, 'm, 't) contiki \<Rightarrow> nanotorrent_peer_info \<Rightarrow> u8 \<Rightarrow> u16 \<Rightarrow> u16 \<Rightarrow>
    ('f, 'm, 't, 'a) peer_state_scheme \<Rightarrow> (nat option \<times> ('f, 'm, 't, 'a) peer_state_scheme) option" where
  "nanotorrent_peer_data_receiver K peer i data_offset data_length s =
    (if nanotorrent_piece_is_complete i s then Some (None, s)
     else if nanotorrent_peer_has_request i s then
       (case nanotorrent_peer_find_request K peer i s of
          None \<Rightarrow> None
        | Some c \<Rightarrow>
            (if data_offset \<le> request_offset (conns s c) \<and>
                unat (request_offset (conns s c)) < u16_sum K data_offset data_length
             then Some (Some c, s) else Some (None, s)))
     else if data_offset = 0 then
       (case nanotorrent_peer_connect K peer s of
          (None, s) \<Rightarrow> Some (None, s)
        | (Some c, s) \<Rightarrow>
            (if has_request (conns s c) then Some (None, s)
             else
               (let s = set_conn c (\<lambda>x. x\<lparr>request_index := i\<rparr>) s;
                    s = set_conn c (\<lambda>x. x\<lparr>request_offset := data_offset\<rparr>) s;
                    s = nanotorrent_peer_request_init K c s
                in Some (Some c, s))))
     else Some (None, s))"

text \<open>\<^verbatim>\<open>-(int) heartbeat_delay\<close>\<close>

definition minus_delay :: "('f, 'm, 't) contiki \<Rightarrow> nat \<Rightarrow> int" where
  "minus_delay K d = - signed_take_bit (int_bits K - 1) (int d)"

definition nanotorrent_peer_receive_data :: "('f, 'm, 't) contiki \<Rightarrow> sha1_context \<Rightarrow> nat \<Rightarrow> u8 \<Rightarrow> u16 \<Rightarrow> u16 \<Rightarrow>
    ('f, 'm, 't, 'a) peer_state_scheme \<Rightarrow> ('f, 'm, 't, 'a) peer_state_scheme option" where
  "nanotorrent_peer_receive_data K context c i data_offset data_length s =
    (let psize = nanotorrent_piece_size i s;
         next_offset = data_offset + data_length in
     if next_offset < psize then
       (let s = set_conn c (\<lambda>x. x\<lparr>request_offset := next_offset\<rparr>) s
        in nanotorrent_peer_request_start K c s)
     else do {
       let s = nanotorrent_peer_request_stop K c s;
       (is_complete, context, s) \<leftarrow> nanotorrent_piece_verify K context i s;
       let s = nanotorrent_piece_set_complete (int_bits K) i is_complete s;
       Some (if is_complete then
               (let s = nanotorrent_peer_request_stop_all K i s;
                    s = s\<lparr>heartbeat_delay := heartbeat_delay s div 2\<rparr>;
                    s = s\<lparr>heartbeat := etimer_adjust K (minus_delay K (heartbeat_delay s)) (heartbeat s)\<rparr>;
                    s = nanotorrent_peer_post_event s
                in if nanotorrent_piece_is_seed (int_bits K) s then nanotorrent_peer_post_seeding K s else s)
             else s) })"

section \<open>Handling messages\<close>

text \<open>
  The inner option is the end of the reply in its buffer: \<open>None\<close> when nothing could be read. The offset is
  passed on to \<^verbatim>\<open>nanotorrent_piece_read\<close> as a \<^verbatim>\<open>uint8_t\<close>.
\<close>

definition nanotorrent_peer_write_data_reply :: "('f, 'm, 't) contiki \<Rightarrow> u8 list \<Rightarrow> u16 \<Rightarrow> u8 \<Rightarrow> u16 \<Rightarrow>
    ('f, 'm, 't, 'a) peer_state_scheme \<Rightarrow> ((u8 list \<times> nat) option \<times> ('f, 'm, 't, 'a) peer_state_scheme) option" where
  "nanotorrent_peer_write_data_reply K buf buffer_size i start s = do {
     let reply = \<lparr>data_header = nanotorrent_peer_make_header NANOTORRENT_PEER_DATA_REPLY s,
       piece_index = i, data_start = start\<rparr>;
     (buf, p) \<leftarrow> nanotorrent_pack_peer_data reply (buf, 0);
     let header_len = of_nat p;
     (case nanotorrent_piece_read K i (ucast start) (buffer_size - header_len) s of
        (r, bs, s) \<Rightarrow>
          if r \<le> 0 then Some (None, s)
          else if length buf < p + length bs then None
          else Some (Some (memcpy_at buf p bs, p + nat r), s)) }"

definition nanotorrent_peer_handle_data_request :: "('f, 'm, 't) contiki \<Rightarrow> u8 list \<Rightarrow> u16 \<Rightarrow> nanotorrent_peer_info \<Rightarrow>
    ('f, 'm, 't, 'a) peer_state_scheme \<Rightarrow> ('f, 'm, 't, 'a) peer_state_scheme option" where
  "nanotorrent_peer_handle_data_request K mem datalen peer s = do {
     (request, _) \<leftarrow> nanotorrent_unpack_peer_data (mem, 0);
     if \<not> nanotorrent_piece_is_valid (piece_index request) s then Some s
     else if \<not> nanotorrent_piece_is_complete (piece_index request) s then Some s
     else do {
       (reply_end, s) \<leftarrow> nanotorrent_peer_write_data_reply K (replicate (udp_payload K) 0) (of_nat (udp_payload K))
         (piece_index request) (data_start request) s;
       (case reply_end of
          None \<Rightarrow> Some s
        | Some (reply_buffer, n) \<Rightarrow>
            (if nanotorrent_peer_is_local K peer
             then Some (nanotorrent_peer_send_local_multicast K reply_buffer (of_nat n) s)
             else Some (nanotorrent_peer_send_message reply_buffer (of_nat n) peer s))) } }"

definition nanotorrent_peer_handle_data_reply :: "('f, 'm, 't) contiki \<Rightarrow> sha1_context \<Rightarrow> u8 list \<Rightarrow> u16 \<Rightarrow> nanotorrent_peer_info \<Rightarrow>
    ('f, 'm, 't, 'a) peer_state_scheme \<Rightarrow> ('f, 'm, 't, 'a) peer_state_scheme option" where
  "nanotorrent_peer_handle_data_reply K context mem datalen peer s = do {
     (reply, (_, p)) \<leftarrow> nanotorrent_unpack_peer_data (mem, 0);
     let header_length = of_nat p;
     let data_length = datalen - header_length;
     if \<not> nanotorrent_piece_is_valid (piece_index reply) s then Some s
     else do {
       (conn, s) \<leftarrow> nanotorrent_peer_data_receiver K peer (piece_index reply) (data_start reply) data_length s;
       (case conn of
          None \<Rightarrow> Some s
        | Some c \<Rightarrow> do {
            (written, s) \<leftarrow> nanotorrent_piece_write K (piece_index reply) (ucast (data_start reply)) (drop p mem) data_length s;
            if written \<le> 0 then Some s
            else nanotorrent_peer_receive_data K context c (piece_index reply) (data_start reply) (of_int written) s }) } }"

definition nanotorrent_peer_handle_message :: "('f, 'm, 't) contiki \<Rightarrow> sha1_context \<Rightarrow> ip6addr \<Rightarrow> ip6addr \<Rightarrow> u8 list \<Rightarrow> u16 \<Rightarrow>
    ('f, 'm, 't, 'a) peer_state_scheme \<Rightarrow> ('f, 'm, 't, 'a) peer_state_scheme option" where
  "nanotorrent_peer_handle_message K context src_addr dest_addr mem datalen s = do {
     (header, _) \<leftarrow> nanotorrent_unpack_peer_message_header (mem, 0);
     if \<not> sha1_cmp (info_hash s) (msg_info_hash header) then Some s
     else do {
       let peer = \<lparr>peer_ip = src_addr\<rparr>;
       if msg_type header = NANOTORRENT_PEER_CLOSE then
         map_option snd (nanotorrent_peer_force_disconnect K peer s)
       else do {
         s \<leftarrow> (if msg_type header = NANOTORRENT_PEER_DATA_REPLY
               then nanotorrent_peer_handle_data_reply K context mem datalen peer s else Some s);
         (case nanotorrent_peer_accept K peer s of
            (None, s) \<Rightarrow> if \<not> is_addr_mcast K dest_addr then nanotorrent_peer_send_close peer s else Some s
          | (Some c, s) \<Rightarrow> do {
              s \<leftarrow> nanotorrent_peer_update_have K c (msg_have header) s;
              if msg_type header = NANOTORRENT_PEER_HAVE \<or> msg_type header = NANOTORRENT_PEER_DATA_REPLY then
                map_option snd (nanotorrent_peer_request_next K c s)
              else if msg_type header = NANOTORRENT_PEER_DATA_REQUEST then
                nanotorrent_peer_handle_data_request K mem datalen peer s
              else Some s }) } } }"

section \<open>The peer process\<close>

text \<open>
  The body of the loop over the peers for one connection, and the loop. The code saves the next pointer
  before the body, which removes no other connection from the list, so the loop visits the connections
  that were in the list at its start.
\<close>

definition peer_loop_body :: "('f, 'm, 't) contiki \<Rightarrow> nat \<Rightarrow>
    ('f, 'm, 't, 'a) peer_state_scheme \<Rightarrow> ('f, 'm, 't, 'a) peer_state_scheme option" where
  "peer_loop_body K c s = do {
     s \<leftarrow> (if etimer_expired K (now s) (conn_heartbeat (conns s c)) then nanotorrent_peer_disconnect_conn K c s else Some s);
     s \<leftarrow> (if has_request (conns s c) then process_request_retry K c s else Some s);
     if etimer_expired K (now s) (heartbeat s) \<and> \<not> nanotorrent_peer_is_local K (conn_peer_info (conns s c))
     then nanotorrent_peer_send_have (conn_peer_info (conns s c)) s else Some s }"

fun peer_loop :: "('f, 'm, 't) contiki \<Rightarrow> nat list \<Rightarrow>
    ('f, 'm, 't, 'a) peer_state_scheme \<Rightarrow> ('f, 'm, 't, 'a) peer_state_scheme option" where
  "peer_loop K [] s = Some s"
| "peer_loop K (c # cs) s = do { s \<leftarrow> peer_loop_body K c s; peer_loop K cs s }"

text \<open>One round of the endless loop of the process, up to its wait for a timer event.\<close>

definition peer_process_round :: "('f, 'm, 't) contiki \<Rightarrow>
    ('f, 'm, 't, 'a) peer_state_scheme \<Rightarrow> ('f, 'm, 't, 'a) peer_state_scheme option" where
  "peer_process_round K s = do {
     s \<leftarrow> peer_loop K (peers s) s;
     s \<leftarrow> (if etimer_expired K (now s) (heartbeat s) then do {
            s \<leftarrow> nanotorrent_peer_send_have_local_multicast K s;
            let s = s\<lparr>heartbeat_delay := NANOTORRENT_PEER_HEARTBEAT_PERIOD K\<rparr>;
            Some (s\<lparr>heartbeat := etimer_set K (now s) (heartbeat_delay s) (heartbeat s)\<rparr>) }
          else Some s);
     Some (if nanotorrent_piece_is_seed (int_bits K) s then nanotorrent_peer_post_seeding K s else s) }"

definition nanotorrent_peer_process :: "('f, 'm, 't) contiki \<Rightarrow> event \<Rightarrow>
    ('f, 'm, 't, 'a) peer_state_scheme \<Rightarrow> ('f, 'm, 't, 'a) peer_state_scheme option" where
  "nanotorrent_peer_process K ev s =
    (case ev of
       PROCESS_EVENT_EXIT \<Rightarrow> Some (nanotorrent_peer_shutdown K s)
     | PROCESS_EVENT_INIT \<Rightarrow>
         (let s = nanotorrent_peer_init K s;
              s = s\<lparr>heartbeat := etimer_set K (now s) 0 (heartbeat s)\<rparr>
          in peer_process_round K s)
     | PROCESS_EVENT_TIMER \<Rightarrow> peer_process_round K s
     | _ \<Rightarrow> Some s)"

end
