(* ===== verification/Peer_Inv.thy ===== *)
theory Peer_Inv
  imports Messages
begin

text \<open>
  The invariant of the peer component, kept by every function of \<^verbatim>\<open>peer.c\<close>: the list, the pools and the
  addresses of the connections belong together, the piece counts are the histogram of the connections' bit
  vectors, the pending pieces are the pieces that some connection requests, and every piece marked complete has
  been verified.
\<close>

section \<open>The invariant\<close>

definition kernel_ok :: "('f, 'm, 't) contiki \<Rightarrow> bool" where
  "kernel_ok K \<longleftrightarrow> list_ok K \<and> memb_ok K \<and> net_ok K \<and> cfs_ok K"

definition torrent_fits :: "('f, 'm, 't) contiki \<Rightarrow> 'a nanotorrent_torrent_state_scheme \<Rightarrow> bool" where
  "torrent_fits K s \<longleftrightarrow> torrent_wf (the_info s) \<and> 0 < unat (file_size (the_info s)) \<and>
     pieces_fit (int_bits K) (the_info s) \<and> length (info_hash s) = 20"

definition links_ok :: "('f, 'm, 't) contiki \<Rightarrow> ('f, 'm, 't, 'a) peer_state_scheme \<Rightarrow> bool" where
  "links_ok K s \<longleftrightarrow> distinct (peers s) \<and>
     set (peers s) = memb_allocated K (peers_in s) \<union> memb_allocated K (peers_out s) \<and>
     (\<forall>c. \<not> (memb_inmemb K (peers_in s) c \<and> memb_inmemb K (peers_out s) c)) \<and>
     memb_capacity K (peers_in s) = NANOTORRENT_MAX_IN_PEERS \<and> memb_capacity K (peers_out s) = NANOTORRENT_MAX_OUT_PEERS \<and>
     inj_on (\<lambda>c. peer_ip (conn_peer_info (conns s c))) (set (peers s))"

definition counted :: "('f, 'm, 't, 'a) peer_state_scheme \<Rightarrow> bool" where
  "counted s \<longleftrightarrow> counts_ok (unat (num_pieces (the_info s))) (piece_counts s) (map (\<lambda>c. conn_have (conns s c)) (peers s))"

definition wired :: "('f, 'm, 't, 'a) peer_state_scheme \<Rightarrow> bool" where
  "wired s \<longleftrightarrow> (\<forall>c \<in> set (peers s).
     rt_again_callback (request_retry (conns s c)) = nanotorrent_peer_request_retry_again \<and>
     rt_stop_callback (request_retry (conns s c)) = nanotorrent_peer_request_retry_stop)"

definition net_inv :: "('f, 'm, 't) contiki \<Rightarrow> ('f, 'm, 't, 'a) peer_state_scheme \<Rightarrow> bool" where
  "net_inv K s \<longleftrightarrow> torrent_fits K s \<and> links_ok K s \<and> counted s \<and> wired s"

definition requesting :: "('f, 'm, 't, 'a) peer_state_scheme \<Rightarrow> nat \<Rightarrow> nat \<Rightarrow> bool" where
  "requesting s c i \<longleftrightarrow> c \<in> set (peers s) \<and> has_request (conns s c) \<and> unat (request_index (conns s c)) = i"

definition pending_ok :: "('f, 'm, 't, 'a) peer_state_scheme \<Rightarrow> bool" where
  "pending_ok s \<longleftrightarrow> bits (pending_pieces s) \<subseteq> {..<unat (num_pieces (the_info s))} \<and>
     (\<forall>i. i \<in> bits (pending_pieces s) \<longleftrightarrow> (\<exists>c. requesting s c i))"

definition peer_inv :: "('f, 'm, 't) contiki \<Rightarrow> ('f, 'm, 't, 'a) peer_state_scheme \<Rightarrow> bool" where
  "peer_inv K s \<longleftrightarrow> net_inv K s \<and> pending_ok s \<and> have_ok K s"

text \<open>A request is armed when its retry carries the connection it belongs to.\<close>

definition armed_conn :: "('f, 'm, 't, 'a) peer_state_scheme \<Rightarrow> nat \<Rightarrow> bool" where
  "armed_conn s c \<longleftrightarrow> (has_request (conns s c) \<longrightarrow> rt_data (request_retry (conns s c)) = Some c)"

definition armed :: "('f, 'm, 't, 'a) peer_state_scheme \<Rightarrow> bool" where
  "armed s \<longleftrightarrow> (\<forall>c \<in> set (peers s). armed_conn s c)"

section \<open>Frames\<close>

definition same_net :: "('f, 'm, 't, 'a) peer_state_scheme \<Rightarrow> ('f, 'm, 't, 'a) peer_state_scheme \<Rightarrow> bool" where
  "same_net s s' \<longleftrightarrow> desc s' = desc s \<and> info_hash s' = info_hash s \<and> peers s' = peers s \<and> peers_in s' = peers_in s \<and>
     peers_out s' = peers_out s \<and> piece_counts s' = piece_counts s \<and>
     (\<forall>c. conn_peer_info (conns s' c) = conn_peer_info (conns s c) \<and> conn_have (conns s' c) = conn_have (conns s c) \<and>
        rt_again_callback (request_retry (conns s' c)) = rt_again_callback (request_retry (conns s c)) \<and>
        rt_stop_callback (request_retry (conns s' c)) = rt_stop_callback (request_retry (conns s c)))"

definition same_store :: "('f, 'a) piece_state_scheme \<Rightarrow> ('f, 'a) piece_state_scheme \<Rightarrow> bool" where
  "same_store s s' \<longleftrightarrow> own_have s' = own_have s \<and> own_file s' = own_file s \<and> files s' = files s \<and> desc s' = desc s"

definition same_requests :: "('f, 'm, 't, 'a) peer_state_scheme \<Rightarrow> ('f, 'm, 't, 'a) peer_state_scheme \<Rightarrow> bool" where
  "same_requests s s' \<longleftrightarrow> desc s' = desc s \<and> peers s' = peers s \<and> pending_pieces s' = pending_pieces s \<and>
     (\<forall>c. has_request (conns s' c) = has_request (conns s c) \<and> request_index (conns s' c) = request_index (conns s c))"

lemma same_net_refl [simp]: "same_net s s"
  by (simp add: same_net_def)

lemma same_store_refl [simp]: "same_store s s"
  by (simp add: same_store_def)

lemma same_net_trans: "same_net s t \<Longrightarrow> same_net t u \<Longrightarrow> same_net s u"
  by (simp add: same_net_def)

lemma same_store_trans: "same_store s t \<Longrightarrow> same_store t u \<Longrightarrow> same_store s u"
  by (simp add: same_store_def)

lemma same_net_inv: "same_net s s' \<Longrightarrow> net_inv K s' = net_inv K s"
  by (simp add: same_net_def net_inv_def torrent_fits_def links_ok_def counted_def wired_def)

lemma same_net_peers: "same_net s s' \<Longrightarrow> peers s' = peers s"
  by (simp add: same_net_def)

lemma same_store_have: "same_store s s' \<Longrightarrow> have_ok K s' = have_ok K s"
  by (simp add: same_store_def have_ok_def own_content_def)

lemma same_requests_pending: "same_requests s s' \<Longrightarrow> pending_ok s' = pending_ok s"
  by (simp add: same_requests_def pending_ok_def requesting_def)

lemma emit_simps [simp]:
  "own_have (emit o1 s) = own_have s" "own_file (emit o1 s) = own_file s" "files (emit o1 s) = files s"
  by (simp_all add: emit_def)

lemma emit_torrent_simps [simp]: "desc (emit o1 s) = desc s" "info_hash (emit o1 s) = info_hash s" "now (emit o1 s) = now s"
  by (simp_all add: emit_def)

lemma emit_peer_simps [simp]:
  "outputs (emit o1 s) = outputs s @ [o1]"
  "conns (emit o1 s) = conns s" "peers (emit o1 s) = peers s" "peers_in (emit o1 s) = peers_in s"
  "peers_out (emit o1 s) = peers_out s" "pending_pieces (emit o1 s) = pending_pieces s" "heartbeat (emit o1 s) = heartbeat s"
  "heartbeat_delay (emit o1 s) = heartbeat_delay s" "posted_seeding_event (emit o1 s) = posted_seeding_event s"
  by (simp_all add: emit_def)

lemma emit_select_simps [simp]: "piece_counts (emit o1 s) = piece_counts s"
  by (simp add: emit_def)

lemma set_conn_simps [simp]:
  "conns (set_conn c g s) d = (if d = c then g (conns s c) else conns s d)"
  "peers (set_conn c g s) = peers s" "peers_in (set_conn c g s) = peers_in s" "peers_out (set_conn c g s) = peers_out s"
  "pending_pieces (set_conn c g s) = pending_pieces s" "piece_counts (set_conn c g s) = piece_counts s"
  "own_have (set_conn c g s) = own_have s" "own_file (set_conn c g s) = own_file s" "files (set_conn c g s) = files s"
  "desc (set_conn c g s) = desc s" "info_hash (set_conn c g s) = info_hash s" "now (set_conn c g s) = now s"
  "heartbeat (set_conn c g s) = heartbeat s" "outputs (set_conn c g s) = outputs s"
  by (simp_all add: set_conn_def)

lemma emit_frames [simp]: "same_net s (emit out s)" "same_store s (emit out s)" "same_requests s (emit out s)"
  by (simp_all add: same_net_def same_store_def same_requests_def)

lemma emit_inv [simp]:
  "net_inv K (emit out s) = net_inv K s" "pending_ok (emit out s) = pending_ok s" "have_ok K (emit out s) = have_ok K s"
  "peer_inv K (emit out s) = peer_inv K s" "armed (emit out s) = armed s"
  using same_net_inv [OF emit_frames(1), of K out s] same_store_have [OF emit_frames(2), of K out s]
    same_requests_pending [OF emit_frames(3), of out s]
  by (simp_all add: peer_inv_def armed_def armed_conn_def)

section \<open>Sending\<close>

lemma header_ok_make: "length (info_hash s) = 20 \<Longrightarrow> header_ok (nanotorrent_peer_make_header t s)"
  by (simp add: header_ok_def nanotorrent_peer_make_header_def)

lemma memcpy_whole: "length bs = length m \<Longrightarrow> memcpy_at m 0 bs = bs"
  by (simp add: memcpy_at_def)

lemma send_close_eq:
  "length (info_hash s) = 20 \<Longrightarrow> nanotorrent_peer_send_close peer s = Some (emit (UdpSendTo PeerSocket
    (enc_header (nanotorrent_peer_make_header NANOTORRENT_PEER_CLOSE s)) (peer_ip peer) NANOTORRENT_PEER_PORT) s)"
  using close.pack_Some [of "\<lparr>close_header = nanotorrent_peer_make_header NANOTORRENT_PEER_CLOSE s\<rparr>" 0 "replicate 25 0"]
    header.size_enc [OF header_ok_make, of s NANOTORRENT_PEER_CLOSE]
  by (simp add: nanotorrent_peer_send_close_def header_ok_make memcpy_whole nanotorrent_peer_send_message_def)

lemma send_have_eq:
  "length (info_hash s) = 20 \<Longrightarrow> nanotorrent_peer_send_have peer s = Some (emit (UdpSendTo PeerSocket
    (enc_header (nanotorrent_peer_make_header NANOTORRENT_PEER_HAVE s)) (peer_ip peer) NANOTORRENT_PEER_PORT) s)"
  using have_msg.pack_Some [of "\<lparr>have_header = nanotorrent_peer_make_header NANOTORRENT_PEER_HAVE s\<rparr>" 0 "replicate 25 0"]
    header.size_enc [OF header_ok_make, of s NANOTORRENT_PEER_HAVE]
  by (simp add: nanotorrent_peer_send_have_def header_ok_make memcpy_whole nanotorrent_peer_send_message_def)

lemma send_have_multicast_eq:
  "length (info_hash s) = 20 \<Longrightarrow> nanotorrent_peer_send_have_local_multicast K s = Some (emit (UdpSendTo PeerSocket
    (enc_header (nanotorrent_peer_make_header NANOTORRENT_PEER_HAVE s)) (linklocal_allnodes_mcast K) NANOTORRENT_PEER_PORT) s)"
  using have_msg.pack_Some [of "\<lparr>have_header = nanotorrent_peer_make_header NANOTORRENT_PEER_HAVE s\<rparr>" 0 "replicate 25 0"]
    header.size_enc [OF header_ok_make, of s NANOTORRENT_PEER_HAVE]
  by (simp add: nanotorrent_peer_send_have_local_multicast_def header_ok_make memcpy_whole
      nanotorrent_peer_send_local_multicast_def)

lemma send_data_request_eq:
  "length (info_hash s) = 20 \<Longrightarrow> nanotorrent_peer_send_data_request peer i start s = Some (emit (UdpSendTo PeerSocket
    (enc_data \<lparr>data_header = nanotorrent_peer_make_header NANOTORRENT_PEER_DATA_REQUEST s, piece_index = i, data_start = start\<rparr>)
    (peer_ip peer) NANOTORRENT_PEER_PORT) s)"
  using data.pack_Some [of "\<lparr>data_header = nanotorrent_peer_make_header NANOTORRENT_PEER_DATA_REQUEST s,
      piece_index = i, data_start = start\<rparr>" 0 "replicate 28 0"]
    data.size_enc [of "\<lparr>data_header = nanotorrent_peer_make_header NANOTORRENT_PEER_DATA_REQUEST s,
      piece_index = i, data_start = start\<rparr>"]
  by (simp add: nanotorrent_peer_send_data_request_def header_ok_make memcpy_whole nanotorrent_peer_send_message_def)

section \<open>Requests\<close>

lemma requesting_less: "pending_ok s \<Longrightarrow> requesting s c i \<Longrightarrow> i < unat (num_pieces (the_info s))"
  unfolding pending_ok_def by blast

lemma find_first_None: "nanotorrent_peer_find_first_request i s = None \<longleftrightarrow> (\<forall>c. \<not> requesting s c (unat i))"
  by (auto simp: nanotorrent_peer_find_first_request_def find_None_iff requesting_def word_unat_eq_iff)

lemma request_init_frames:
  "same_net s (nanotorrent_peer_request_init K c s)" "same_store s (nanotorrent_peer_request_init K c s)"
  by (simp_all add: nanotorrent_peer_request_init_def same_net_def same_store_def Let_def)

lemma request_init_pending:
  assumes "torrent_fits K s" "pending_ok s" "c \<in> set (peers s)"
    and "unat (request_index (conns s c)) < unat (num_pieces (the_info s))"
  shows "pending_ok (nanotorrent_peer_request_init K c s)"
proof -
  let ?s' = "nanotorrent_peer_request_init K c s" and ?i = "unat (request_index (conns s c))"
  have "shift_ok (int_bits K) ?i"
    using assms(1,4) pieces_fit_shift unfolding torrent_fits_def by blast
  then have b: "bits (pending_pieces ?s') = insert ?i (bits (pending_pieces s))"
    by (simp add: nanotorrent_peer_request_init_def Let_def bits_set)
  have r: "requesting ?s' d i \<longleftrightarrow> requesting s d i \<or> d = c \<and> i = ?i" for d i
    using assms(3) by (auto simp: requesting_def nanotorrent_peer_request_init_def Let_def)
  have d: "desc ?s' = desc s"
    by (simp add: nanotorrent_peer_request_init_def Let_def)
  show ?thesis
    using assms(2,4) unfolding pending_ok_def r b d by auto
qed

lemma stop_partial_frames:
  "same_net s (nanotorrent_peer_request_stop_partial K c s)" "same_store s (nanotorrent_peer_request_stop_partial K c s)"
  by (simp_all add: nanotorrent_peer_request_stop_partial_def same_net_def same_store_def Let_def nanotorrent_retry_stop_def)

lemma stop_partial_conns:
  "conns (nanotorrent_peer_request_stop_partial K c s) d =
    (if d = c then (conns s c)\<lparr>has_request := False, request_retry := nanotorrent_retry_stop K (request_retry (conns s c))\<rparr>
     else conns s d)"
  "pending_pieces (nanotorrent_peer_request_stop_partial K c s) = pending_pieces s"
  by (simp_all add: nanotorrent_peer_request_stop_partial_def Let_def)

lemma request_stop_frames:
  "same_net s (nanotorrent_peer_request_stop K c s)" "same_store s (nanotorrent_peer_request_stop K c s)"
  by (simp_all add: nanotorrent_peer_request_stop_def nanotorrent_peer_request_stop_partial_def same_net_def same_store_def
      Let_def nanotorrent_retry_stop_def)

lemma request_stop_env:
  "now (nanotorrent_peer_request_stop K c s) = now s" "outputs (nanotorrent_peer_request_stop K c s) = outputs s"
  "heartbeat (nanotorrent_peer_request_stop K c s) = heartbeat s"
  by (simp_all add: nanotorrent_peer_request_stop_def nanotorrent_peer_request_stop_partial_def Let_def)

lemma request_stop_conns:
  "conns (nanotorrent_peer_request_stop K c s) d =
    (if d = c then (conns s c)\<lparr>has_request := False, request_retry := nanotorrent_retry_stop K (request_retry (conns s c))\<rparr>
     else conns s d)"
  by (simp add: nanotorrent_peer_request_stop_def nanotorrent_peer_request_stop_partial_def Let_def)

lemma request_stop_pending:
  assumes "torrent_fits K s" "bits (pending_pieces s) \<subseteq> {..<unat (num_pieces (the_info s))}"
    and "\<And>i. i \<in> bits (pending_pieces s) \<longleftrightarrow>
      (\<exists>d. requesting s d i) \<or> has_request (conns s c) \<and> unat (request_index (conns s c)) = i"
  shows "pending_ok (nanotorrent_peer_request_stop K c s)"
proof -
  let ?s' = "nanotorrent_peer_request_stop K c s" and ?t = "nanotorrent_peer_request_stop_partial K c s"
  let ?i = "request_index (conns s c)"
  have r: "requesting ?s' d i \<longleftrightarrow> requesting s d i \<and> d \<noteq> c" "requesting ?t d i \<longleftrightarrow> requesting s d i \<and> d \<noteq> c" for d i
    by (auto simp: requesting_def request_stop_conns same_net_peers [OF request_stop_frames(1)]
        nanotorrent_peer_request_stop_partial_def Let_def)
  have d: "desc ?s' = desc s"
    using request_stop_frames(1) [of s K c] by (simp add: same_net_def)
  show ?thesis
  proof (cases "has_request (conns s c)")
    case False
    then have "pending_pieces ?s' = pending_pieces s"
      by (simp add: nanotorrent_peer_request_stop_def nanotorrent_peer_request_stop_partial_def Let_def)
    moreover have "requesting s d i \<Longrightarrow> d \<noteq> c" for d i
      using False by (auto simp: requesting_def)
    ultimately show ?thesis
      using assms(2,3) False unfolding pending_ok_def r d by auto
  next
    case True
    have lt: "unat ?i < unat (num_pieces (the_info s))"
      using assms(2) assms(3) [of "unat ?i"] True by blast
    then have ok: "shift_ok (int_bits K) (unat ?i)"
      using assms(1) pieces_fit_shift unfolding torrent_fits_def by blast
    have "pending_pieces ?t = pending_pieces s"
      by (simp add: nanotorrent_peer_request_stop_partial_def Let_def)
    then have b: "bits (pending_pieces ?s') = (if \<exists>d. requesting s d (unat ?i) \<and> d \<noteq> c
        then insert (unat ?i) (bits (pending_pieces s)) else bits (pending_pieces s) - {unat ?i})"
      using True ok find_first_None [of ?i ?t] unfolding r
      by (auto simp: nanotorrent_peer_request_stop_def Let_def bits_set bits_clear)
    have "i \<in> bits (pending_pieces ?s') \<longleftrightarrow> (\<exists>d. requesting s d i \<and> d \<noteq> c)" for i
    proof (cases "i = unat ?i")
      case True
      then show ?thesis by (simp add: b)
    next
      case False
      then have "\<not> requesting s c i"
        by (simp add: requesting_def)
      then show ?thesis
        using False assms(3) [of i] by (auto simp: b)
    qed
    moreover have "bits (pending_pieces ?s') \<subseteq> {..<unat (num_pieces (the_info s))}"
      using b assms(2) lt by auto
    ultimately show ?thesis
      unfolding pending_ok_def r d by blast
  qed
qed

lemma request_stop_pending':
  "torrent_fits K s \<Longrightarrow> pending_ok s \<Longrightarrow> c \<in> set (peers s) \<Longrightarrow> pending_ok (nanotorrent_peer_request_stop K c s)"
  by (rule request_stop_pending) (auto simp: pending_ok_def requesting_def)

text \<open>The loop of \<^verbatim>\<open>nanotorrent_peer_request_stop_all\<close> stops exactly the connections that request the piece.\<close>

lemma stop_all_loop:
  assumes "\<And>s c. step c s = (if has_request (conns s c) \<and> request_index (conns s c) = i
    then nanotorrent_peer_request_stop_partial K c s else s)"
  shows "same_net s (fold step cs s) \<and> same_store s (fold step cs s) \<and>
    pending_pieces (fold step cs s) = pending_pieces s \<and>
    (\<forall>d. request_index (conns (fold step cs s) d) = request_index (conns s d) \<and>
      rt_data (request_retry (conns (fold step cs s) d)) = rt_data (request_retry (conns s d)) \<and>
      (has_request (conns (fold step cs s) d) \<longleftrightarrow>
        has_request (conns s d) \<and> \<not> (d \<in> set cs \<and> request_index (conns s d) = i)))"
proof (induction cs arbitrary: s)
  case Nil
  show ?case by simp
next
  case (Cons c cs)
  let ?t = "step c s"
  have t: "same_net s ?t" "same_store s ?t" "pending_pieces ?t = pending_pieces s"
    "request_index (conns ?t d) = request_index (conns s d)"
    "rt_data (request_retry (conns ?t d)) = rt_data (request_retry (conns s d))"
    "has_request (conns ?t d) \<longleftrightarrow> has_request (conns s d) \<and> \<not> (d = c \<and> request_index (conns s d) = i)" for d
    using stop_partial_frames [of s K c]
    by (auto simp: assms stop_partial_conns nanotorrent_retry_stop_def split: if_splits)
  show ?case
    using Cons.IH [of ?t] t same_net_trans [OF t(1)] same_store_trans [OF t(2)] by auto
qed

lemma stop_all_outcome:
  assumes "torrent_fits K s" "pending_ok s" "unat i < unat (num_pieces (the_info s))"
  shows "same_net s (nanotorrent_peer_request_stop_all K i s)" "same_store s (nanotorrent_peer_request_stop_all K i s)"
    "pending_ok (nanotorrent_peer_request_stop_all K i s)" "armed s \<Longrightarrow> armed (nanotorrent_peer_request_stop_all K i s)"
proof -
  define step where "step = (\<lambda>c s. if has_request (conns s c) \<and> request_index (conns s c) = i
    then nanotorrent_peer_request_stop_partial K c s else (s :: ('a, 'b, 'c, 'd) peer_state_scheme))"
  define t where "t = fold step (peers s) s"
  have e: "nanotorrent_peer_request_stop_all K i s =
      t\<lparr>pending_pieces := nanotorrent_bitset_clear (int_bits K) (pending_pieces t) (unat i)\<rparr>"
    by (simp add: nanotorrent_peer_request_stop_all_def Let_def t_def step_def)
  have l: "same_net s t" "same_store s t" "pending_pieces t = pending_pieces s"
    "\<And>d. request_index (conns t d) = request_index (conns s d)"
    "\<And>d. rt_data (request_retry (conns t d)) = rt_data (request_retry (conns s d))"
    "\<And>d. has_request (conns t d) \<longleftrightarrow> has_request (conns s d) \<and> \<not> (d \<in> set (peers s) \<and> request_index (conns s d) = i)"
    using stop_all_loop [of step i K s "peers s"] by (auto simp: t_def step_def)
  show "same_net s (nanotorrent_peer_request_stop_all K i s)" "same_store s (nanotorrent_peer_request_stop_all K i s)"
    using l(1,2) by (simp_all add: e same_net_def same_store_def)
  have "shift_ok (int_bits K) (unat i)"
    using assms(1,3) pieces_fit_shift unfolding torrent_fits_def by blast
  then have b: "bits (pending_pieces (nanotorrent_peer_request_stop_all K i s)) = bits (pending_pieces s) - {unat i}"
    by (simp add: e l(3) bits_clear)
  have r: "requesting (nanotorrent_peer_request_stop_all K i s) d j \<longleftrightarrow> requesting s d j \<and> j \<noteq> unat i" for d j
    using same_net_peers [OF l(1)] by (auto simp: e requesting_def l word_unat_eq_iff)
  have d: "desc (nanotorrent_peer_request_stop_all K i s) = desc s"
    using l(1) by (simp add: e same_net_def)
  show "pending_ok (nanotorrent_peer_request_stop_all K i s)"
    using assms(2) unfolding pending_ok_def r b d by auto
  show "armed s \<Longrightarrow> armed (nanotorrent_peer_request_stop_all K i s)"
    using same_net_peers [OF l(1)] by (simp add: e armed_def armed_conn_def l)
qed

lemma retry_start_again:
  "nanotorrent_retry_start K t r NANOTORRENT_MAX_PEER_RETRIES d = (r', call) \<Longrightarrow>
    call = Some (rt_again_callback r, d) \<and> rt_data r' = d \<and> rt_again_callback r' = rt_again_callback r \<and>
    rt_stop_callback r' = rt_stop_callback r"
  by (auto simp: nanotorrent_retry_start_def nanotorrent_retry_next_def NANOTORRENT_MAX_PEER_RETRIES_def Let_def)

lemma request_retry_again_outcome:
  "length (info_hash s) = 20 \<Longrightarrow> \<exists>s'. request_retry_again c s = Some s' \<and> (s' = s \<or> (\<exists>out. s' = emit out s))"
  by (auto simp: request_retry_again_def Let_def send_data_request_eq)

text \<open>What a function on one connection does to the others: nothing.\<close>

definition only_conn :: "nat \<Rightarrow> ('f, 'm, 't, 'a) peer_state_scheme \<Rightarrow> ('f, 'm, 't, 'a) peer_state_scheme \<Rightarrow> bool" where
  "only_conn c s s' \<longleftrightarrow> (\<forall>d. d \<noteq> c \<longrightarrow> conns s' d = conns s d)"

lemma only_conn_refl [simp]: "only_conn c s s"
  by (simp add: only_conn_def)

lemma only_conn_trans: "only_conn c s t \<Longrightarrow> only_conn c t u \<Longrightarrow> only_conn c s u"
  by (simp add: only_conn_def)

lemma only_conn_armed: "only_conn c s s' \<Longrightarrow> peers s' = peers s \<Longrightarrow> armed s \<Longrightarrow> armed_conn s' c \<Longrightarrow> armed s'"
  by (auto simp: only_conn_def armed_def armed_conn_def)

lemma request_start_outcome:
  assumes "net_inv K s" "pending_ok s" "c \<in> set (peers s)"
    and "unat (request_index (conns s c)) < unat (num_pieces (the_info s))"
  shows "\<exists>s'. nanotorrent_peer_request_start K c s = Some s' \<and> same_net s s' \<and> same_store s s' \<and> pending_ok s' \<and>
    only_conn c s s' \<and> armed_conn s' c"
proof -
  define s1 where "s1 = nanotorrent_peer_request_init K c s"
  obtain r call where rs: "nanotorrent_retry_start K (now s1) (request_retry (conns s1 c)) NANOTORRENT_MAX_PEER_RETRIES (Some c) = (r, call)"
    by (cases "nanotorrent_retry_start K (now s1) (request_retry (conns s1 c)) NANOTORRENT_MAX_PEER_RETRIES (Some c)")
  define s2 where "s2 = set_conn c (\<lambda>x. x\<lparr>request_retry := r\<rparr>) s1"
  note st = retry_start_again [OF rs]
  have tf: "torrent_fits K s"
    using assms(1) by (simp add: net_inv_def)
  have i: "same_net s s1" "same_store s s1"
    unfolding s1_def by (rule request_init_frames)+
  have p1: "pending_ok s1"
    unfolding s1_def by (rule request_init_pending [OF tf assms(2-4)])
  have cb: "rt_again_callback (request_retry (conns s1 c)) = nanotorrent_peer_request_retry_again"
    using assms(1,3) i(1) by (simp add: net_inv_def wired_def same_net_def)
  have n: "same_net s1 s2" "same_store s1 s2" "same_requests s1 s2"
    using st by (simp_all add: s2_def same_net_def same_store_def same_requests_def)
  have a: "armed_conn s2 c" "only_conn c s s2"
    using st by (simp_all add: s2_def armed_conn_def only_conn_def s1_def nanotorrent_peer_request_init_def Let_def)
  have ih: "length (info_hash s2) = 20"
    using tf i(1) n(1) by (simp add: torrent_fits_def same_net_def)
  from request_retry_again_outcome [OF ih, of c] obtain s' where
    s': "request_retry_again c s2 = Some s'" "s' = s2 \<or> (\<exists>out. s' = emit out s2)"
    by blast
  have e: "nanotorrent_peer_request_start K c s = Some s'"
    using s'(1) st cb rs by (simp add: nanotorrent_peer_request_start_def Let_def s2_def flip: s1_def)
  have f: "same_net s2 s'" "same_store s2 s'" "same_requests s2 s'" "conns s' = conns s2"
    using s'(2) by (auto simp: same_requests_def)
  have "pending_ok s'"
    using p1 same_requests_pending [OF n(3)] same_requests_pending [OF f(3)] by simp
  then show ?thesis
    using e same_net_trans [OF same_net_trans [OF i(1) n(1)] f(1)] same_store_trans [OF same_store_trans [OF i(2) n(2)] f(2)]
      a f(4) by (simp add: armed_conn_def only_conn_def)
qed

lemma net_inv_fits:
  assumes "net_inv K s"
  shows "torrent_fits K s" "length (info_hash s) = 20" "unat (num_pieces (the_info s)) \<le> 32"
    "0 < unat (num_pieces (the_info s))" "unat (num_pieces (the_info s)) \<le> length (piece_counts s)"
    "torrent_wf (the_info s)" "pieces_fit (int_bits K) (the_info s)" "0 < unat (file_size (the_info s))"
  using assms by (auto simp: net_inv_def torrent_fits_def pieces_fit_def torrent_wf_def counted_def counts_ok_def)

lemma request_next_outcome:
  assumes "net_inv K s" "pending_ok s" "c \<in> set (peers s)" "armed_conn s c"
  shows "\<exists>b s'. nanotorrent_peer_request_next K c s = Some (b, s') \<and> same_net s s' \<and> same_store s s' \<and> pending_ok s' \<and>
    only_conn c s s' \<and> armed_conn s' c"
proof (cases "has_request (conns s c) \<or> nanotorrent_piece_is_seed (int_bits K) s")
  case True
  then have "nanotorrent_peer_request_next K c s = Some (False, s)"
    by (auto simp: nanotorrent_peer_request_next_def)
  then show ?thesis
    using assms(2,4) same_net_refl same_store_refl only_conn_refl by blast
next
  case False
  obtain r where r: "nanotorrent_select_next (conns s c) s = Some r"
      "\<And>i. r = Some i \<Longrightarrow> unat i < unat (num_pieces (the_info s)) \<or> i = 0"
    using select_next_total [OF net_inv_fits(5,3) [OF assms(1)], of "conns s c"] by blast
  show ?thesis
  proof (cases r)
    case None
    then have "nanotorrent_peer_request_next K c s = Some (False, s)"
      using False r by (simp add: nanotorrent_peer_request_next_def)
    then show ?thesis
      using assms(2,4) same_net_refl same_store_refl only_conn_refl by blast
  next
    case (Some i)
    define s1 where "s1 = set_conn c (\<lambda>x. x\<lparr>request_offset := 0\<rparr>) (set_conn c (\<lambda>x. x\<lparr>request_index := i\<rparr>) s)"
    have n: "same_net s s1" "same_store s s1" "only_conn c s s1"
      by (simp_all add: s1_def same_net_def same_store_def only_conn_def)
    have p: "pending_ok s1"
      using assms(2) False by (auto simp: s1_def pending_ok_def requesting_def)
    have "unat i < unat (num_pieces (the_info s))"
      using r(2) [OF Some] net_inv_fits(4) [OF assms(1)] by auto
    then have i: "unat (request_index (conns s1 c)) < unat (num_pieces (the_info s1))"
      by (simp add: s1_def)
    have m: "net_inv K s1" "c \<in> set (peers s1)"
      using same_net_inv [OF n(1), of K] assms(1,3) by (simp_all add: s1_def)
    from request_start_outcome [OF m(1) p m(2) i] obtain s' where s': "nanotorrent_peer_request_start K c s1 = Some s'"
        "same_net s1 s'" "same_store s1 s'" "pending_ok s'" "only_conn c s1 s'" "armed_conn s' c"
      by blast
    have "nanotorrent_peer_request_next K c s = Some (True, s')"
      using False r(1) Some s'(1) by (simp add: nanotorrent_peer_request_next_def s1_def)
    then show ?thesis
      using s' n same_net_trans same_store_trans only_conn_trans by blast
  qed
qed

lemma request_retry_stop_outcome:
  assumes "net_inv K s" "pending_ok s" "c \<in> set (peers s)" "armed_conn s c"
  shows "\<exists>s'. request_retry_stop K c s = Some s' \<and> same_net s s' \<and> same_store s s' \<and> pending_ok s' \<and>
    only_conn c s s' \<and> armed_conn s' c"
proof (cases "has_request (conns s c)")
  case False
  then show ?thesis
    using assms by (auto simp: request_retry_stop_def)
next
  case True
  let ?t = "nanotorrent_peer_request_stop K c s"
  have t: "same_net s ?t" "same_store s ?t" "pending_ok ?t" "only_conn c s ?t" "armed_conn ?t c"
    using request_stop_frames [of s K c] request_stop_pending' [OF net_inv_fits(1) [OF assms(1)] assms(2,3)]
    by (simp_all add: only_conn_def armed_conn_def request_stop_conns)
  have n: "net_inv K ?t" "c \<in> set (peers ?t)"
    using same_net_inv [OF t(1), of K] same_net_peers [OF t(1)] assms(1,3) by simp_all
  from request_next_outcome [OF n(1) t(3) n(2) t(5)] True show ?thesis
    using t same_net_trans same_store_trans only_conn_trans by (fastforce simp: request_retry_stop_def)
qed

lemma process_request_retry_outcome:
  assumes "net_inv K s" "pending_ok s" "c \<in> set (peers s)" "has_request (conns s c)" "armed_conn s c"
  shows "\<exists>s'. process_request_retry K c s = Some s' \<and> same_net s s' \<and> same_store s s' \<and> pending_ok s' \<and>
    only_conn c s s' \<and> armed_conn s' c"
proof -
  define r where "r = request_retry (conns s c)"
  obtain r' call where p: "nanotorrent_retry_process K (now s) r = (r', call)"
    by (cases "nanotorrent_retry_process K (now s) r")
  have cb: "rt_again_callback r = nanotorrent_peer_request_retry_again" "rt_stop_callback r = nanotorrent_peer_request_retry_stop"
    "rt_data r = Some c"
    using assms by (auto simp: r_def net_inv_def wired_def armed_conn_def)
  have fr: "rt_again_callback r' = rt_again_callback r" "rt_stop_callback r' = rt_stop_callback r" "rt_data r' = rt_data r"
    using retry_process_frame [of K "now s" r] p by simp_all
  have call: "call = None \<or> call = Some (nanotorrent_peer_request_retry_again, Some c) \<or>
      call = Some (nanotorrent_peer_request_retry_stop, Some c)"
    using p cb by (auto simp: nanotorrent_retry_process_def nanotorrent_retry_next_def nanotorrent_retry_stop_def Let_def
        split: if_splits)
  define t where "t = set_conn c (\<lambda>x. x\<lparr>request_retry := r'\<rparr>) s"
  have t: "same_net s t" "same_store s t" "same_requests s t" "only_conn c s t" "armed_conn t c"
    using fr cb by (auto simp: t_def same_net_def same_store_def same_requests_def only_conn_def armed_conn_def r_def)
  have n: "net_inv K t" "c \<in> set (peers t)" "pending_ok t"
    using same_net_inv [OF t(1), of K] same_requests_pending [OF t(3)] assms(1-3) by (simp_all add: t_def)
  have e: "process_request_retry K c s = (case call of
          None \<Rightarrow> Some t
        | Some (nanotorrent_peer_request_retry_again, Some d) \<Rightarrow> request_retry_again d t
        | Some (nanotorrent_peer_request_retry_stop, Some d) \<Rightarrow> request_retry_stop K d t
        | Some _ \<Rightarrow> None)"
    using p unfolding process_request_retry_def Let_def t_def by (simp flip: r_def)
  consider "process_request_retry K c s = Some t" | "process_request_retry K c s = request_retry_again c t"
    | "process_request_retry K c s = request_retry_stop K c t"
    using call e by auto
  then show ?thesis
  proof cases
    case 1
    then show ?thesis
      using t n by blast
  next
    case 2
    obtain s' where s': "request_retry_again c t = Some s'" "s' = t \<or> (\<exists>out. s' = emit out t)"
      using request_retry_again_outcome [OF net_inv_fits(2) [OF n(1)], of c] by blast
    then have f: "same_net t s'" "same_store t s'" "same_requests t s'" "conns s' = conns t"
      by (auto simp: same_requests_def)
    then have "pending_ok s'" "only_conn c s s'" "armed_conn s' c"
      using n(3) t(4,5) same_requests_pending [OF f(3)] by (simp_all add: only_conn_def armed_conn_def)
    then show ?thesis
      using 2 s'(1) same_net_trans [OF t(1) f(1)] same_store_trans [OF t(2) f(2)] by simp
  next
    case 3
    then show ?thesis
      using request_retry_stop_outcome [OF n(1,3,2) t(5)] t same_net_trans same_store_trans only_conn_trans by metis
  qed
qed

section \<open>Connections\<close>

lemma counts_split:
  "c \<in> set ps \<Longrightarrow> distinct ps \<Longrightarrow> (\<And>d. d \<noteq> c \<Longrightarrow> g d = f d) \<Longrightarrow>
    mset (map g ps) = mset (g c # map f (remove1 c ps))"
proof -
  assume c: "c \<in> set ps" and d: "distinct ps" and g: "\<And>d. d \<noteq> c \<Longrightarrow> g d = f d"
  have "mset ps = mset (c # remove1 c ps)"
    using c by simp
  then have "mset (map g ps) = mset (map g (c # remove1 c ps))"
    unfolding mset_map by (rule arg_cong)
  moreover have "map g (remove1 c ps) = map f (remove1 c ps)"
    using d g by auto
  ultimately show ?thesis by simp
qed

lemma counted_split:
  assumes "counted s" "links_ok K s" "c \<in> set (peers s)"
  shows "counts_ok (unat (num_pieces (the_info s))) (piece_counts s)
    (conn_have (conns s c) # map (\<lambda>c. conn_have (conns s c)) (remove1 c (peers s)))"
  using assms counts_split [of c "peers s" "\<lambda>c. conn_have (conns s c)" "\<lambda>c. conn_have (conns s c)"]
  unfolding counted_def links_ok_def by (metis counts_ok_mset)

lemma free_alloc:
  assumes "memb_ok K" "links_ok K s" "c \<in> set (peers s)"
    and "peers_in t = peers_in s" "peers_out t = peers_out s"
  shows "memb_allocated K (peers_in (nanotorrent_peer_free K c t)) \<union> memb_allocated K (peers_out (nanotorrent_peer_free K c t)) =
      set (peers s) - {c}"
    "memb_inmemb K (peers_in (nanotorrent_peer_free K c t)) = memb_inmemb K (peers_in s)"
    "memb_inmemb K (peers_out (nanotorrent_peer_free K c t)) = memb_inmemb K (peers_out s)"
    "memb_capacity K (peers_in (nanotorrent_peer_free K c t)) = memb_capacity K (peers_in s)"
    "memb_capacity K (peers_out (nanotorrent_peer_free K c t)) = memb_capacity K (peers_out s)"
proof -
  have l: "set (peers s) = memb_allocated K (peers_in s) \<union> memb_allocated K (peers_out s)"
    "\<not> (memb_inmemb K (peers_in s) c \<and> memb_inmemb K (peers_out s) c)"
    using assms(2) by (auto simp: links_ok_def)
  show "memb_allocated K (peers_in (nanotorrent_peer_free K c t)) \<union> memb_allocated K (peers_out (nanotorrent_peer_free K c t)) =
      set (peers s) - {c}"
    using l assms(3) memb_allocated_inmemb [OF assms(1), of c]
    by (auto simp: nanotorrent_peer_free_def memb_free_simps [OF assms(1)] assms(4,5))
  show "memb_inmemb K (peers_in (nanotorrent_peer_free K c t)) = memb_inmemb K (peers_in s)"
    "memb_inmemb K (peers_out (nanotorrent_peer_free K c t)) = memb_inmemb K (peers_out s)"
    "memb_capacity K (peers_in (nanotorrent_peer_free K c t)) = memb_capacity K (peers_in s)"
    "memb_capacity K (peers_out (nanotorrent_peer_free K c t)) = memb_capacity K (peers_out s)"
    by (simp_all add: nanotorrent_peer_free_def memb_free_simps [OF assms(1)] assms(4,5))
qed

lemma free_simps [simp]:
  "conns (nanotorrent_peer_free K c s) = conns s" "peers (nanotorrent_peer_free K c s) = peers s"
  "pending_pieces (nanotorrent_peer_free K c s) = pending_pieces s" "piece_counts (nanotorrent_peer_free K c s) = piece_counts s"
  "own_have (nanotorrent_peer_free K c s) = own_have s" "own_file (nanotorrent_peer_free K c s) = own_file s"
  "files (nanotorrent_peer_free K c s) = files s" "desc (nanotorrent_peer_free K c s) = desc s"
  "info_hash (nanotorrent_peer_free K c s) = info_hash s" "now (nanotorrent_peer_free K c s) = now s"
  "outputs (nanotorrent_peer_free K c s) = outputs s" "heartbeat (nanotorrent_peer_free K c s) = heartbeat s"
  by (simp_all add: nanotorrent_peer_free_def)

lemma force_disconnect_conn_outcome:
  assumes "kernel_ok K" "net_inv K s" "pending_ok s" "c \<in> set (peers s)"
  shows "\<exists>s'. nanotorrent_peer_force_disconnect_conn K c s = Some s' \<and> net_inv K s' \<and> pending_ok s' \<and> same_store s s' \<and>
    only_conn c s s' \<and> peers s' = remove1 c (peers s) \<and> \<not> has_request (conns s' c) \<and>
    conn_peer_info (conns s' c) = conn_peer_info (conns s c) \<and> info_hash s' = info_hash s \<and>
    outputs s' = outputs s @ [ProcessPost MainProcess peer_event] \<and> now s' = now s \<and> heartbeat s' = heartbeat s"
proof -
  define s1 where "s1 = s\<lparr>peers := list_remove K c (peers s)\<rparr>"
  let ?n = "unat (num_pieces (the_info s))" and ?rest = "map (\<lambda>c. conn_have (conns s c)) (remove1 c (peers s))"
  have lk: "links_ok K s" and k: "list_ok K" "memb_ok K"
    using assms(1,2) by (simp_all add: net_inv_def kernel_ok_def)
  then have dis: "distinct (peers s)"
    by (simp add: links_ok_def)
  have p1: "peers s1 = remove1 c (peers s)"
    by (simp add: s1_def list_remove_remove1 [OF k(1) dis])
  have "counted s"
    using assms(2) by (simp add: net_inv_def)
  then have "counts_ok (unat (num_pieces (the_info s1))) (piece_counts s1) (conn_have (conns s1 c) # ?rest)"
    using counted_split [OF _ lk assms(4)] by (simp add: s1_def)
  from update_have_counts [OF this, of 0] obtain cs where
    u: "nanotorrent_select_update_have (conn_have (conns s1 c)) 0 s1 = Some (s1\<lparr>piece_counts := cs\<rparr>)"
      "counts_ok ?n cs (0 # ?rest)"
    by (auto simp: s1_def)
  define s2 where "s2 = set_conn c (\<lambda>x. x\<lparr>conn_have := 0\<rparr>) (s1\<lparr>piece_counts := cs\<rparr>)"
  define s3 where "s3 = nanotorrent_peer_request_stop K c s2"
  define s4 where "s4 = set_conn c (\<lambda>x. x\<lparr>conn_heartbeat := etimer_stop K (conn_heartbeat x)\<rparr>) s3"
  define s' where "s' = nanotorrent_peer_post_event (nanotorrent_peer_free K c s4)"
  have e: "nanotorrent_peer_force_disconnect_conn K c s = Some s'"
    using u(1) by (simp add: nanotorrent_peer_force_disconnect_conn_def nanotorrent_peer_remove_def s'_def s4_def s3_def s2_def
        flip: s1_def)
  note fr = request_stop_frames [of s2 K c, folded s3_def]
  have c2: "conns s2 = (conns s)(c := (conns s c)\<lparr>conn_have := 0\<rparr>)" "peers s2 = remove1 c (peers s)"
    "pending_pieces s2 = pending_pieces s" "desc s2 = desc s" "info_hash s2 = info_hash s"
    by (simp_all add: s2_def set_conn_def p1) (simp_all add: s1_def)
  have "requesting s d i \<longleftrightarrow> requesting s2 d i \<or> d = c \<and> has_request (conns s2 c) \<and> unat (request_index (conns s2 c)) = i" for d i
    using assms(4) dis by (auto simp: requesting_def c2)
  then have p3: "pending_ok s3"
    unfolding s3_def using net_inv_fits(1) [OF assms(2)] assms(3)
    by (intro request_stop_pending) (auto simp: torrent_fits_def c2 pending_ok_def)
  have c': "d \<noteq> c \<Longrightarrow> conns s' d = conns s d" "\<not> has_request (conns s' c)"
    "conn_peer_info (conns s' c) = conn_peer_info (conns s c)" for d
    by (simp_all add: s'_def nanotorrent_peer_post_event_def s4_def s3_def request_stop_conns c2)
  have f': "peers s' = remove1 c (peers s)" "desc s' = desc s" "info_hash s' = info_hash s" "piece_counts s' = cs"
    using fr(1) by (simp_all add: s'_def nanotorrent_peer_post_event_def s4_def same_net_def c2) (simp add: s2_def)
  have fs: "same_store s s'"
    using fr(2) by (simp add: s'_def nanotorrent_peer_post_event_def s4_def same_store_def) (simp add: s2_def s1_def)
  have "same_requests s3 s'"
    by (simp add: s'_def nanotorrent_peer_post_event_def s4_def same_requests_def)
  then have p': "pending_ok s'"
    using p3 same_requests_pending by blast
  have "peers_in s4 = peers_in s" "peers_out s4 = peers_out s"
    using fr(1) by (simp_all add: s4_def same_net_def) (simp_all add: s2_def s1_def)
  note fa = free_alloc [OF k(2) lk assms(4) this]
  have set': "set (remove1 c (peers s)) = set (peers s) - {c}"
    using dis by simp
  have "links_ok K s'"
    unfolding links_ok_def f'(1)
  proof (intro conjI)
    show "inj_on (\<lambda>c. peer_ip (conn_peer_info (conns s' c))) (set (remove1 c (peers s)))"
    proof (rule inj_onI)
      fix x y
      assume "x \<in> set (remove1 c (peers s))" "y \<in> set (remove1 c (peers s))"
        "peer_ip (conn_peer_info (conns s' x)) = peer_ip (conn_peer_info (conns s' y))"
      then show "x = y"
        using lk c'(1) [of x] c'(1) [of y] unfolding set' links_ok_def inj_on_def by auto
    qed
  qed (use lk fa dis in \<open>auto simp: links_ok_def s'_def nanotorrent_peer_post_event_def\<close>)
  moreover have "counted s'"
  proof -
    have "map (\<lambda>c. conn_have (conns s' c)) (remove1 c (peers s)) = ?rest"
      using dis c'(1) by (intro map_cong) auto
    then show ?thesis
      using counts_ok_drop_zero [OF u(2)] by (simp only: counted_def f')
  qed
  moreover have "wired s'"
    using assms(2) c'(1) unfolding net_inv_def wired_def f'(1) set' by auto
  moreover have "torrent_fits K s'"
    using net_inv_fits(1) [OF assms(2)] by (simp add: torrent_fits_def f')
  ultimately have "net_inv K s'"
    by (simp add: net_inv_def)
  moreover have "only_conn c s s'"
    using c'(1) by (simp add: only_conn_def)
  moreover have "outputs s' = outputs s @ [ProcessPost MainProcess peer_event]" "now s' = now s" "heartbeat s' = heartbeat s"
    by (simp_all add: s'_def nanotorrent_peer_post_event_def s4_def s3_def request_stop_env) (simp_all add: s2_def s1_def)
  ultimately show ?thesis
    using e p' fs c' f'(1,3) by blast
qed

lemma find_Some:
  assumes "net_ok K" "nanotorrent_peer_find K peer s = Some c"
  shows "c \<in> set (peers s)" "conn_peer_info (conns s c) = peer"
proof -
  have "ip6addr_cmp K a b \<longleftrightarrow> a = b" for a b
    using assms(1) by (simp add: net_ok_def)
  with assms(2) show "c \<in> set (peers s)" "conn_peer_info (conns s c) = peer"
    by (auto simp: nanotorrent_peer_find_def find_Some_iff nanotorrent_peer_info_cmp_def intro: nanotorrent_peer_info.equality)
qed

lemma find_None:
  assumes "net_ok K" "nanotorrent_peer_find K peer s = None" "c \<in> set (peers s)"
  shows "peer_ip (conn_peer_info (conns s c)) \<noteq> peer_ip peer"
  using assms by (auto simp: nanotorrent_peer_find_def find_None_iff nanotorrent_peer_info_cmp_def net_ok_def)

lemma armed_remove: "armed s \<Longrightarrow> only_conn c s s' \<Longrightarrow> peers s' = remove1 c (peers s) \<Longrightarrow> \<not> has_request (conns s' c) \<Longrightarrow> armed s'"
  unfolding armed_def armed_conn_def only_conn_def by (metis notin_set_remove1)

lemma force_disconnect_outcome:
  assumes "kernel_ok K" "peer_inv K s" "armed s"
  shows "\<exists>b s'. nanotorrent_peer_force_disconnect K peer s = Some (b, s') \<and> peer_inv K s' \<and> armed s' \<and> same_store s s'"
proof (cases "nanotorrent_peer_find K peer s")
  case None
  then have "nanotorrent_peer_force_disconnect K peer s = Some (False, s)"
    by (simp add: nanotorrent_peer_force_disconnect_def)
  then show ?thesis
    using assms same_store_refl by blast
next
  case (Some c)
  then have c: "c \<in> set (peers s)"
    using assms(1) find_Some(1) unfolding kernel_ok_def by blast
  have n: "net_inv K s" "pending_ok s" "have_ok K s"
    using assms(2) by (simp_all add: peer_inv_def)
  from force_disconnect_conn_outcome [OF assms(1) n(1,2) c] Some show ?thesis
    using n(3) same_store_have armed_remove [OF assms(3)] unfolding peer_inv_def nanotorrent_peer_force_disconnect_def by fastforce
qed

lemma disconnect_conn_outcome:
  assumes "kernel_ok K" "net_inv K s" "pending_ok s" "c \<in> set (peers s)"
  shows "\<exists>s'. nanotorrent_peer_disconnect_conn K c s = Some s' \<and> net_inv K s' \<and> pending_ok s' \<and> same_store s s' \<and>
    only_conn c s s' \<and> peers s' = remove1 c (peers s) \<and> \<not> has_request (conns s' c) \<and>
    conn_peer_info (conns s' c) = conn_peer_info (conns s c) \<and> info_hash s' = info_hash s \<and>
    now s' = now s \<and> heartbeat s' = heartbeat s \<and>
    outputs s' = outputs s @ [ProcessPost MainProcess peer_event, UdpSendTo PeerSocket
      (enc_header (nanotorrent_peer_make_header NANOTORRENT_PEER_CLOSE s)) (peer_ip (conn_peer_info (conns s c))) NANOTORRENT_PEER_PORT]"
proof -
  from force_disconnect_conn_outcome [OF assms] obtain t where t: "nanotorrent_peer_force_disconnect_conn K c s = Some t"
    "net_inv K t" "pending_ok t" "same_store s t" "only_conn c s t" "peers t = remove1 c (peers s)"
    "\<not> has_request (conns t c)" "conn_peer_info (conns t c) = conn_peer_info (conns s c)" "info_hash t = info_hash s"
    "outputs t = outputs s @ [ProcessPost MainProcess peer_event]" "now t = now s" "heartbeat t = heartbeat s"
    by blast
  then have "nanotorrent_peer_make_header NANOTORRENT_PEER_CLOSE t = nanotorrent_peer_make_header NANOTORRENT_PEER_CLOSE s"
    by (simp add: nanotorrent_peer_make_header_def nanotorrent_piece_have_def same_store_def)
  then show ?thesis
    using t send_close_eq [OF net_inv_fits(2) [OF t(2)]] same_store_trans [OF t(4) emit_frames(2)]
    by (simp add: nanotorrent_peer_disconnect_conn_def only_conn_def)
qed

lemma alloc_conn_None: "memb_ok K \<Longrightarrow> alloc_conn K p s = (None, s') \<Longrightarrow> s' = s"
  by (auto simp: alloc_conn_def split: pool.splits prod.splits dest: memb_alloc_None)

lemma alloc_conn_frame:
  assumes "alloc_conn K p s = (r, s')"
  shows "peers s' = peers s" "conns s' = conns s" "piece_counts s' = piece_counts s" "pending_pieces s' = pending_pieces s"
    "desc s' = desc s" "info_hash s' = info_hash s" "same_store s s'"
  using assms by (auto simp: alloc_conn_def same_store_def split: pool.splits prod.splits)

lemma alloc_conn_Some:
  assumes "memb_ok K" "links_ok K s" "alloc_conn K p s = (Some c, s')"
  shows "c \<notin> set (peers s)"
    "insert c (set (peers s)) = memb_allocated K (peers_in s') \<union> memb_allocated K (peers_out s')"
    "memb_inmemb K (peers_in s') = memb_inmemb K (peers_in s)" "memb_inmemb K (peers_out s') = memb_inmemb K (peers_out s)"
    "memb_capacity K (peers_in s') = memb_capacity K (peers_in s)" "memb_capacity K (peers_out s') = memb_capacity K (peers_out s)"
proof -
  have l: "set (peers s) = memb_allocated K (peers_in s) \<union> memb_allocated K (peers_out s)"
    "\<And>c. \<not> (memb_inmemb K (peers_in s) c \<and> memb_inmemb K (peers_out s) c)"
    using assms(2) by (simp_all add: links_ok_def)
  have "(\<exists>m. memb_alloc K (peers_in s) = (Some c, m) \<and> peers_in s' = m \<and> peers_out s' = peers_out s) \<or>
        (\<exists>m. memb_alloc K (peers_out s) = (Some c, m) \<and> peers_in s' = peers_in s \<and> peers_out s' = m)"
    using assms(3) by (auto simp: alloc_conn_def split: pool.splits prod.splits)
  then show "c \<notin> set (peers s)"
    "insert c (set (peers s)) = memb_allocated K (peers_in s') \<union> memb_allocated K (peers_out s')"
    "memb_inmemb K (peers_in s') = memb_inmemb K (peers_in s)" "memb_inmemb K (peers_out s') = memb_inmemb K (peers_out s)"
    "memb_capacity K (peers_in s') = memb_capacity K (peers_in s)" "memb_capacity K (peers_out s') = memb_capacity K (peers_out s)"
    using memb_alloc_Some [OF assms(1), of "peers_in s" c] memb_alloc_Some [OF assms(1), of "peers_out s" c]
      l(2) [of c] memb_allocated_inmemb [OF assms(1), of c]
    unfolding l(1) by auto
qed

lemma connect_with_outcome:
  assumes "kernel_ok K" "net_inv K s" "pending_ok s"
  shows "\<exists>r s'. nanotorrent_peer_connect_with K peer p s = (r, s') \<and> net_inv K s' \<and> pending_ok s' \<and> same_store s s' \<and>
    (case r of
       None \<Rightarrow> s' = s \<and> nanotorrent_peer_find K peer s = None
     | Some c \<Rightarrow> c \<in> set (peers s') \<and> conn_peer_info (conns s' c) = peer \<and> only_conn c s s' \<and>
         (if c \<in> set (peers s) then s' = s else peers s' = c # peers s \<and> \<not> has_request (conns s' c)))"
proof (cases "nanotorrent_peer_find K peer s")
  case (Some c)
  then have "c \<in> set (peers s)" "conn_peer_info (conns s c) = peer"
    using assms(1) find_Some unfolding kernel_ok_def by blast+
  then show ?thesis
    using Some assms by (simp add: nanotorrent_peer_connect_with_def)
next
  case None
  have lk: "links_ok K s" and k: "list_ok K" "memb_ok K" "net_ok K"
    using assms(1,2) by (simp_all add: net_inv_def kernel_ok_def)
  obtain r t where a: "alloc_conn K p s = (r, t)"
    by (cases "alloc_conn K p s")
  show ?thesis
  proof (cases r)
    case none: None
    then have "t = s"
      using a alloc_conn_None [OF k(2)] by blast
    then show ?thesis
      using None none a assms by (simp add: nanotorrent_peer_connect_with_def)
  next
    case (Some c)
    note al = alloc_conn_Some [OF k(2) lk a [unfolded Some]]
    define s' where "s' = nanotorrent_peer_add K c (set_conn c (\<lambda>x. x\<lparr>conn_peer_info := peer\<rparr>) t)"
    have e: "nanotorrent_peer_connect_with K peer p s = (Some c, s')"
      using None Some a by (simp add: nanotorrent_peer_connect_with_def s'_def)
    note pt = alloc_conn_frame [OF a]
    have f: "peers s' = c # peers s" "peers_in s' = peers_in t" "peers_out s' = peers_out t" "piece_counts s' = piece_counts s"
      "pending_pieces s' = pending_pieces s" "desc s' = desc s" "info_hash s' = info_hash s"
      using pt al(1) by (simp_all add: s'_def nanotorrent_peer_add_def Let_def list_push_new [OF k(1)])
    have c: "conns s' d = conns s d" if "d \<noteq> c" for d
      using that by (simp add: s'_def nanotorrent_peer_add_def Let_def pt)
    have c': "conn_peer_info (conns s' c) = peer" "conn_have (conns s' c) = 0" "\<not> has_request (conns s' c)"
      "rt_again_callback (request_retry (conns s' c)) = nanotorrent_peer_request_retry_again"
      "rt_stop_callback (request_retry (conns s' c)) = nanotorrent_peer_request_retry_stop"
      by (simp_all add: s'_def nanotorrent_peer_add_def Let_def nanotorrent_retry_init_def nanotorrent_retry_stop_def)
    have st: "same_store s s'"
      using pt(7) by (simp add: s'_def nanotorrent_peer_add_def Let_def same_store_def)
    have ne: "d \<in> set (peers s) \<Longrightarrow> d \<noteq> c" for d
      using al(1) by blast
    have "inj_on (\<lambda>c. peer_ip (conn_peer_info (conns s' c))) (insert c (set (peers s)))"
    proof -
      have "peer_ip (conn_peer_info (conns s' d)) \<noteq> peer_ip peer" if "d \<in> set (peers s)" for d
        using find_None [OF k(3) None that] c [OF ne [OF that]] by simp
      moreover have "inj_on (\<lambda>c. peer_ip (conn_peer_info (conns s' c))) (set (peers s))"
        using lk c ne by (simp add: links_ok_def inj_on_def)
      ultimately show ?thesis
        unfolding inj_on_insert by (fastforce simp: c'(1))
    qed
    then have "links_ok K s'"
      using lk al by (simp add: links_ok_def f)
    moreover have "counted s'"
    proof -
      have m: "map (\<lambda>d. conn_have (conns s' d)) (c # peers s) = 0 # map (\<lambda>d. conn_have (conns s d)) (peers s)"
        using c c'(2) ne by (auto intro!: map_cong)
      have "counted s"
        using assms(2) by (simp add: net_inv_def)
      then show ?thesis
        unfolding counted_def f m by (rule counts_ok_zero)
    qed
    moreover have "wired s'"
      using assms(2) c c' ne by (auto simp: net_inv_def wired_def f)
    moreover have "torrent_fits K s'"
      using net_inv_fits(1) [OF assms(2)] by (simp add: torrent_fits_def f)
    moreover have "requesting s' d i \<longleftrightarrow> requesting s d i" for d i
      using c c' ne by (cases "d = c") (auto simp: requesting_def f)
    then have "pending_ok s'"
      using assms(3) by (simp add: pending_ok_def f)
    ultimately show ?thesis
      using e st c c' f al(1) by (simp add: net_inv_def only_conn_def)
  qed
qed

lemma connect_armed:
  assumes "armed s" "only_conn c s s'" "if c \<in> set (peers s) then s' = s else peers s' = c # peers s \<and> \<not> has_request (conns s' c)"
  shows "armed s'"
  using assms by (auto simp: armed_def armed_conn_def only_conn_def split: if_splits)

lemma update_have_outcome:
  assumes "net_inv K s" "c \<in> set (peers s)"
  shows "\<exists>s'. nanotorrent_peer_update_have K c have s = Some s' \<and> net_inv K s' \<and> same_requests s s' \<and> same_store s s' \<and>
    only_conn c s s' \<and> armed_conn s' c = armed_conn s c \<and> conn_have (conns s' c) = conn_have (conns s c) OR have \<and>
    conn_peer_info (conns s' c) = conn_peer_info (conns s c) \<and> request_retry (conns s' c) = request_retry (conns s c) \<and>
    conn_heartbeat (conns s' c) = etimer_restart K (now s) (conn_heartbeat (conns s c)) \<and> now s' = now s"
proof -
  let ?n = "unat (num_pieces (the_info s))" and ?rest = "map (\<lambda>c. conn_have (conns s c)) (remove1 c (peers s))"
  have lk: "links_ok K s" and ct: "counted s"
    using assms(1) by (simp_all add: net_inv_def)
  then have dis: "distinct (peers s)"
    by (simp add: links_ok_def)
  from update_have_counts [OF counted_split [OF ct lk assms(2)], of "conn_have (conns s c) OR have"] obtain cs where
    u: "nanotorrent_select_update_have (conn_have (conns s c)) (conn_have (conns s c) OR have) s = Some (s\<lparr>piece_counts := cs\<rparr>)"
      "counts_ok ?n cs ((conn_have (conns s c) OR have) # ?rest)"
    by blast
  define s' where "s' = set_conn c (\<lambda>x. x\<lparr>conn_heartbeat := etimer_restart K (now s) (conn_heartbeat x)\<rparr>)
    (set_conn c (\<lambda>x. x\<lparr>conn_have := conn_have (conns s c) OR have\<rparr>) (s\<lparr>piece_counts := cs\<rparr>))"
  have e: "nanotorrent_peer_update_have K c have s = Some s'"
    using u(1) by (simp add: nanotorrent_peer_update_have_def s'_def)
  have f: "peers s' = peers s" "peers_in s' = peers_in s" "peers_out s' = peers_out s" "piece_counts s' = cs"
    "pending_pieces s' = pending_pieces s" "desc s' = desc s" "info_hash s' = info_hash s"
    by (simp_all add: s'_def)
  have c: "conn_peer_info (conns s' d) = conn_peer_info (conns s d)" "has_request (conns s' d) = has_request (conns s d)"
    "request_index (conns s' d) = request_index (conns s d)" "request_retry (conns s' d) = request_retry (conns s d)"
    "conn_have (conns s' d) = (if d = c then conn_have (conns s c) OR have else conn_have (conns s d))" for d
    by (simp_all add: s'_def)
  have "mset (map (\<lambda>c. conn_have (conns s' c)) (peers s)) = mset ((conn_have (conns s c) OR have) # ?rest)"
    using counts_split [OF assms(2) dis, of "\<lambda>c. conn_have (conns s' c)" "\<lambda>c. conn_have (conns s c)"] c(5) by simp
  then have "counted s'"
    using u(2) counts_ok_mset unfolding counted_def f by metis
  moreover have "links_ok K s' = links_ok K s" "wired s' = wired s" "torrent_fits K s' = torrent_fits K s"
    by (simp_all only: links_ok_def wired_def torrent_fits_def f c)
  then have "links_ok K s'" "wired s'" "torrent_fits K s'"
    using assms(1) by (simp_all add: net_inv_def)
  ultimately have "net_inv K s'"
    by (simp add: net_inv_def)
  moreover have "same_requests s s'" "same_store s s'" "only_conn c s s'" "armed_conn s' c = armed_conn s c"
    by (simp_all add: same_requests_def same_store_def only_conn_def armed_conn_def f c) (simp_all add: s'_def)
  moreover have "conn_heartbeat (conns s' c) = etimer_restart K (now s) (conn_heartbeat (conns s c))" "now s' = now s"
    by (simp_all add: s'_def)
  ultimately show ?thesis
    using e c by simp
qed

end
