(* ===== verification/Swarm.thy ===== *)
theory Swarm
  imports Peer_Inv
begin

text \<open>
  \<^verbatim>\<open>peer/swarm.h\<close> and \<^verbatim>\<open>peer/swarm.c\<close>: membership in the swarm, announced to the tracker. The state of the
  component is added to the state of the peer component, since the main process uses both. The
  process is a protothread: \<open>swarm_pc\<close> is the place where it waits.
\<close>

section \<open>State\<close>

datatype nanotorrent_swarm_state =
    NANOTORRENT_SWARM_INIT | NANOTORRENT_SWARM_LEFT | NANOTORRENT_SWARM_JOINING | NANOTORRENT_SWARM_JOINED

definition NANOTRACKER_ANNOUNCE_REFRESH :: u8 where "NANOTRACKER_ANNOUNCE_REFRESH = 0"
definition NANOTRACKER_ANNOUNCE_STARTED :: u8 where "NANOTRACKER_ANNOUNCE_STARTED = 1"
definition NANOTRACKER_ANNOUNCE_STOPPED :: u8 where "NANOTRACKER_ANNOUNCE_STOPPED = 2"
definition NANOTRACKER_ANNOUNCE_COMPLETED :: u8 where "NANOTRACKER_ANNOUNCE_COMPLETED = 3"

definition NANOTORRENT_MAX_SWARM_PEERS :: nat where
  "NANOTORRENT_MAX_SWARM_PEERS = 5"

definition NANOTORRENT_MAX_ANNOUNCE_RETRIES :: u8 where
  "NANOTORRENT_MAX_ANNOUNCE_RETRIES = 5"

definition NANOTORRENT_ANNOUNCE_RETRY_TIMEOUT :: "('f, 'm, 't) contiki \<Rightarrow> nat" where
  "NANOTORRENT_ANNOUNCE_RETRY_TIMEOUT K = clock_time K (3 * clock_second K)"

definition NANOTORRENT_ANNOUNCE_REFRESH_PERIOD :: "('f, 'm, 't) contiki \<Rightarrow> nat" where
  "NANOTORRENT_ANNOUNCE_REFRESH_PERIOD K = clock_time K (60 * clock_second K)"

definition SWARM_READY_POLL_PERIOD :: "('f, 'm, 't) contiki \<Rightarrow> nat" where
  "SWARM_READY_POLL_PERIOD K = clock_time K (1 * clock_second K)"

datatype swarm_pc = SwarmNotStarted | SwarmWaitReady | SwarmWaitJoined | SwarmWaitRefresh | SwarmEnded

record ('f, 'm, 't) nanotorrent_swarm = "('f, 'm, 't) peer_state" +
  swarm_state :: nanotorrent_swarm_state
  swarm_peers :: "nat list"
  swarm_peer_info :: "nat \<Rightarrow> nanotorrent_peer_info"
  peer_memb :: 'm
  announce_retry :: "'t nanotorrent_retry"
  announce_retry_event :: u8
  refresh :: 't
  ready_poll :: 't
  swarm_pc :: swarm_pc

section \<open>Operations\<close>

definition nanotorrent_swarm_start :: "'a env_scheme \<Rightarrow> 'a env_scheme" where
  "nanotorrent_swarm_start s = emit (ProcessStart SwarmProcess) s"

definition nanotorrent_swarm_stop :: "'a env_scheme \<Rightarrow> 'a env_scheme" where
  "nanotorrent_swarm_stop s = emit (ProcessExit SwarmProcess) s"

definition nanotorrent_swarm_post_event :: "'a env_scheme \<Rightarrow> 'a env_scheme" where
  "nanotorrent_swarm_post_event s = emit (ProcessPost MainProcess swarm_event) s"

definition nanotorrent_swarm_is_ready :: "('f, 'm, 't) contiki \<Rightarrow> ('f, 'm, 't, 'a) nanotorrent_swarm_scheme \<Rightarrow> bool" where
  "nanotorrent_swarm_is_ready K s = ds6_has_global K (now s)"

definition nanotorrent_swarm_set_ready ::
  "('f, 'm, 't, 'a) nanotorrent_swarm_scheme \<Rightarrow> ('f, 'm, 't, 'a) nanotorrent_swarm_scheme" where
  "nanotorrent_swarm_set_ready s =
    (if swarm_state s = NANOTORRENT_SWARM_INIT then s\<lparr>swarm_state := NANOTORRENT_SWARM_LEFT\<rparr> else s)"

definition nanotorrent_swarm_is_joining :: "('f, 'm, 't, 'a) nanotorrent_swarm_scheme \<Rightarrow> bool" where
  "nanotorrent_swarm_is_joining s = (swarm_state s = NANOTORRENT_SWARM_JOINING)"

definition nanotorrent_swarm_is_joined :: "('f, 'm, 't, 'a) nanotorrent_swarm_scheme \<Rightarrow> bool" where
  "nanotorrent_swarm_is_joined s = (swarm_state s = NANOTORRENT_SWARM_JOINED)"

definition nanotorrent_swarm_can_join :: "('f, 'm, 't, 'a) nanotorrent_swarm_scheme \<Rightarrow> bool" where
  "nanotorrent_swarm_can_join s = (swarm_state s = NANOTORRENT_SWARM_LEFT)"

definition nanotorrent_swarm_clear_peers :: "('f, 'm, 't) contiki \<Rightarrow>
    ('f, 'm, 't, 'a) nanotorrent_swarm_scheme \<Rightarrow> ('f, 'm, 't, 'a) nanotorrent_swarm_scheme" where
  "nanotorrent_swarm_clear_peers K s = s\<lparr>swarm_peers := [], peer_memb := memb_init K (peer_memb s)\<rparr>"

definition nanotorrent_swarm_peek_peer :: "('f, 'm, 't, 'a) nanotorrent_swarm_scheme \<Rightarrow> nanotorrent_peer_info option" where
  "nanotorrent_swarm_peek_peer s = (case swarm_peers s of [] \<Rightarrow> None | c # cs \<Rightarrow> Some (swarm_peer_info s c))"

definition nanotorrent_swarm_pop_peer :: "('f, 'm, 't) contiki \<Rightarrow>
    ('f, 'm, 't, 'a) nanotorrent_swarm_scheme \<Rightarrow> ('f, 'm, 't, 'a) nanotorrent_swarm_scheme" where
  "nanotorrent_swarm_pop_peer K s =
    (case list_pop K (swarm_peers s) of
       (None, cs) \<Rightarrow> s\<lparr>swarm_peers := cs\<rparr>
     | (Some c, cs) \<Rightarrow> s\<lparr>swarm_peers := cs, peer_memb := memb_free K c (peer_memb s)\<rparr>)"

definition nanotorrent_swarm_add_peer :: "('f, 'm, 't) contiki \<Rightarrow> nanotorrent_peer_info \<Rightarrow>
    ('f, 'm, 't, 'a) nanotorrent_swarm_scheme \<Rightarrow> bool \<times> ('f, 'm, 't, 'a) nanotorrent_swarm_scheme" where
  "nanotorrent_swarm_add_peer K info s =
    (case memb_alloc K (peer_memb s) of
       (None, m) \<Rightarrow> (False, s\<lparr>peer_memb := m\<rparr>)
     | (Some c, m) \<Rightarrow>
         (True, s\<lparr>peer_memb := m, swarm_peer_info := (swarm_peer_info s)(c := info), swarm_peers := list_push K c (swarm_peers s)\<rparr>))"

text \<open>The buffer has the size of the request's structure, 22 bytes.\<close>

definition nanotorrent_swarm_announce_send :: "u8 \<Rightarrow>
    ('f, 'm, 't, 'a) nanotorrent_swarm_scheme \<Rightarrow> ('f, 'm, 't, 'a) nanotorrent_swarm_scheme option" where
  "nanotorrent_swarm_announce_send ev s = do {
     let request = \<lparr>req_info_hash = info_hash s, num_want = of_nat NANOTORRENT_MAX_SWARM_PEERS, req_event = ev\<rparr>;
     (data, n) \<leftarrow> nanotorrent_pack_announce_request request (replicate 22 0, 0);
     Some (emit (UdpSend TrackerSocket (take n data)) s) }"

definition nanotorrent_swarm_announce_stop :: "('f, 'm, 't) contiki \<Rightarrow>
    ('f, 'm, 't, 'a) nanotorrent_swarm_scheme \<Rightarrow> u8 \<times> ('f, 'm, 't, 'a) nanotorrent_swarm_scheme" where
  "nanotorrent_swarm_announce_stop K s =
    (announce_retry_event s,
     s\<lparr>announce_retry_event := 0, announce_retry := nanotorrent_retry_stop K (announce_retry s)\<rparr>)"

definition nanotorrent_swarm_leave_quiet :: "('f, 'm, 't) contiki \<Rightarrow>
    ('f, 'm, 't, 'a) nanotorrent_swarm_scheme \<Rightarrow> ('f, 'm, 't, 'a) nanotorrent_swarm_scheme" where
  "nanotorrent_swarm_leave_quiet K s =
    (let s = s\<lparr>swarm_state := NANOTORRENT_SWARM_LEFT\<rparr>;
         s = nanotorrent_swarm_clear_peers K s;
         s = s\<lparr>refresh := etimer_stop K (refresh s)\<rparr>
     in snd (nanotorrent_swarm_announce_stop K s))"

definition nanotorrent_swarm_force_leave :: "('f, 'm, 't) contiki \<Rightarrow>
    ('f, 'm, 't, 'a) nanotorrent_swarm_scheme \<Rightarrow> ('f, 'm, 't, 'a) nanotorrent_swarm_scheme" where
  "nanotorrent_swarm_force_leave K s =
    (let was_joined = nanotorrent_swarm_is_joined s;
         s = nanotorrent_swarm_leave_quiet K s
     in if was_joined then nanotorrent_swarm_post_event (s\<lparr>swarm_state := NANOTORRENT_SWARM_LEFT\<rparr>) else s)"

definition nanotorrent_swarm_leave :: "('f, 'm, 't) contiki \<Rightarrow>
    ('f, 'm, 't, 'a) nanotorrent_swarm_scheme \<Rightarrow> ('f, 'm, 't, 'a) nanotorrent_swarm_scheme option" where
  "nanotorrent_swarm_leave K s =
    (let was_joined = (swarm_state s = NANOTORRENT_SWARM_JOINING \<or> swarm_state s = NANOTORRENT_SWARM_JOINED);
         s = nanotorrent_swarm_leave_quiet K s
     in if was_joined then
          map_option nanotorrent_swarm_post_event (nanotorrent_swarm_announce_send NANOTRACKER_ANNOUNCE_STOPPED s)
        else Some s)"

text \<open>
  The callbacks of the announce retry. As for requests, starting a retry calls the again callback, and the
  invariant excludes the calls that have no result here.
\<close>

definition nanotorrent_swarm_announce_start :: "('f, 'm, 't) contiki \<Rightarrow> u8 \<Rightarrow>
    ('f, 'm, 't, 'a) nanotorrent_swarm_scheme \<Rightarrow> ('f, 'm, 't, 'a) nanotorrent_swarm_scheme option" where
  "nanotorrent_swarm_announce_start K ev s =
    (let s = s\<lparr>announce_retry_event := ev\<rparr>;
         (r, call) = nanotorrent_retry_start K (now s) (announce_retry s) NANOTORRENT_MAX_ANNOUNCE_RETRIES None;
         s = s\<lparr>announce_retry := r\<rparr>
     in case call of
          None \<Rightarrow> Some s
        | Some (nanotorrent_swarm_announce_retry_again, _) \<Rightarrow> nanotorrent_swarm_announce_send (announce_retry_event s) s
        | Some _ \<Rightarrow> None)"

definition process_announce_retry :: "('f, 'm, 't) contiki \<Rightarrow>
    ('f, 'm, 't, 'a) nanotorrent_swarm_scheme \<Rightarrow> ('f, 'm, 't, 'a) nanotorrent_swarm_scheme option" where
  "process_announce_retry K s =
    (let (r, call) = nanotorrent_retry_process K (now s) (announce_retry s);
         s = s\<lparr>announce_retry := r\<rparr>
     in case call of
          None \<Rightarrow> Some s
        | Some (nanotorrent_swarm_announce_retry_again, _) \<Rightarrow> nanotorrent_swarm_announce_send (announce_retry_event s) s
        | Some (nanotorrent_swarm_announce_retry_stop, _) \<Rightarrow> Some (nanotorrent_swarm_force_leave K s)
        | Some _ \<Rightarrow> None)"

definition nanotorrent_swarm_join :: "('f, 'm, 't) contiki \<Rightarrow>
    ('f, 'm, 't, 'a) nanotorrent_swarm_scheme \<Rightarrow> ('f, 'm, 't, 'a) nanotorrent_swarm_scheme option" where
  "nanotorrent_swarm_join K s =
    (if \<not> nanotorrent_swarm_can_join s then Some s
     else do {
       s \<leftarrow> nanotorrent_swarm_announce_start K NANOTRACKER_ANNOUNCE_STARTED s;
       let s = s\<lparr>swarm_state := NANOTORRENT_SWARM_JOINING\<rparr>;
       Some (nanotorrent_swarm_post_event s) })"

definition nanotorrent_swarm_refresh :: "('f, 'm, 't) contiki \<Rightarrow>
    ('f, 'm, 't, 'a) nanotorrent_swarm_scheme \<Rightarrow> ('f, 'm, 't, 'a) nanotorrent_swarm_scheme option" where
  "nanotorrent_swarm_refresh K s =
    (if \<not> nanotorrent_swarm_is_joined s then Some s
     else nanotorrent_swarm_announce_start K NANOTRACKER_ANNOUNCE_REFRESH s)"

definition nanotorrent_swarm_complete ::
    "('f, 'm, 't, 'a) nanotorrent_swarm_scheme \<Rightarrow> ('f, 'm, 't, 'a) nanotorrent_swarm_scheme option" where
  "nanotorrent_swarm_complete s =
    (if \<not> nanotorrent_swarm_is_joined s then Some s
     else nanotorrent_swarm_announce_send NANOTRACKER_ANNOUNCE_COMPLETED s)"

definition nanotorrent_swarm_init :: "('f, 'm, 't) contiki \<Rightarrow>
    ('f, 'm, 't, 'a) nanotorrent_swarm_scheme \<Rightarrow> ('f, 'm, 't, 'a) nanotorrent_swarm_scheme" where
  "nanotorrent_swarm_init K s =
    (let s = s\<lparr>announce_retry := nanotorrent_retry_init K (announce_retry s) (NANOTORRENT_ANNOUNCE_RETRY_TIMEOUT K)
           nanotorrent_swarm_announce_retry_again nanotorrent_swarm_announce_retry_stop\<rparr>;
         s = nanotorrent_swarm_leave_quiet K s;
         s = s\<lparr>swarm_state := NANOTORRENT_SWARM_INIT\<rparr>;
         s = emit (UdpClose TrackerSocket) s;
         s = emit (UdpRegister TrackerSocket) s
     in emit (UdpConnect TrackerSocket (tracker_ip (desc s)) (tracker_port (desc s))) s)"

definition nanotorrent_swarm_shutdown :: "('f, 'm, 't) contiki \<Rightarrow>
    ('f, 'm, 't, 'a) nanotorrent_swarm_scheme \<Rightarrow> ('f, 'm, 't, 'a) nanotorrent_swarm_scheme" where
  "nanotorrent_swarm_shutdown K s = emit (UdpClose TrackerSocket) (nanotorrent_swarm_force_leave K s)"

section \<open>Replies of the tracker\<close>

definition nanotorrent_swarm_handle_join :: "('f, 'm, 't) contiki \<Rightarrow>
    ('f, 'm, 't, 'a) nanotorrent_swarm_scheme \<Rightarrow> ('f, 'm, 't, 'a) nanotorrent_swarm_scheme" where
  "nanotorrent_swarm_handle_join K s =
    (let s = s\<lparr>swarm_state := NANOTORRENT_SWARM_JOINED\<rparr>;
         s = s\<lparr>refresh := etimer_set K (now s) (NANOTORRENT_ANNOUNCE_REFRESH_PERIOD K) (refresh s)\<rparr>
     in nanotorrent_swarm_post_event s)"

definition nanotorrent_swarm_handle_refresh :: "('f, 'm, 't) contiki \<Rightarrow>
    ('f, 'm, 't, 'a) nanotorrent_swarm_scheme \<Rightarrow> ('f, 'm, 't, 'a) nanotorrent_swarm_scheme" where
  "nanotorrent_swarm_handle_refresh K s =
    (let s = s\<lparr>refresh := etimer_set K (now s) (NANOTORRENT_ANNOUNCE_REFRESH_PERIOD K) (refresh s)\<rparr>
     in nanotorrent_swarm_post_event s)"

text \<open>The loop that takes over the peers of the reply, \<open>n\<close> of them.\<close>

fun add_peers :: "('f, 'm, 't) contiki \<Rightarrow> nat \<Rightarrow> buf \<Rightarrow>
    ('f, 'm, 't, 'a) nanotorrent_swarm_scheme \<Rightarrow> ('f, 'm, 't, 'a) nanotorrent_swarm_scheme option" where
  "add_peers K 0 data s = Some s"
| "add_peers K (Suc n) data s = do {
     (info, data) \<leftarrow> nanotorrent_unpack_peer_info data;
     (case nanotorrent_swarm_add_peer K info s of
        (True, s) \<Rightarrow> add_peers K n data s
      | (False, s) \<Rightarrow> Some s) }"

definition nanotorrent_swarm_handle_reply :: "('f, 'm, 't) contiki \<Rightarrow> u8 list \<Rightarrow>
    ('f, 'm, 't, 'a) nanotorrent_swarm_scheme \<Rightarrow> ('f, 'm, 't, 'a) nanotorrent_swarm_scheme option" where
  "nanotorrent_swarm_handle_reply K mem s = do {
     (reply, data) \<leftarrow> nanotorrent_unpack_announce_reply (mem, 0);
     if \<not> sha1_cmp (info_hash s) (rep_info_hash reply) then Some s
     else do {
       let s = nanotorrent_swarm_clear_peers K s;
       s \<leftarrow> add_peers K (unat (num_peers reply)) data s;
       let (ev, s) = nanotorrent_swarm_announce_stop K s;
       Some (if ev = NANOTRACKER_ANNOUNCE_STARTED then nanotorrent_swarm_handle_join K s
             else if ev = NANOTRACKER_ANNOUNCE_REFRESH then nanotorrent_swarm_handle_refresh K s
             else s) } }"

section \<open>The swarm process\<close>

text \<open>The loop of the joined process, up to its wait.\<close>

definition swarm_refresh_loop :: "('f, 'm, 't) contiki \<Rightarrow>
    ('f, 'm, 't, 'a) nanotorrent_swarm_scheme \<Rightarrow> ('f, 'm, 't, 'a) nanotorrent_swarm_scheme option" where
  "swarm_refresh_loop K s =
    (if nanotorrent_swarm_is_joined s then do {
       s \<leftarrow> process_announce_retry K s;
       s \<leftarrow> (if etimer_expired K (now s) (refresh s) then
               nanotorrent_swarm_refresh K (s\<lparr>refresh := etimer_restart K (now s) (refresh s)\<rparr>)
             else Some s);
       Some (s\<lparr>swarm_pc := SwarmWaitRefresh\<rparr>) }
     else Some (s\<lparr>swarm_pc := SwarmEnded\<rparr>))"

text \<open>The loop of the joining process, up to its wait or into the next loop.\<close>

definition swarm_join_loop :: "('f, 'm, 't) contiki \<Rightarrow>
    ('f, 'm, 't, 'a) nanotorrent_swarm_scheme \<Rightarrow> ('f, 'm, 't, 'a) nanotorrent_swarm_scheme option" where
  "swarm_join_loop K s =
    (if \<not> nanotorrent_swarm_is_joined s then do {
       s \<leftarrow> process_announce_retry K s;
       Some (s\<lparr>swarm_pc := SwarmWaitJoined\<rparr>) }
     else swarm_refresh_loop K s)"

definition swarm_ready_loop :: "('f, 'm, 't) contiki \<Rightarrow>
    ('f, 'm, 't, 'a) nanotorrent_swarm_scheme \<Rightarrow> ('f, 'm, 't, 'a) nanotorrent_swarm_scheme option" where
  "swarm_ready_loop K s =
    (if \<not> nanotorrent_swarm_is_ready K s then
       Some (s\<lparr>ready_poll := etimer_reset K (ready_poll s), swarm_pc := SwarmWaitReady\<rparr>)
     else do {
       s \<leftarrow> nanotorrent_swarm_join K (nanotorrent_swarm_set_ready s);
       swarm_join_loop K s })"

definition nanotorrent_swarm_process :: "('f, 'm, 't) contiki \<Rightarrow> event \<Rightarrow>
    ('f, 'm, 't, 'a) nanotorrent_swarm_scheme \<Rightarrow> ('f, 'm, 't, 'a) nanotorrent_swarm_scheme option" where
  "nanotorrent_swarm_process K ev s =
    (if ev = PROCESS_EVENT_EXIT then Some ((nanotorrent_swarm_shutdown K s)\<lparr>swarm_pc := SwarmEnded\<rparr>)
     else
       (case swarm_pc s of
          SwarmNotStarted \<Rightarrow>
            (let s = nanotorrent_swarm_init K s;
                 s = s\<lparr>ready_poll := etimer_set K (now s) (SWARM_READY_POLL_PERIOD K) (ready_poll s)\<rparr>
             in swarm_ready_loop K s)
        | SwarmWaitReady \<Rightarrow> if etimer_expired K (now s) (ready_poll s) then swarm_ready_loop K s else Some s
        | SwarmWaitJoined \<Rightarrow> if nanotorrent_retry_check K (now s) (announce_retry s) then swarm_join_loop K s else Some s
        | SwarmWaitRefresh \<Rightarrow>
            if nanotorrent_retry_check K (now s) (announce_retry s) \<or> etimer_expired K (now s) (refresh s)
            then swarm_refresh_loop K s else Some s
        | SwarmEnded \<Rightarrow> Some s))"

end
