(* ===== verification/Nanotorrent.thy ===== *)
theory Nanotorrent
  imports Swarm
begin

text \<open>
  \<^verbatim>\<open>peer/nanotorrent.h\<close> and \<^verbatim>\<open>peer/nanotorrent.c\<close>: the main process, in the configuration with the tracker. It
  starts the peer and swarm processes, waits for the swarm to be joined, connects with the peers of the swarm and
  seeds for a while when the file is complete. \<open>main_pc\<close> is the place where the process waits.
\<close>

section \<open>State\<close>

definition NANOTORRENT_FILE_NAME_LENGTH :: nat where
  "NANOTORRENT_FILE_NAME_LENGTH = 16"

definition NANOTORRENT_SEED_TIME :: "('f, 'm, 't) contiki \<Rightarrow> nat" where
  "NANOTORRENT_SEED_TIME K = 300 * clock_second K"

datatype main_pc = MainNotStarted | MainWaitJoining | MainWaitJoined | MainWaitEvent | MainEnded

record ('f, 'm, 't) nanotorrent = "('f, 'm, 't) nanotorrent_swarm" +
  seed_timer :: 't
  seed_timer_set :: bool
  main_pc :: main_pc

section \<open>Starting and stopping\<close>

text \<open>
  The state is cleared before the descriptor and the name are stored, so the name is cut to 15 characters and
  terminated. The array of the packed info on the stack and the hash context are arguments.
\<close>

definition nanotorrent_start :: "sha1_context \<Rightarrow> u8 list \<Rightarrow> nanotorrent_torrent_desc \<Rightarrow> string \<Rightarrow>
    ('f, 'm, 't, 'a) nanotorrent_scheme \<Rightarrow> ('f, 'm, 't, 'a) nanotorrent_scheme option" where
  "nanotorrent_start context data d name s = do {
     let s = s\<lparr>info_hash := replicate 20 0, file_name := ''''\<rparr>;
     let s = s\<lparr>desc := d\<rparr>;
     let s = s\<lparr>file_name := take (NANOTORRENT_FILE_NAME_LENGTH - 1) name\<rparr>;
     let s = s\<lparr>seed_timer_set := False\<rparr>;
     (_, digest) \<leftarrow> nanotorrent_torrent_info_hash context data (the_info s);
     let s = s\<lparr>info_hash := digest\<rparr>;
     Some (emit (ProcessStart MainProcess) s) }"

definition nanotorrent_stop :: "'a env_scheme \<Rightarrow> 'a env_scheme" where
  "nanotorrent_stop s = emit (ProcessExit MainProcess) s"

definition nanotorrent_init :: "('f, 'm, 't) contiki \<Rightarrow> sha1_context \<Rightarrow>
    ('f, 'm, 't, 'a) nanotorrent_scheme \<Rightarrow> ('f, 'm, 't, 'a) nanotorrent_scheme option" where
  "nanotorrent_init K context s = do {
     s \<leftarrow> nanotorrent_piece_init K context s;
     let s = nanotorrent_select_init s;
     let s = nanotorrent_peer_start s;
     Some (nanotorrent_swarm_start s) }"

definition nanotorrent_shutdown :: "('f, 'm, 't) contiki \<Rightarrow>
    ('f, 'm, 't, 'a) nanotorrent_scheme \<Rightarrow> ('f, 'm, 't, 'a) nanotorrent_scheme" where
  "nanotorrent_shutdown K s =
    (let s = nanotorrent_swarm_stop s;
         s = nanotorrent_peer_stop s
     in nanotorrent_piece_shutdown K s)"

section \<open>Connecting with the swarm\<close>

text \<open>The loop ends when no peer is left or no connection is free; \<open>None\<close> when it does not end.\<close>

partial_function (option) nanotorrent_connect_swarm :: "('f, 'm, 't) contiki \<Rightarrow>
    ('f, 'm, 't, 'a) nanotorrent_scheme \<Rightarrow> ('f, 'm, 't, 'a) nanotorrent_scheme option" where
  "nanotorrent_connect_swarm K s =
    (case nanotorrent_swarm_peek_peer s of
       None \<Rightarrow> Some s
     | Some peer \<Rightarrow>
         (case nanotorrent_peer_connect K peer s of
            (None, s) \<Rightarrow> Some s
          | (Some c, s) \<Rightarrow> nanotorrent_connect_swarm K (nanotorrent_swarm_pop_peer K s)))"

definition nanotorrent_handle_swarm_event :: "('f, 'm, 't) contiki \<Rightarrow>
    ('f, 'm, 't, 'a) nanotorrent_scheme \<Rightarrow> (bool \<times> ('f, 'm, 't, 'a) nanotorrent_scheme) option" where
  "nanotorrent_handle_swarm_event K s =
    (case swarm_state s of
       NANOTORRENT_SWARM_JOINED \<Rightarrow> map_option (Pair True) (nanotorrent_connect_swarm K s)
     | NANOTORRENT_SWARM_LEFT \<Rightarrow> Some (False, s)
     | _ \<Rightarrow> Some (False, s))"

section \<open>The main process\<close>

definition nanotorrent_check_event :: "('f, 'm, 't) contiki \<Rightarrow> event \<Rightarrow> ('f, 'm, 't, 'a) nanotorrent_scheme \<Rightarrow> bool" where
  "nanotorrent_check_event K ev s =
    (ev = peer_event \<or> ev = swarm_event \<or> seed_timer_set s \<and> etimer_expired K (now s) (seed_timer s))"

definition nanotorrent_keep_going :: "('f, 'm, 't) contiki \<Rightarrow>
    ('f, 'm, 't, 'a) nanotorrent_scheme \<Rightarrow> bool \<times> ('f, 'm, 't, 'a) nanotorrent_scheme" where
  "nanotorrent_keep_going K s =
    (if \<not> nanotorrent_piece_is_seed (int_bits K) s then (True, s)
     else if int (NANOTORRENT_SEED_TIME K) < 0 then (True, s)
     else
       (let s = (if \<not> seed_timer_set s then
                   s\<lparr>seed_timer := etimer_set K (now s) (clock_time K (NANOTORRENT_SEED_TIME K)) (seed_timer s),
                     seed_timer_set := True\<rparr>
                 else s)
        in if etimer_expired K (now s) (seed_timer s) then (False, s) else (True, s)))"

text \<open>The loop that exchanges pieces, from its condition to its wait or to the end of the process.\<close>

definition exchange_loop :: "('f, 'm, 't) contiki \<Rightarrow> event \<Rightarrow>
    ('f, 'm, 't, 'a) nanotorrent_scheme \<Rightarrow> ('f, 'm, 't, 'a) nanotorrent_scheme option" where
  "exchange_loop K ev s =
    (let (go, s) = nanotorrent_keep_going K s in
     if \<not> go then Some (s\<lparr>main_pc := MainEnded\<rparr>)
     else do {
       (ok, s) \<leftarrow> (if ev = swarm_event then nanotorrent_handle_swarm_event K s else Some (True, s));
       if \<not> ok then Some (s\<lparr>main_pc := MainEnded\<rparr>)
       else do {
         s \<leftarrow> (if ev = peer_event then nanotorrent_connect_swarm K s else Some s);
         Some (s\<lparr>main_pc := MainWaitEvent\<rparr>) } })"

definition nanotorrent_process :: "('f, 'm, 't) contiki \<Rightarrow> sha1_context \<Rightarrow> event \<Rightarrow>
    ('f, 'm, 't, 'a) nanotorrent_scheme \<Rightarrow> ('f, 'm, 't, 'a) nanotorrent_scheme option" where
  "nanotorrent_process K context ev s =
    (if ev = PROCESS_EVENT_EXIT then Some ((nanotorrent_shutdown K s)\<lparr>main_pc := MainEnded\<rparr>)
     else
       (case main_pc s of
          MainNotStarted \<Rightarrow> map_option (\<lambda>s. s\<lparr>main_pc := MainWaitJoining\<rparr>) (nanotorrent_init K context s)
        | MainWaitJoining \<Rightarrow>
            if ev = swarm_event then
              (if \<not> nanotorrent_swarm_is_joining s then Some (s\<lparr>main_pc := MainEnded\<rparr>)
               else Some (s\<lparr>main_pc := MainWaitJoined\<rparr>))
            else Some s
        | MainWaitJoined \<Rightarrow>
            if ev = swarm_event then
              (if \<not> nanotorrent_swarm_is_joined s then Some (s\<lparr>main_pc := MainEnded\<rparr>)
               else do { s \<leftarrow> nanotorrent_connect_swarm K s; exchange_loop K ev s })
            else Some s
        | MainWaitEvent \<Rightarrow> if nanotorrent_check_event K ev s then exchange_loop K ev s else Some s
        | MainEnded \<Rightarrow> Some s))"

end
