(* ===== verification/Exchange.thy ===== *)
theory Exchange
  imports Peer_Inv
begin

text \<open>
  The data path keeps the invariant: receiving data, handling messages and the peer process. The steps
  of the component and the states they reach are at the end, with the properties of the component.
\<close>

section \<open>More frames\<close>

lemma post_seeding_frames:
  "same_net s (nanotorrent_peer_post_seeding K s)" "same_store s (nanotorrent_peer_post_seeding K s)"
  "same_requests s (nanotorrent_peer_post_seeding K s)" "conns (nanotorrent_peer_post_seeding K s) = conns s"
  by (simp_all add: nanotorrent_peer_post_seeding_def Let_def same_net_def same_store_def same_requests_def)

lemma same_inv:
  assumes "same_net s s'" "same_store s s'" "same_requests s s'"
  shows "peer_inv K s' = peer_inv K s"
  using assms same_net_inv same_store_have same_requests_pending unfolding peer_inv_def by blast

lemma same_requests_trans: "same_requests s t \<Longrightarrow> same_requests t u \<Longrightarrow> same_requests s u"
  by (simp add: same_requests_def)

lemma same_conns_armed: "conns s' = conns s \<Longrightarrow> peers s' = peers s \<Longrightarrow> armed s' = armed s"
  by (simp add: armed_def armed_conn_def)

lemma post_seeding_inv:
  "peer_inv K (nanotorrent_peer_post_seeding L s) = peer_inv K s" "armed (nanotorrent_peer_post_seeding L s) = armed s"
  using same_inv [OF post_seeding_frames(1-3), of K L s]
    same_conns_armed [OF post_seeding_frames(4) same_net_peers [OF post_seeding_frames(1)], of L s] by simp_all

text \<open>Complete pieces stay complete, and the file keeps their bytes.\<close>

definition progress :: "('f, 'm, 't) contiki \<Rightarrow> ('f, 'a) piece_state_scheme \<Rightarrow> ('f, 'a) piece_state_scheme \<Rightarrow> bool" where
  "progress K s s' \<longleftrightarrow> the_info s' = the_info s \<and> bits (own_have s) \<subseteq> bits (own_have s') \<and>
     length (own_content K s) \<le> length (own_content K s') \<and>
     (\<forall>j \<in> bits (own_have s). \<forall>k < piece_len (the_info s) j. piece_off (the_info s) j + k < length (own_content K s) \<longrightarrow>
        own_content K s' ! (piece_off (the_info s) j + k) = own_content K s ! (piece_off (the_info s) j + k))"

lemma progress_refl [simp]: "progress K s s"
  by (simp add: progress_def)

lemma progress_trans: "progress K s t \<Longrightarrow> progress K t u \<Longrightarrow> progress K s u"
  unfolding progress_def by (auto simp: subset_iff)

lemma same_store_progress: "same_store s s' \<Longrightarrow> progress K s s'"
  by (simp add: same_store_def progress_def own_content_def)

lemma same_content_progress:
  "the_info s' = the_info s \<Longrightarrow> own_content K s' = own_content K s \<Longrightarrow> bits (own_have s) \<subseteq> bits (own_have s') \<Longrightarrow> progress K s s'"
  by (simp add: progress_def)

lemma write_progress:
  assumes "writes_piece (the_info s) i (own_content K s) (cfs_content K f (own_file s))" "i \<notin> bits (own_have s)"
  shows "progress K s (s\<lparr>files := f\<rparr>)"
proof -
  have "cfs_content K f (own_file s) ! (piece_off (the_info s) j + k) = own_content K s ! (piece_off (the_info s) j + k)"
    if "j \<in> bits (own_have s)" "k < piece_len (the_info s) j" "piece_off (the_info s) j + k < length (own_content K s)" for j k
  proof -
    have "j \<noteq> i"
      using that(1) assms(2) by blast
    from piece_disjoint [OF this, of "the_info s"] show ?thesis
      using assms(1) that(2,3) unfolding writes_piece_def by auto
  qed
  then show ?thesis
    using assms(1) by (simp add: progress_def writes_piece_def own_content_def)
qed

text \<open>The bytes of a piece from position \<open>m\<close> on are left alone.\<close>

definition tail_kept :: "('f, 'm, 't) contiki \<Rightarrow> nat \<Rightarrow> ('f, 'a) piece_state_scheme \<Rightarrow> ('f, 'a) piece_state_scheme \<Rightarrow> bool" where
  "tail_kept K m s s' \<longleftrightarrow> the_info s' = the_info s \<and> length (own_content K s) \<le> length (own_content K s') \<and>
     (\<forall>j k. m \<le> k \<and> k < piece_len (the_info s) j \<and> piece_off (the_info s) j + k < length (own_content K s) \<longrightarrow>
        own_content K s' ! (piece_off (the_info s) j + k) = own_content K s ! (piece_off (the_info s) j + k))"

lemma tail_kept_same: "the_info s' = the_info s \<Longrightarrow> own_content K s' = own_content K s \<Longrightarrow> tail_kept K m s s'"
  by (simp add: tail_kept_def)

lemma tail_kept_store: "same_store s s' \<Longrightarrow> tail_kept K m s s'"
  by (simp add: same_store_def tail_kept_def own_content_def)

lemma tail_kept_trans: "tail_kept K m s t \<Longrightarrow> tail_kept K m t u \<Longrightarrow> tail_kept K m s u"
  unfolding tail_kept_def by auto

lemma tail_kept_write:
  assumes "writes_piece (the_info s) i (own_content K s) (cfs_content K f (own_file s))"
    and "\<forall>j < length (own_content K s). j < piece_off (the_info s) i + off \<or> piece_off (the_info s) i + off + n \<le> j \<longrightarrow>
      cfs_content K f (own_file s) ! j = own_content K s ! j"
    and "off + n \<le> m"
  shows "tail_kept K m s (s\<lparr>files := f\<rparr>)"
proof -
  have "cfs_content K f (own_file s) ! (piece_off (the_info s) j + k) = own_content K s ! (piece_off (the_info s) j + k)"
    if "m \<le> k" "k < piece_len (the_info s) j" "piece_off (the_info s) j + k < length (own_content K s)" for j k
  proof (cases "j = i")
    case True
    then show ?thesis
      using assms(2,3) that(1,3) by simp
  next
    case False
    from piece_disjoint [OF this, of "the_info s"] show ?thesis
      using assms(1) that(2,3) unfolding writes_piece_def by auto
  qed
  then show ?thesis
    using assms(1) by (simp add: tail_kept_def writes_piece_def own_content_def)
qed

section \<open>Choosing the connection that receives data\<close>

lemma find_request_Some:
  assumes "find_request K peer i m cs f = Some c"
    and "\<And>d. f = Some d \<Longrightarrow> d \<in> A \<and> has_request (m d) \<and> request_index (m d) = i" "set cs \<subseteq> A"
  shows "c \<in> A \<and> has_request (m c) \<and> request_index (m c) = i"
  using assms by (induction cs arbitrary: f) (auto split: if_splits)

lemma find_request_None:
  "find_request K peer i m cs f = None \<longleftrightarrow> f = None \<and> (\<forall>c \<in> set cs. \<not> (has_request (m c) \<and> request_index (m c) = i))"
  by (induction cs arbitrary: f) auto

lemma pending_find_request:
  assumes "pending_ok s" "nanotorrent_peer_has_request i s"
  shows "\<exists>c. nanotorrent_peer_find_request K peer i s = Some c \<and> c \<in> set (peers s) \<and> has_request (conns s c) \<and>
    request_index (conns s c) = i"
proof -
  have "\<exists>c. requesting s c (unat i)"
    using assms by (auto simp: nanotorrent_peer_has_request_def bits_get pending_ok_def)
  then have "nanotorrent_peer_find_request K peer i s \<noteq> None"
    by (auto simp: nanotorrent_peer_find_request_def find_request_None requesting_def word_unat_eq_iff)
  then obtain c where c: "nanotorrent_peer_find_request K peer i s = Some c"
    by blast
  then show ?thesis
    using find_request_Some [of K peer i "conns s" "peers s" None c "set (peers s)"]
    by (simp add: nanotorrent_peer_find_request_def)
qed

definition armed_others :: "('f, 'm, 't, 'a) peer_state_scheme \<Rightarrow> nat \<Rightarrow> bool" where
  "armed_others s c \<longleftrightarrow> (\<forall>d \<in> set (peers s) - {c}. armed_conn s d)"

lemma armed_others: "armed s \<Longrightarrow> armed_others s c"
  by (simp add: armed_def armed_others_def)

lemma armed_others_only: "armed_others s c \<Longrightarrow> only_conn c s s' \<Longrightarrow> peers s' = peers s \<Longrightarrow> armed_others s' c"
  by (simp add: armed_others_def only_conn_def armed_conn_def)

lemma armed_others_all: "armed_others s c \<Longrightarrow> armed_conn s c \<Longrightarrow> armed s"
  by (auto simp: armed_def armed_others_def)

text \<open>The receiver, when there is one, requests the piece, and the piece is not complete. No null pointer is used.\<close>

lemma data_receiver_outcome:
  assumes "kernel_ok K" "peer_inv K s" "armed s" "nanotorrent_piece_is_valid i s"
  shows "\<exists>r s'. nanotorrent_peer_data_receiver K peer i start len s = Some (r, s') \<and> peer_inv K s' \<and> same_store s s' \<and>
    (case r of
       None \<Rightarrow> armed s'
     | Some c \<Rightarrow> c \<in> set (peers s') \<and> has_request (conns s' c) \<and> request_index (conns s' c) = i \<and>
         unat i \<notin> bits (own_have s) \<and> armed_others s' c \<and> (armed_conn s' c \<or> start = 0))"
proof -
  have n: "net_inv K s" "pending_ok s" "have_ok K s"
    using assms(2) by (simp_all add: peer_inv_def)
  have none: ?thesis if "nanotorrent_peer_data_receiver K peer i start len s = Some (None, s')" "peer_inv K s'" "same_store s s'"
      "armed s'" for s'
    using that by (intro exI [of _ None] exI [of _ s']) simp
  have vi: "unat i < unat (num_pieces (the_info s))"
    using assms(4) by (simp add: valid_iff)
  consider (complete) "nanotorrent_piece_is_complete i s"
    | (pending) "\<not> nanotorrent_piece_is_complete i s" "nanotorrent_peer_has_request i s"
    | (late) "\<not> nanotorrent_piece_is_complete i s" "\<not> nanotorrent_peer_has_request i s" "start \<noteq> 0"
    | (new) "\<not> nanotorrent_piece_is_complete i s" "\<not> nanotorrent_peer_has_request i s" "start = 0"
    by blast
  then show ?thesis
  proof cases
    case complete
    then show ?thesis
      using assms(2,3) by (intro none [of s]) (simp_all add: nanotorrent_peer_data_receiver_def)
  next
    case late
    then show ?thesis
      using assms(2,3) by (intro none [of s]) (simp_all add: nanotorrent_peer_data_receiver_def)
  next
    case pending
    obtain c where c: "nanotorrent_peer_find_request K peer i s = Some c" "c \<in> set (peers s)" "has_request (conns s c)"
        "request_index (conns s c) = i"
      using pending_find_request [OF n(2) pending(2)] by blast
    have i: "unat i \<notin> bits (own_have s)"
      using pending(1) assms(4) by (simp add: is_complete_iff)
    have "nanotorrent_peer_data_receiver K peer i start len s = Some (None, s) \<or>
        nanotorrent_peer_data_receiver K peer i start len s = Some (Some c, s)"
      using pending c(1) by (simp add: nanotorrent_peer_data_receiver_def)
    then show ?thesis
    proof
      assume "nanotorrent_peer_data_receiver K peer i start len s = Some (None, s)"
      then show ?thesis
        using assms(2,3) by (intro none [of s]) simp_all
    next
      assume "nanotorrent_peer_data_receiver K peer i start len s = Some (Some c, s)"
      moreover have "armed_conn s c"
        using assms(3) c(2) by (simp add: armed_def)
      ultimately show ?thesis
        using c i assms(2) armed_others [OF assms(3)] by (intro exI [of _ "Some c"] exI [of _ s]) simp
    qed
  next
    case new
    obtain r s1 where cn: "nanotorrent_peer_connect_with K peer PeersOut s = (r, s1)" "net_inv K s1" "pending_ok s1" "same_store s s1"
      "case r of None \<Rightarrow> s1 = s \<and> nanotorrent_peer_find K peer s = None
       | Some c \<Rightarrow> c \<in> set (peers s1) \<and> conn_peer_info (conns s1 c) = peer \<and> only_conn c s s1 \<and>
         (if c \<in> set (peers s) then s1 = s else peers s1 = c # peers s \<and> \<not> has_request (conns s1 c))"
      using connect_with_outcome [OF assms(1) n(1,2), of peer PeersOut] by blast
    have p1: "peer_inv K s1"
      using cn(2,3) n(3) same_store_have [OF cn(4), of K] by (simp add: peer_inv_def)
    show ?thesis
    proof (cases r)
      case None
      then show ?thesis
        using cn new assms(2,3) by (intro none [of s]) (simp_all add: nanotorrent_peer_data_receiver_def nanotorrent_peer_connect_def)
    next
      case (Some c)
      then have c: "c \<in> set (peers s1)" "armed s1"
        using cn(5) connect_armed [OF assms(3), of c s1] by simp_all
      show ?thesis
      proof (cases "has_request (conns s1 c)")
        case True
        then show ?thesis
          using cn Some new c p1 by (intro none [of s1]) (simp_all add: nanotorrent_peer_data_receiver_def nanotorrent_peer_connect_def)
      next
        case False
        define s2 where "s2 = set_conn c (\<lambda>x. x\<lparr>request_offset := start\<rparr>) (set_conn c (\<lambda>x. x\<lparr>request_index := i\<rparr>) s1)"
        define s3 where "s3 = nanotorrent_peer_request_init K c s2"
        have e: "nanotorrent_peer_data_receiver K peer i start len s = Some (Some c, s3)"
          using cn(1) Some new False
          by (simp add: nanotorrent_peer_data_receiver_def nanotorrent_peer_connect_def Let_def s3_def s2_def)
        have f2: "same_net s1 s2" "same_store s1 s2"
          by (simp_all add: s2_def same_net_def same_store_def)
        note f3 = request_init_frames [of s2 K c, folded s3_def]
        have d: "desc s1 = desc s"
          using cn(4) by (simp add: same_store_def)
        have p2: "pending_ok s2"
          using cn(3) False by (auto simp: s2_def pending_ok_def requesting_def)
        have n2: "net_inv K s2"
          using cn(2) same_net_inv [OF f2(1)] by simp
        have "pending_ok s3"
          unfolding s3_def using net_inv_fits(1) [OF n2] p2
        proof (rule request_init_pending)
          show "c \<in> set (peers s2)"
            using c(1) by (simp add: s2_def)
          show "unat (request_index (conns s2 c)) < unat (num_pieces (the_info s2))"
            using vi by (simp add: s2_def d)
        qed
        moreover have "net_inv K s3"
          using n2 same_net_inv [OF f3(1)] by simp
        moreover have st: "same_store s s3"
          using cn(4) f2(2) f3(2) same_store_trans by blast
        ultimately have "peer_inv K s3"
          using n(3) same_store_have [OF st, of K] by (simp add: peer_inv_def)
        moreover have "conns s3 d = conns s1 d" if "d \<noteq> c" for d
          using that by (simp add: s3_def s2_def nanotorrent_peer_request_init_def Let_def)
        moreover have "c \<in> set (peers s3)" "has_request (conns s3 c)" "request_index (conns s3 c) = i" "peers s3 = peers s1"
          using c(1) by (simp_all add: s3_def s2_def nanotorrent_peer_request_init_def Let_def)
        moreover have "unat i \<notin> bits (own_have s)"
          using new(1) assms(4) by (simp add: is_complete_iff)
        ultimately show ?thesis
          using e st c(2) new(3) by (intro exI [of _ "Some c"] exI [of _ s3]) (simp add: armed_others_def armed_def armed_conn_def)
      qed
    qed
  qed
qed

section \<open>Receiving data\<close>

lemma store_frames [simp]:
  "same_net s (s\<lparr>files := f\<rparr>)" "same_requests s (s\<lparr>files := f\<rparr>)"
  "same_net s (s\<lparr>own_have := h\<rparr>)" "same_requests s (s\<lparr>own_have := h\<rparr>)"
  by (simp_all add: same_net_def same_requests_def)

lemma store_inv [simp]:
  "net_inv K (s\<lparr>files := f\<rparr>) = net_inv K s" "pending_ok (s\<lparr>files := f\<rparr>) = pending_ok s"
  "net_inv K (s\<lparr>own_have := h\<rparr>) = net_inv K s" "pending_ok (s\<lparr>own_have := h\<rparr>) = pending_ok s"
  using same_net_inv [OF store_frames(1) [of s f], of K] same_net_inv [OF store_frames(3) [of s h], of K]
    same_requests_pending [OF store_frames(2) [of s f]] same_requests_pending [OF store_frames(4) [of s h]]
  by simp_all

lemma set_complete_have_ok:
  assumes "have_ok K s" "pieces_fit (int_bits K) (the_info s)" "cfs_content K f = cfs_content K (files s)"
    and "b \<Longrightarrow> piece_matches (the_info s) (unat i) (own_content K s)"
  shows "have_ok K (nanotorrent_piece_set_complete (int_bits K) i b (s\<lparr>files := f\<rparr>))"
proof -
  let ?s = "s\<lparr>files := f\<rparr>"
  let ?t = "nanotorrent_piece_set_complete (int_bits K) i b ?s"
  have h: "own_file ?t = own_file ?s" "files ?t = files ?s" "the_info ?t = the_info ?s"
  proof -
    obtain x where e: "?t = ?s\<lparr>own_have := x\<rparr>"
      using set_complete_frame by blast
    show "own_file ?t = own_file ?s" "files ?t = files ?s" "the_info ?t = the_info ?s"
      unfolding e by simp_all
  qed
  have "pieces_fit (int_bits K) (the_info ?s)"
    using assms(2) by simp
  from set_complete_have [OF this, of i b]
  have g: "bits (own_have ?t) =
    (if \<not> nanotorrent_piece_is_valid i s then bits (own_have s)
     else if b then insert (unat i) (bits (own_have s)) else bits (own_have s) - {unat i})"
    by simp
  have o: "own_content K ?t = own_content K s" "the_info ?t = the_info s"
    using assms(3) by (simp_all add: h own_content_def)
  have s: "bits (own_have s) \<subseteq> {..<unat (num_pieces (the_info s))}"
    "\<forall>j \<in> bits (own_have s). piece_verified (the_info s) j (own_content K s)"
    using assms(1) by (simp_all add: have_ok_def)
  have i: "b \<Longrightarrow> piece_verified (the_info s) (unat i) (own_content K s)"
    using assms(4) matches_verified by blast
  show ?thesis
    unfolding have_ok_def g o using s i 
    by (auto simp: valid_iff split del: if_split split: if_split_asm)
qed

lemma receive_data_outcome:
  assumes "kernel_ok K" "peer_inv K s" "armed_others s c" "length (next_block context) = 64"
    and "c \<in> set (peers s)" "has_request (conns s c)" "request_index (conns s c) = i" "nanotorrent_piece_is_valid i s"
    and "unat i \<notin> bits (own_have s)"
  shows "\<exists>s'. nanotorrent_peer_receive_data K context c i start len s = Some s' \<and> peer_inv K s' \<and> armed s' \<and>
    progress K s s' \<and> own_content K s' = own_content K s"
proof -
  have n: "net_inv K s" "pending_ok s" "have_ok K s"
    using assms(2) by (simp_all add: peer_inv_def)
  note fits = net_inv_fits [OF n(1)]
  have vi: "unat i < unat (num_pieces (the_info s))"
    using assms(8) by (simp add: valid_iff)
  show ?thesis
  proof (cases "start + len < nanotorrent_piece_size i s")
    case True
    define t where "t = set_conn c (\<lambda>x. x\<lparr>request_offset := start + len\<rparr>) s"
    have t: "same_net s t" "same_store s t" "same_requests s t" "only_conn c s t"
      by (simp_all add: t_def same_net_def same_store_def same_requests_def only_conn_def)
    have m: "net_inv K t" "pending_ok t" "c \<in> set (peers t)" "unat (request_index (conns t c)) < unat (num_pieces (the_info t))"
      using n same_net_inv [OF t(1), of K] same_requests_pending [OF t(3)] assms(5,7) vi by (simp_all add: t_def)
    from request_start_outcome [OF m] obtain s' where s': "nanotorrent_peer_request_start K c t = Some s'" "same_net t s'"
      "same_store t s'" "pending_ok s'" "only_conn c t s'" "armed_conn s' c"
      by blast
    have "nanotorrent_peer_receive_data K context c i start len s = Some s'"
      using True s'(1) by (simp add: nanotorrent_peer_receive_data_def Let_def t_def)
    moreover have st: "same_store s s'" "same_net s s'" "only_conn c s s'"
      using t s'(2,3,5) same_store_trans same_net_trans only_conn_trans by blast+
    moreover have "peer_inv K s'"
      using n s'(4) same_net_inv [OF st(2), of K] same_store_have [OF st(1), of K] by (simp add: peer_inv_def)
    moreover have "armed s'"
      using armed_others_only [OF assms(3) st(3) same_net_peers [OF st(2)]] s'(6) by (rule armed_others_all)
    moreover have "progress K s s'"
      by (rule same_store_progress [OF st(1)])
    moreover have "own_content K s' = own_content K s"
      using st(1) by (simp add: same_store_def own_content_def)
    ultimately show ?thesis by blast
  next
    case False
    define s1 where "s1 = nanotorrent_peer_request_stop K c s"
    note f1 = request_stop_frames [of s K c, folded s1_def]
    have p1: "pending_ok s1"
      unfolding s1_def by (rule request_stop_pending' [OF fits(1) n(2) assms(5)])
    have n1: "net_inv K s1" "have_ok K s1" "the_info s1 = the_info s" "peers s1 = peers s"
      using n same_net_inv [OF f1(1), of K] same_store_have [OF f1(2), of K] f1(1) by (simp_all add: same_net_def)
    have "armed_conn s1 d" if "d \<in> set (peers s1)" for d
      using that assms(3) n1(4) by (cases "d = c") (auto simp: s1_def request_stop_conns armed_conn_def armed_others_def)
    then have a1: "armed s1"
      by (simp add: armed_def)
    have cfs: "cfs_ok K"
      using assms(1) by (simp add: kernel_ok_def)
    have wf1: "torrent_wf (the_info s1)"
      using fits(6) n1(3) by simp
    from piece_verify_outcome [OF cfs wf1 assms(4), of i] obtain b ctx f where
      v: "nanotorrent_piece_verify K context i s1 = Some (b, ctx, s1\<lparr>files := f\<rparr>)" "cfs_content K f = cfs_content K (files s1)"
        "b \<longrightarrow> nanotorrent_piece_is_valid i s1 \<and> piece_matches (the_info s1) (unat i) (own_content K s1)"
      by blast
    define s2 where "s2 = nanotorrent_piece_set_complete (int_bits K) i b (s1\<lparr>files := f\<rparr>)"
    have h2: "have_ok K s2"
      unfolding s2_def using v fits(7) n1 by (intro set_complete_have_ok) simp_all
    obtain h where s2: "s2 = s1\<lparr>files := f, own_have := h\<rparr>"
      unfolding s2_def using set_complete_frame by blast
    have n2: "net_inv K s2" "pending_ok s2" "armed s2" "the_info s2 = the_info s"
      using n1 p1 a1 by (simp_all add: s2 armed_def armed_conn_def)
    have oc: "own_content K s2 = own_content K s"
      using v(2) f1(2) by (simp add: s2 own_content_def same_store_def)
    have "bits (own_have s1) = bits (own_have s)" "pieces_fit (int_bits K) (the_info (s1\<lparr>files := f\<rparr>))"
      using f1(2) fits(7) n1(3) by (simp_all add: same_store_def)
    then have "bits (own_have s) \<subseteq> bits (own_have s2)"
      using set_complete_have [of "int_bits K" "s1\<lparr>files := f\<rparr>" i b] assms(9) by (auto simp: s2_def split: if_splits)
    then have pr: "progress K s s2"
      using oc n2(4) by (intro same_content_progress)
    show ?thesis
    proof (cases b)
      case b: False
      then have "nanotorrent_peer_receive_data K context c i start len s = Some s2"
        using False v(1) by (simp add: nanotorrent_peer_receive_data_def Let_def s2_def flip: s1_def)
      then show ?thesis
        using n2 h2 pr oc by (simp add: peer_inv_def)
    next
      case b: True
      define s3 where "s3 = nanotorrent_peer_request_stop_all K i s2"
      have vi2: "unat i < unat (num_pieces (the_info s2))"
        using vi n2(4) by simp
      note f3 = stop_all_outcome [OF net_inv_fits(1) [OF n2(1)] n2(2) vi2, folded s3_def]
      define s4 where "s4 = nanotorrent_peer_post_event (s3\<lparr>heartbeat_delay := heartbeat_delay s3 div 2,
        heartbeat := etimer_adjust K (minus_delay K (heartbeat_delay s3 div 2)) (heartbeat s3)\<rparr>)"
      have f4: "same_net s3 s4" "same_store s3 s4" "same_requests s3 s4" "conns s4 = conns s3"
        by (simp_all add: s4_def nanotorrent_peer_post_event_def same_net_def same_store_def same_requests_def)
      have i3: "peer_inv K s3"
        using n2(1) h2 f3(3) same_net_inv [OF f3(1), of K] same_store_have [OF f3(2), of K] by (simp add: peer_inv_def)
      have i4: "peer_inv K s4" "armed s4"
        using i3 same_inv [OF f4(1-3), of K] f3(4) [OF n2(3)] same_conns_armed [OF f4(4) same_net_peers [OF f4(1)]] by simp_all
      have e: "nanotorrent_peer_receive_data K context c i start len s =
          Some (if nanotorrent_piece_is_seed (int_bits K) s4 then nanotorrent_peer_post_seeding K s4 else s4)"
        using False v(1) b by (simp add: nanotorrent_peer_receive_data_def Let_def s4_def s3_def s2_def flip: s1_def)
      have st: "same_store s2 (nanotorrent_peer_post_seeding K s4)" "same_store s2 s4"
        using f3(2) f4(2) post_seeding_frames(2) same_store_trans by blast+
      then have "progress K s (nanotorrent_peer_post_seeding K s4)" "progress K s s4"
        using progress_trans [OF pr] same_store_progress by blast+
      moreover have "own_content K (nanotorrent_peer_post_seeding K s4) = own_content K s" "own_content K s4 = own_content K s"
        using st oc by (simp_all add: same_store_def own_content_def)
      ultimately show ?thesis
        using e i4 by (simp add: post_seeding_inv)
    qed
  qed
qed

section \<open>Messages\<close>

text \<open>A store that takes at least one byte of a non-empty write.\<close>

definition cfs_writes_some :: "('f, 'm, 't) contiki \<Rightarrow> bool" where
  "cfs_writes_some K \<longleftrightarrow> (\<forall>fd bs f. bs \<noteq> [] \<longrightarrow> 0 < fst (cfs_write K fd bs f))"

lemma write_outcome_have:
  assumes "kernel_ok K" "peer_inv K s" "unat i \<notin> bits (own_have s)"
    and "nanotorrent_piece_write K i off buffer n s = Some (r, s\<lparr>files := f\<rparr>)"
    and "writes_piece (the_info s) (unat i) (own_content K s) (cfs_content K f (own_file s))"
  shows "peer_inv K (s\<lparr>files := f\<rparr>)"
proof -
  have "have_ok K (s\<lparr>files := f\<rparr>)"
    using assms(2,3,5) verified_after_write [OF _ assms(5)]
    unfolding peer_inv_def have_ok_def own_content_def by fastforce
  then show ?thesis
    using assms(2) by (simp add: peer_inv_def)
qed

lemma piece_write_some:
  assumes "cfs_reliable K" "cfs_writes_some K" "torrent_wf (the_info s)" "nanotorrent_piece_is_valid i s"
    and "unat off < piece_len (the_info s) (unat i)" "0 < unat n" "0 < length buffer"
    and "nanotorrent_piece_write K i off buffer n s = Some (r, s')"
  shows "0 < r"
proof -
  have ge: "\<not> nanotorrent_piece_size i s \<le> ucast off"
    using unat_piece_size [OF assms(3,4)] assms(5) by (simp add: word_le_nat_alt)
  define at where "at = nanotorrent_piece_offset i s + ucast off"
  define k where "k = unat (min n (nanotorrent_piece_size i s - ucast off))"
  have k: "0 < k"
    using unat_piece_size [OF assms(3,4)] assms(5,6) by (simp add: k_def min_def unat_sub_fits)
  obtain r1 f1 where sk: "cfs_seek K (own_file s) (uint at) CFS_SEEK_SET (files s) = (r1, f1)"
    by (cases "cfs_seek K (own_file s) (uint at) CFS_SEEK_SET (files s)")
  have "uint at = int (unat at)"
    by simp
  then have r1: "0 \<le> r1"
    using assms(1) sk unfolding cfs_reliable_def by (metis fst_conv)
  obtain r2 f2 where wr: "cfs_write K (own_file s) (take k buffer) f1 = (r2, f2)"
    by (cases "cfs_write K (own_file s) (take k buffer) f1")
  have "take k buffer \<noteq> []"
    using k assms(7) by simp
  then have r2: "0 < r2"
    using assms(2) wr unfolding cfs_writes_some_def by (metis fst_conv)
  have "r = r2"
    using assms(8) assms(4) ge sk r1 wr r2
    by (auto simp: nanotorrent_piece_write_def Let_def simp flip: k_def at_def split: if_splits)
  then show ?thesis
    using r2 by simp
qed

lemma piece_write_positive:
  assumes "cfs_reliable K" "cfs_writes_some K" "torrent_wf (the_info s)" "0 < unat (file_size (the_info s))"
    and "nanotorrent_piece_is_valid i s" "0 < unat n" "0 < length buffer"
    and "nanotorrent_piece_write K i 0 buffer n s = Some (r, s')"
  shows "0 < r"
proof -
  have "0 < piece_len (the_info s) (unat i)"
    using wf_offset [OF assms(3), of "unat i"] assms(3-5) by (auto simp: piece_len_def torrent_wf_def valid_iff)
  then show ?thesis
    using assms by (intro piece_write_some [of K s i 0 n buffer r s']) simp_all
qed

lemma handle_data_reply_outcome:
  assumes "kernel_ok K" "peer_inv K s" "armed s" "length (next_block context) = 64"
    and "28 \<le> unat datalen" "unat datalen \<le> length mem"
  shows "\<exists>s'. nanotorrent_peer_handle_data_reply K context mem datalen peer s = Some s' \<and> peer_inv K s' \<and> progress K s s' \<and>
    tail_kept K (255 + (unat datalen - 28)) s s' \<and>
    (cfs_reliable K \<and> cfs_writes_some K \<and> 28 < unat datalen \<longrightarrow> armed s')"
proof -
  have k: "cfs_ok K"
    using assms(1) by (simp add: kernel_ok_def)
  obtain reply where u: "nanotorrent_unpack_peer_data (mem, 0) = Some (reply, (mem, 28))"
    using data.parse_total [of 0 mem] assms(5,6) by auto
  define i st where "i = piece_index reply" and "st = data_start reply"
  define len where "len = datalen - 28"
  have len: "unat len = unat datalen - 28"
    using assms(5) by (simp add: len_def unat_sub_fits)
  show ?thesis
  proof (cases "nanotorrent_piece_is_valid i s")
    case False
    then have "nanotorrent_peer_handle_data_reply K context mem datalen peer s = Some s"
      by (simp add: nanotorrent_peer_handle_data_reply_def u i_def)
    then show ?thesis
      using assms(2,3) by (simp add: tail_kept_same)
  next
    case True
    from data_receiver_outcome [OF assms(1-3) True] obtain r s1 where
      r: "nanotorrent_peer_data_receiver K peer i st len s = Some (r, s1)" "peer_inv K s1" "same_store s s1"
        "case r of None \<Rightarrow> armed s1
         | Some c \<Rightarrow> c \<in> set (peers s1) \<and> has_request (conns s1 c) \<and> request_index (conns s1 c) = i \<and>
             unat i \<notin> bits (own_have s) \<and> armed_others s1 c \<and> (armed_conn s1 c \<or> st = 0)"
      by blast
    show ?thesis
    proof (cases r)
      case None
      then have "nanotorrent_peer_handle_data_reply K context mem datalen peer s = Some s1"
        using True r(1) by (simp add: nanotorrent_peer_handle_data_reply_def u i_def st_def len_def)
      then show ?thesis
        using r(2,4) None same_store_progress [OF r(3), of K] tail_kept_store [OF r(3), of K] by simp
    next
      case (Some c)
      have c: "c \<in> set (peers s1)" "has_request (conns s1 c)" "request_index (conns s1 c) = i" "unat i \<notin> bits (own_have s1)"
        "armed_others s1 c" "armed_conn s1 c \<or> st = 0"
        using r(3,4) Some by (simp_all add: same_store_def)
      have n1: "net_inv K s1"
        using r(2) by (simp add: peer_inv_def)
      note fits = net_inv_fits [OF n1]
      have v1: "nanotorrent_piece_is_valid i s1"
        using True r(3) by (simp add: valid_iff same_store_def)
      have "min (unat len) (piece_len (the_info s1) (unat i)) \<le> length (drop 28 mem)"
        using len assms(6) by simp
      from piece_write_outcome [OF k fits(6) this, of "ucast st"] obtain w f where
        w: "nanotorrent_piece_write K i (ucast st) (drop 28 mem) len s1 = Some (w, s1\<lparr>files := f\<rparr>)"
          "writes_piece (the_info s1) (unat i) (own_content K s1) (cfs_content K f (own_file s1))"
        and wr: "\<forall>j < length (own_content K s1). j < piece_off (the_info s1) (unat i) + unat (ucast st :: u8) \<or>
            piece_off (the_info s1) (unat i) + unat (ucast st :: u8) + nat w \<le> j \<longrightarrow>
            cfs_content K f (own_file s1) ! j = own_content K s1 ! j" "0 \<le> w \<longrightarrow> nat w \<le> unat len"
        by blast
      have "unat (ucast st :: u8) + nat w \<le> 255 + (unat datalen - 28)"
        using wr(2) len unat_u8_less [of "ucast st"] by (cases "0 \<le> w") auto
      from tail_kept_trans [OF tail_kept_store [OF r(3)] tail_kept_write [OF w(2) wr(1) this]]
      have tl: "tail_kept K (255 + (unat datalen - 28)) s (s1\<lparr>files := f\<rparr>)" .
      have i2: "peer_inv K (s1\<lparr>files := f\<rparr>)"
        by (rule write_outcome_have [OF assms(1) r(2) c(4) w])
      have p2: "progress K s (s1\<lparr>files := f\<rparr>)"
        using same_store_progress [OF r(3)] write_progress [OF w(2) c(4)] by (rule progress_trans)
      have e: "nanotorrent_peer_handle_data_reply K context mem datalen peer s =
          (if w \<le> 0 then Some (s1\<lparr>files := f\<rparr>)
           else nanotorrent_peer_receive_data K context c i st (of_int w) (s1\<lparr>files := f\<rparr>))"
        using True r(1) Some w(1) by (simp add: nanotorrent_peer_handle_data_reply_def u i_def st_def len_def)
      show ?thesis
      proof (cases "w \<le> 0")
        case False
        have "\<exists>s'. nanotorrent_peer_receive_data K context c i st (of_int w) (s1\<lparr>files := f\<rparr>) = Some s' \<and> peer_inv K s' \<and> armed s' \<and>
            progress K (s1\<lparr>files := f\<rparr>) s' \<and> own_content K s' = own_content K (s1\<lparr>files := f\<rparr>)"
          using c v1 by (intro receive_data_outcome [OF assms(1) i2 _ assms(4)]) (simp_all add: armed_others_def armed_conn_def)
        then obtain s' where s': "nanotorrent_peer_receive_data K context c i st (of_int w) (s1\<lparr>files := f\<rparr>) = Some s'" "peer_inv K s'"
            "armed s'" "progress K (s1\<lparr>files := f\<rparr>) s'" "own_content K s' = own_content K (s1\<lparr>files := f\<rparr>)"
          by blast
        have "tail_kept K (255 + (unat datalen - 28)) s s'"
          using tail_kept_trans [OF tl tail_kept_same] s'(4,5) by (simp add: progress_def)
        then show ?thesis
          using e False s' progress_trans [OF p2] by simp
      next
        case w0: True
        have "armed s1" if "cfs_reliable K" "cfs_writes_some K" "28 < unat datalen"
        proof -
          have "0 < unat len" "0 < length (drop 28 mem)"
            using that(3) len assms(6) by simp_all
          then have "st \<noteq> 0"
            using piece_write_positive [OF that(1,2) fits(6,8) v1, of len "drop 28 mem" w] w(1) w0 by auto
          then show ?thesis
            using c(5,6) armed_others_all by blast
        qed
        then show ?thesis
          using e w0 i2 p2 tl by (simp add: armed_def armed_conn_def)
      qed
    qed
  qed
qed

lemma handle_data_request_outcome:
  assumes "kernel_ok K" "net_inv K s" "28 \<le> length mem" "28 \<le> udp_payload K" "udp_payload K < 2 ^ 16"
  shows "\<exists>s'. nanotorrent_peer_handle_data_request K mem datalen peer s = Some s' \<and> same_net s s' \<and> same_requests s s' \<and>
    conns s' = conns s \<and> own_content K s' = own_content K s \<and> own_have s' = own_have s"
proof -
  obtain request where u: "nanotorrent_unpack_peer_data (mem, 0) = Some (request, (mem, 28))"
    using data.parse_total [of 0 mem] assms(3) by auto
  define i st where "i = piece_index request" and "st = data_start request"
  show ?thesis
  proof (cases "nanotorrent_piece_is_valid i s \<and> nanotorrent_piece_is_complete i s")
    case False
    then have "nanotorrent_peer_handle_data_request K mem datalen peer s = Some s"
      by (auto simp: nanotorrent_peer_handle_data_request_def u i_def)
    then show ?thesis
      by (simp add: same_requests_def)
  next
    case True
    define reply where "reply = \<lparr>data_header = nanotorrent_peer_make_header NANOTORRENT_PEER_DATA_REPLY s, piece_index = i, data_start = st\<rparr>"
    define buf where "buf = memcpy_at (replicate (udp_payload K) 0) 0 (enc_data reply)"
    have ok: "header_ok (data_header reply)"
      using net_inv_fits(2) [OF assms(2)] by (simp add: reply_def header_ok_make)
    have l: "length (enc_data reply) = 28"
      by (rule data.size_enc [OF ok])
    have pk: "nanotorrent_pack_peer_data reply (replicate (udp_payload K) 0, 0) = Some (buf, 28)"
      using data.pack_Some [OF ok, of 0 "replicate (udp_payload K) 0"] l assms(4) by (simp add: buf_def)
    have lb: "length buf = udp_payload K"
      using l assms(4) by (simp add: buf_def memcpy_at_def)
    define n :: u16 where "n = of_nat (udp_payload K) - 28"
    have n: "unat n = udp_payload K - 28"
      using assms(4,5) by (simp add: n_def unat_sub_fits unat_of_nat)
    have k: "cfs_ok K"
      using assms(1) by (simp add: kernel_ok_def)
    from piece_read_outcome [OF k net_inv_fits(6) [OF assms(2)], of i "ucast st" n] obtain r bs f where
      rd: "nanotorrent_piece_read K i (ucast st) n s = (r, bs, s\<lparr>files := f\<rparr>)" "cfs_content K f = cfs_content K (files s)"
        "0 \<le> r \<longrightarrow> r = int (length bs) \<and> length bs \<le> unat n"
      by blast
    define t where "t = s\<lparr>files := f\<rparr>"
    have t: "same_net s t" "same_requests s t" "conns t = conns s" "own_content K t = own_content K s" "own_have t = own_have s"
      using rd(2) by (simp_all add: t_def own_content_def)
    have w: "nanotorrent_peer_write_data_reply K (replicate (udp_payload K) 0) (of_nat (udp_payload K)) i st s =
        Some (if r \<le> 0 then None else Some (memcpy_at buf 28 bs, 28 + nat r), t)"
      using pk rd(1,3) lb n assms(4)
      by (auto simp: nanotorrent_peer_write_data_reply_def t_def n_def simp flip: reply_def)
    have e: "nanotorrent_peer_handle_data_request K mem datalen peer s = Some t \<or>
        (\<exists>out. nanotorrent_peer_handle_data_request K mem datalen peer s = Some (emit out t))"
      using True w by (auto simp: nanotorrent_peer_handle_data_request_def u nanotorrent_peer_send_message_def
          nanotorrent_peer_send_local_multicast_def simp flip: i_def st_def)
    then show ?thesis
      using t by (auto simp: same_net_def same_requests_def own_content_def)
  qed
qed

lemma request_next_inv:
  assumes "peer_inv K s" "c \<in> set (peers s)"
  shows "\<exists>b s'. nanotorrent_peer_request_next K c s = Some (b, s') \<and> peer_inv K s' \<and> same_store s s' \<and>
    peers s' = peers s \<and> (armed s \<longrightarrow> armed s')"
proof (cases "has_request (conns s c)")
  case True
  then have "nanotorrent_peer_request_next K c s = Some (False, s)"
    by (simp add: nanotorrent_peer_request_next_def)
  then show ?thesis
    using assms(1) same_store_refl by blast
next
  case False
  have n: "net_inv K s" "pending_ok s" "have_ok K s"
    using assms(1) by (simp_all add: peer_inv_def)
  have a: "armed_conn s c"
    using False by (simp add: armed_conn_def)
  from request_next_outcome [OF n(1,2) assms(2) a] obtain b s' where
    r: "nanotorrent_peer_request_next K c s = Some (b, s')" "same_net s s'" "same_store s s'" "pending_ok s'"
      "only_conn c s s'" "armed_conn s' c"
    by blast
  have "peer_inv K s'"
    using n r(4) same_net_inv [OF r(2), of K] same_store_have [OF r(3), of K] by (simp add: peer_inv_def)
  moreover have "armed s \<Longrightarrow> armed s'"
    using only_conn_armed [OF r(5) same_net_peers [OF r(2)]] r(6) by blast
  ultimately show ?thesis
    using r same_net_peers [OF r(2)] by blast
qed

lemma connect_with_inv:
  assumes "kernel_ok K" "peer_inv K s"
  shows "\<exists>r s'. nanotorrent_peer_connect_with K peer p s = (r, s') \<and> peer_inv K s' \<and> same_store s s' \<and>
    (armed s \<longrightarrow> armed s') \<and> (\<forall>c. r = Some c \<longrightarrow> c \<in> set (peers s') \<and> conn_peer_info (conns s' c) = peer) \<and> (r = None \<longrightarrow> s' = s)"
proof -
  have n: "net_inv K s" "pending_ok s" "have_ok K s"
    using assms(2) by (simp_all add: peer_inv_def)
  from connect_with_outcome [OF assms(1) n(1,2), of peer p] obtain r s' where
    c: "nanotorrent_peer_connect_with K peer p s = (r, s')" "net_inv K s'" "pending_ok s'" "same_store s s'"
      "case r of None \<Rightarrow> s' = s \<and> nanotorrent_peer_find K peer s = None
       | Some c \<Rightarrow> c \<in> set (peers s') \<and> conn_peer_info (conns s' c) = peer \<and> only_conn c s s' \<and>
         (if c \<in> set (peers s) then s' = s else peers s' = c # peers s \<and> \<not> has_request (conns s' c))"
    by blast
  have "peer_inv K s'"
    using c(2,3) n(3) same_store_have [OF c(4), of K] by (simp add: peer_inv_def)
  moreover have "armed s \<Longrightarrow> armed s'"
    using c(5) connect_armed by (cases r) auto
  ultimately show ?thesis
    using c by (intro exI [of _ r] exI [of _ s']) (auto split: option.splits)
qed

text \<open>
  A datagram of the protocol: the network buffer holds a data header behind every datagram's start, and
  a data reply is at least as long as its header. A full one carries data.
\<close>

definition datagram_ok :: "u8 list \<Rightarrow> u16 \<Rightarrow> bool" where
  "datagram_ok mem datalen \<longleftrightarrow> 28 \<le> length mem \<and> unat datalen \<le> length mem \<and>
     (mem ! 0 = NANOTORRENT_PEER_DATA_REPLY \<longrightarrow> 28 \<le> unat datalen)"

definition datagram_full :: "u8 list \<Rightarrow> u16 \<Rightarrow> bool" where
  "datagram_full mem datalen \<longleftrightarrow> (mem ! 0 = NANOTORRENT_PEER_DATA_REPLY \<longrightarrow> 28 < unat datalen)"

definition payload_ok :: "('f, 'm, 't) contiki \<Rightarrow> bool" where
  "payload_ok K \<longleftrightarrow> 28 \<le> udp_payload K \<and> udp_payload K < 2 ^ 16"

lemma header_type: "25 \<le> length mem \<Longrightarrow> nanotorrent_unpack_peer_message_header (mem, 0) = Some (h, b) \<Longrightarrow> msg_type h = mem ! 0"
  using header.parse_Some [of 0 mem] by (auto simp: dec_header_def)

lemma handle_message_outcome:
  assumes "kernel_ok K" "payload_ok K" "peer_inv K s" "armed s" "length (next_block context) = 64" "datagram_ok mem datalen"
  shows "\<exists>s'. nanotorrent_peer_handle_message K context src dest mem datalen s = Some s' \<and> peer_inv K s' \<and> progress K s s' \<and>
    tail_kept K (255 + (unat datalen - 28)) s s' \<and>
    (cfs_reliable K \<and> cfs_writes_some K \<and> datagram_full mem datalen \<longrightarrow> armed s')"
proof -
  let ?tail = "tail_kept K (255 + (unat datalen - 28))"
  have d: "28 \<le> length mem" "unat datalen \<le> length mem" "mem ! 0 = NANOTORRENT_PEER_DATA_REPLY \<Longrightarrow> 28 \<le> unat datalen"
    using assms(6) by (simp_all add: datagram_ok_def)
  obtain h where u: "nanotorrent_unpack_peer_message_header (mem, 0) = Some (h, (mem, 25))"
    using header.parse_total [of 0 mem] d(1) by auto
  have ht: "msg_type h = mem ! 0"
    using header_type u d(1) by simp
  define peer where "peer = \<lparr>peer_ip = src\<rparr>"
  define m where "m = nanotorrent_peer_handle_message K context src dest mem datalen s"
  let ?good = "cfs_reliable K \<and> cfs_writes_some K \<and> datagram_full mem datalen"
  consider (foreign) "\<not> sha1_cmp (info_hash s) (msg_info_hash h)"
    | (close) "sha1_cmp (info_hash s) (msg_info_hash h)" "msg_type h = NANOTORRENT_PEER_CLOSE"
    | (other) "sha1_cmp (info_hash s) (msg_info_hash h)" "msg_type h \<noteq> NANOTORRENT_PEER_CLOSE"
    by blast
  then show ?thesis
  proof cases
    case foreign
    then have "nanotorrent_peer_handle_message K context src dest mem datalen s = Some s"
      by (simp add: nanotorrent_peer_handle_message_def u)
    then show ?thesis
      using assms(3,4) by (simp add: tail_kept_same)
  next
    case close
    obtain b s' where f: "nanotorrent_peer_force_disconnect K peer s = Some (b, s')" "peer_inv K s'" "armed s'" "same_store s s'"
      using force_disconnect_outcome [OF assms(1,3,4), of peer] by blast
    then have "nanotorrent_peer_handle_message K context src dest mem datalen s = Some s'"
      using close by (simp add: nanotorrent_peer_handle_message_def u peer_def)
    then show ?thesis
      using f same_store_progress [OF f(4), of K] tail_kept_store [OF f(4), of K] by simp
  next
    case other
    have "\<exists>s1. (if msg_type h = NANOTORRENT_PEER_DATA_REPLY
        then nanotorrent_peer_handle_data_reply K context mem datalen peer s else Some s) = Some s1 \<and>
        peer_inv K s1 \<and> progress K s s1 \<and> ?tail s s1 \<and> (?good \<longrightarrow> armed s1)"
    proof (cases "msg_type h = NANOTORRENT_PEER_DATA_REPLY")
      case True
      then have "28 \<le> unat datalen" "datagram_full mem datalen \<Longrightarrow> 28 < unat datalen"
        using d(3) ht by (simp_all add: datagram_full_def)
      then show ?thesis
        using handle_data_reply_outcome [OF assms(1,3,4,5) _ d(2), of peer] True by auto
    next
      case False
      then show ?thesis
        using assms(3,4) by (simp add: tail_kept_same)
    qed
    then obtain s1 where s1: "(if msg_type h = NANOTORRENT_PEER_DATA_REPLY
        then nanotorrent_peer_handle_data_reply K context mem datalen peer s else Some s) = Some s1"
        "peer_inv K s1" "?good \<longrightarrow> armed s1" "progress K s s1" "?tail s s1"
      by blast
    from connect_with_inv [OF assms(1) s1(2), of peer PeersIn] obtain r s2 where
      s2: "nanotorrent_peer_accept K peer s1 = (r, s2)" "peer_inv K s2" "same_store s1 s2" "armed s1 \<longrightarrow> armed s2"
        "\<And>c. r = Some c \<Longrightarrow> c \<in> set (peers s2) \<and> conn_peer_info (conns s2 c) = peer" "r = None \<longrightarrow> s2 = s1"
      unfolding nanotorrent_peer_accept_def by blast
    have n2: "net_inv K s2" "pending_ok s2" "have_ok K s2"
      using s2(2) by (simp_all add: peer_inv_def)
    have p2: "progress K s s2"
      using s1(4) same_store_progress [OF s2(3)] by (rule progress_trans)
    have t2: "?tail s s2"
      using s1(5) tail_kept_store [OF s2(3)] by (rule tail_kept_trans)
    show ?thesis
    proof (cases r)
      case None
      have "nanotorrent_peer_handle_message K context src dest mem datalen s =
          (if \<not> is_addr_mcast K dest then nanotorrent_peer_send_close peer s2 else Some s2)"
        using other s1(1) s2(1) None
        unfolding nanotorrent_peer_handle_message_def Let_def peer_def [symmetric] by (simp add: u)
      then show ?thesis
        using s1(3) s2(2,4) send_close_eq [OF net_inv_fits(2) [OF n2(1)]] p2 t2
          progress_trans [OF p2 same_store_progress [OF emit_frames(2)]] tail_kept_trans [OF t2 tail_kept_store [OF emit_frames(2)]] by simp
    next
      case (Some c)
      have c: "c \<in> set (peers s2)"
        using s2(5) [OF Some] by simp
      from update_have_outcome [OF n2(1) c, of "msg_have h"] obtain s3 where
        s3: "nanotorrent_peer_update_have K c (msg_have h) s2 = Some s3" "net_inv K s3" "same_requests s2 s3" "same_store s2 s3"
          "only_conn c s2 s3" "armed_conn s3 c = armed_conn s2 c"
        by blast
      have p3: "peers s3 = peers s2"
        using s3(3) by (simp add: same_requests_def)
      have i3: "peer_inv K s3"
        using n2 s3(2) same_requests_pending [OF s3(3)] same_store_have [OF s3(4), of K] by (simp add: peer_inv_def)
      have a3: "?good \<longrightarrow> armed s3"
        using s1(3) s2(4) c only_conn_armed [OF s3(5) p3] s3(6) by (auto simp: armed_def)
      have e: "nanotorrent_peer_handle_message K context src dest mem datalen s =
          (if msg_type h = NANOTORRENT_PEER_HAVE \<or> msg_type h = NANOTORRENT_PEER_DATA_REPLY then
             map_option snd (nanotorrent_peer_request_next K c s3)
           else if msg_type h = NANOTORRENT_PEER_DATA_REQUEST then
             nanotorrent_peer_handle_data_request K mem datalen peer s3
           else Some s3)"
        using other s1(1) s2(1) Some s3(1)
        unfolding nanotorrent_peer_handle_message_def Let_def peer_def [symmetric] by (simp add: u)
      have "c \<in> set (peers s3)"
        using c p3 by simp
      from request_next_inv [OF i3 this] obtain b s4 where
        s4: "nanotorrent_peer_request_next K c s3 = Some (b, s4)" "peer_inv K s4" "armed s3 \<longrightarrow> armed s4" "same_store s3 s4"
        by blast
      from handle_data_request_outcome [OF assms(1) s3(2) d(1), of datalen peer] assms(2) obtain s5 where
        s5: "nanotorrent_peer_handle_data_request K mem datalen peer s3 = Some s5" "same_net s3 s5" "same_requests s3 s5"
          "conns s5 = conns s3" "own_content K s5 = own_content K s3" "own_have s5 = own_have s3"
        by (auto simp: payload_ok_def)
      have "have_ok K s5"
        using i3 s5(2,5,6) by (simp add: peer_inv_def have_ok_def same_net_def)
      then have "peer_inv K s5"
        using i3 same_net_inv [OF s5(2), of K] same_requests_pending [OF s5(3)] by (simp add: peer_inv_def)
      moreover have "armed s5 = armed s3"
        using s5(3,4) by (intro same_conns_armed) (simp_all add: same_requests_def)
      moreover have p3: "progress K s s3"
        using p2 same_store_progress [OF s3(4)] by (rule progress_trans)
      moreover have "progress K s s4"
        using p3 same_store_progress [OF s4(4)] by (rule progress_trans)
      moreover have "progress K s3 s5"
        using s5(2,5,6) by (intro same_content_progress) (simp_all add: same_net_def)
      then have "progress K s s5"
        using p3 progress_trans by blast
      moreover have t3: "?tail s s3"
        using t2 tail_kept_store [OF s3(4)] by (rule tail_kept_trans)
      moreover have "?tail s s4"
        using t3 tail_kept_store [OF s4(4)] by (rule tail_kept_trans)
      moreover have "?tail s s5"
        using t3 tail_kept_same [of s5 s3 K] s5(2,5) tail_kept_trans by (fastforce simp: same_net_def)
      ultimately show ?thesis
        using e i3 a3 s4 s5(1) by auto
    qed
  qed
qed

section \<open>The peer process\<close>

lemma peer_loop_body_outcome:
  assumes "kernel_ok K" "peer_inv K s" "armed s" "c \<in> set (peers s)"
  shows "\<exists>s'. peer_loop_body K c s = Some s' \<and> peer_inv K s' \<and> armed s' \<and> set (peers s) - {c} \<subseteq> set (peers s') \<and> same_store s s'"
proof -
  have n: "net_inv K s" "pending_ok s" "have_ok K s"
    using assms(2) by (simp_all add: peer_inv_def)
  have d: "distinct (peers s)"
    using n(1) by (simp add: net_inv_def links_ok_def)
  have "\<exists>s1. (if etimer_expired K (now s) (conn_heartbeat (conns s c)) then nanotorrent_peer_disconnect_conn K c s else Some s) = Some s1 \<and>
      net_inv K s1 \<and> pending_ok s1 \<and> same_store s s1 \<and> armed s1 \<and> set (peers s) - {c} \<subseteq> set (peers s1) \<and>
      (has_request (conns s1 c) \<longrightarrow> c \<in> set (peers s1))"
  proof (cases "etimer_expired K (now s) (conn_heartbeat (conns s c))")
    case True
    from disconnect_conn_outcome [OF assms(1) n(1,2) assms(4)] obtain s1 where
      s1: "nanotorrent_peer_disconnect_conn K c s = Some s1" "net_inv K s1" "pending_ok s1" "same_store s s1"
        "only_conn c s s1" "peers s1 = remove1 c (peers s)" "\<not> has_request (conns s1 c)"
      by blast
    have "set (peers s) - {c} \<subseteq> set (peers s1)"
      using s1(6) d by simp
    then show ?thesis
      using True s1 armed_remove [OF assms(3) s1(5-7)] by simp
  next
    case False
    then show ?thesis
      using n assms(3,4) by auto
  qed
  then obtain s1 where s1: "(if etimer_expired K (now s) (conn_heartbeat (conns s c)) then nanotorrent_peer_disconnect_conn K c s else Some s) = Some s1"
      "net_inv K s1" "pending_ok s1" "same_store s s1" "armed s1" "set (peers s) - {c} \<subseteq> set (peers s1)"
      "has_request (conns s1 c) \<longrightarrow> c \<in> set (peers s1)"
    by blast
  have "\<exists>s2. (if has_request (conns s1 c) then process_request_retry K c s1 else Some s1) = Some s2 \<and>
      same_net s1 s2 \<and> same_store s1 s2 \<and> pending_ok s2 \<and> armed s2"
  proof (cases "has_request (conns s1 c)")
    case True
    then have c: "c \<in> set (peers s1)" "armed_conn s1 c"
      using s1(5,7) by (simp_all add: armed_def)
    from process_request_retry_outcome [OF s1(2,3) c(1) True c(2)] obtain s2 where
      s2: "process_request_retry K c s1 = Some s2" "same_net s1 s2" "same_store s1 s2" "pending_ok s2" "only_conn c s1 s2" "armed_conn s2 c"
      by blast
    then show ?thesis
      using True only_conn_armed [OF s2(5) same_net_peers [OF s2(2)] s1(5) s2(6)] by simp
  next
    case False
    then show ?thesis
      using s1 by simp
  qed
  then obtain s2 where s2: "(if has_request (conns s1 c) then process_request_retry K c s1 else Some s1) = Some s2"
      "same_net s1 s2" "same_store s1 s2" "pending_ok s2" "armed s2"
    by blast
  have st: "same_store s s2"
    using s1(4) s2(3) same_store_trans by blast
  have i2: "peer_inv K s2"
    using s2(4) s1(2) n(3) same_net_inv [OF s2(2), of K] same_store_have [OF st, of K] by (simp add: peer_inv_def)
  have e: "peer_loop_body K c s =
      (if etimer_expired K (now s2) (heartbeat s2) \<and> \<not> nanotorrent_peer_is_local K (conn_peer_info (conns s2 c))
       then nanotorrent_peer_send_have (conn_peer_info (conns s2 c)) s2 else Some s2)"
    using s1(1) s2(1) by (simp add: peer_loop_body_def)
  have "net_inv K s2"
    using i2 by (simp add: peer_inv_def)
  then have "\<exists>s'. peer_loop_body K c s = Some s' \<and> (s' = s2 \<or> (\<exists>out. s' = emit out s2))"
    using e send_have_eq [OF net_inv_fits(2)] by auto
  then show ?thesis
    using i2 s2(5) s1(6) same_net_peers [OF s2(2)] st same_store_trans [OF st emit_frames(2)] by fastforce
qed

lemma peer_loop_outcome:
  assumes "kernel_ok K" "peer_inv K s" "armed s" "set cs \<subseteq> set (peers s)" "distinct cs"
  shows "\<exists>s'. peer_loop K cs s = Some s' \<and> peer_inv K s' \<and> armed s' \<and> same_store s s'"
  using assms(2-)
proof (induction cs arbitrary: s)
  case Nil
  then show ?case by simp
next
  case (Cons c cs)
  have "c \<in> set (peers s)"
    using Cons.prems(3) by simp
  from peer_loop_body_outcome [OF assms(1) Cons.prems(1,2) this] obtain t where
    t: "peer_loop_body K c s = Some t" "peer_inv K t" "armed t" "set (peers s) - {c} \<subseteq> set (peers t)" "same_store s t"
    by blast
  have "set cs \<subseteq> set (peers t)" "distinct cs"
    using t(4) Cons.prems(3,4) by auto
  from Cons.IH [OF t(2,3) this] show ?case
    using t(1,5) same_store_trans by fastforce
qed

lemma peer_round_outcome:
  assumes "kernel_ok K" "peer_inv K s" "armed s"
  shows "\<exists>s'. peer_process_round K s = Some s' \<and> peer_inv K s' \<and> armed s' \<and> same_store s s'"
proof -
  have "distinct (peers s)"
    using assms(2) by (simp add: peer_inv_def net_inv_def links_ok_def)
  from peer_loop_outcome [OF assms subset_refl this] obtain s1 where
    s1: "peer_loop K (peers s) s = Some s1" "peer_inv K s1" "armed s1" "same_store s s1"
    by blast
  have n1: "net_inv K s1"
    using s1(2) by (simp add: peer_inv_def)
  define out where "out = UdpSendTo PeerSocket (enc_header (nanotorrent_peer_make_header NANOTORRENT_PEER_HAVE s1))
    (linklocal_allnodes_mcast K) NANOTORRENT_PEER_PORT"
  define s2 where "s2 = (if etimer_expired K (now s1) (heartbeat s1) then
      (emit out s1)\<lparr>heartbeat_delay := NANOTORRENT_PEER_HEARTBEAT_PERIOD K,
        heartbeat := etimer_set K (now s1) (NANOTORRENT_PEER_HEARTBEAT_PERIOD K) (heartbeat s1)\<rparr> else s1)"
  have e: "peer_process_round K s = Some (if nanotorrent_piece_is_seed (int_bits K) s2 then nanotorrent_peer_post_seeding K s2 else s2)"
    using s1(1) send_have_multicast_eq [OF net_inv_fits(2) [OF n1], of K]
    by (simp add: peer_process_round_def s2_def flip: out_def)
  have f: "same_net s1 s2" "same_store s1 s2" "same_requests s1 s2" "conns s2 = conns s1"
    by (simp_all add: s2_def same_net_def same_store_def same_requests_def)
  have "peer_inv K s2" "armed s2"
    using s1 same_inv [OF f(1-3), of K] same_conns_armed [OF f(4) same_net_peers [OF f(1)]] by simp_all
  then have "peer_inv K (nanotorrent_peer_post_seeding K s2)" "armed (nanotorrent_peer_post_seeding K s2)" "peer_inv K s2" "armed s2"
    by (simp_all add: post_seeding_inv)
  then show ?thesis
    using e same_store_trans [OF s1(4) f(2)] same_store_trans [OF same_store_trans [OF s1(4) f(2)] post_seeding_frames(2), of K]
    by simp
qed

section \<open>Starting\<close>

text \<open>What the start of the peer process relies on: the pieces verified, the counts cleared, no pending piece.\<close>

definition fresh :: "('f, 'm, 't) contiki \<Rightarrow> ('f, 'm, 't, 'a) peer_state_scheme \<Rightarrow> bool" where
  "fresh K s \<longleftrightarrow> torrent_fits K s \<and> have_ok K s \<and> counts_ok (unat (num_pieces (the_info s))) (piece_counts s) [] \<and>
     pending_pieces s = 0 \<and> (\<forall>c. \<not> (memb_inmemb K (peers_in s) c \<and> memb_inmemb K (peers_out s) c)) \<and>
     memb_capacity K (peers_in s) = NANOTORRENT_MAX_IN_PEERS \<and> memb_capacity K (peers_out s) = NANOTORRENT_MAX_OUT_PEERS"

lemma peer_init_simps [simp]:
  "peers (nanotorrent_peer_init K s) = []" "peers_in (nanotorrent_peer_init K s) = memb_init K (peers_in s)"
  "peers_out (nanotorrent_peer_init K s) = memb_init K (peers_out s)" "conns (nanotorrent_peer_init K s) = conns s"
  "pending_pieces (nanotorrent_peer_init K s) = pending_pieces s" "piece_counts (nanotorrent_peer_init K s) = piece_counts s"
  "own_have (nanotorrent_peer_init K s) = own_have s" "own_file (nanotorrent_peer_init K s) = own_file s"
  "files (nanotorrent_peer_init K s) = files s" "desc (nanotorrent_peer_init K s) = desc s"
  "info_hash (nanotorrent_peer_init K s) = info_hash s" "now (nanotorrent_peer_init K s) = now s"
  by (simp_all add: nanotorrent_peer_init_def Let_def emit_def)

lemma peer_init_inv:
  assumes "kernel_ok K" "fresh K s"
  shows "peer_inv K (nanotorrent_peer_init K s)" "armed (nanotorrent_peer_init K s)"
proof -
  have m: "memb_ok K"
    using assms(1) by (simp add: kernel_ok_def)
  let ?t = "nanotorrent_peer_init K s"
  have "net_inv K ?t"
    using assms(2) memb_init_simps [OF m]
    by (simp add: net_inv_def fresh_def torrent_fits_def links_ok_def counted_def wired_def)
  moreover have "pending_ok ?t"
    using assms(2) by (simp add: pending_ok_def requesting_def fresh_def)
  moreover have "have_ok K ?t"
    using assms(2) by (simp add: have_ok_def own_content_def fresh_def)
  ultimately show "peer_inv K ?t"
    by (simp add: peer_inv_def)
  show "armed ?t"
    by (simp add: armed_def)
qed

lemma heartbeat_frames [simp]:
  "same_net s (s\<lparr>heartbeat := h\<rparr>)" "same_store s (s\<lparr>heartbeat := h\<rparr>)" "same_requests s (s\<lparr>heartbeat := h\<rparr>)"
  "same_net s (s\<lparr>now := t\<rparr>)" "same_store s (s\<lparr>now := t\<rparr>)" "same_requests s (s\<lparr>now := t\<rparr>)"
  by (simp_all add: same_net_def same_store_def same_requests_def)

lemma heartbeat_inv [simp]: "peer_inv K (s\<lparr>heartbeat := h\<rparr>) = peer_inv K s" "peer_inv K (s\<lparr>now := t\<rparr>) = peer_inv K s"
  by (rule same_inv [OF heartbeat_frames(1-3)], rule same_inv [OF heartbeat_frames(4-6)])

lemma peer_process_outcome:
  assumes "kernel_ok K"
    and "if ev = PROCESS_EVENT_INIT then fresh K s else peer_inv K s \<and> armed s"
  shows "\<exists>s'. nanotorrent_peer_process K ev s = Some s' \<and> peer_inv K s' \<and> armed s' \<and> same_store s s'"
proof -
  have other: ?thesis if "nanotorrent_peer_process K ev s = Some t" "same_net s t" "same_store s t" "same_requests s t" "conns t = conns s"
      "ev \<noteq> PROCESS_EVENT_INIT" for t
    using that assms(2) same_inv [OF that(2-4), of K] same_conns_armed [OF that(5) same_net_peers [OF that(2)]] by simp
  show ?thesis
  proof (cases ev)
    case PROCESS_EVENT_INIT
    define t where "t = (nanotorrent_peer_init K s)\<lparr>heartbeat := etimer_set K (now s) 0 (heartbeat (nanotorrent_peer_init K s))\<rparr>"
    have e: "nanotorrent_peer_process K ev s = peer_process_round K t"
      by (simp add: nanotorrent_peer_process_def PROCESS_EVENT_INIT Let_def t_def)
    have fr: "fresh K s"
      using assms(2) PROCESS_EVENT_INIT by simp
    note i = peer_init_inv [OF assms(1) fr]
    have "peer_inv K t" "armed t"
      using i by (simp_all add: t_def armed_def)
    moreover have "same_store s t"
      by (simp add: t_def same_store_def)
    ultimately show ?thesis
      using peer_round_outcome [OF assms(1), of t] e same_store_trans by fastforce
  next
    case PROCESS_EVENT_TIMER
    then show ?thesis
      using peer_round_outcome [OF assms(1), of s] assms(2) by (simp add: nanotorrent_peer_process_def)
  next
    case PROCESS_EVENT_EXIT
    show ?thesis
      by (rule other [of "nanotorrent_peer_shutdown K s"])
        (simp_all add: PROCESS_EVENT_EXIT nanotorrent_peer_process_def nanotorrent_peer_shutdown_def Let_def
          same_net_def same_store_def same_requests_def)
  qed (use assms(2) in \<open>simp add: nanotorrent_peer_process_def\<close>)+
qed

section \<open>Steps and reachable states\<close>

text \<open>
  The steps of the component: a datagram of the protocol, an event for the process, a connection
  asked for by the swarm, a disconnection, and time passing.
\<close>

inductive peer_step :: "('f, 'm, 't) contiki \<Rightarrow> ('f, 'm, 't, 'a) peer_state_scheme \<Rightarrow> ('f, 'm, 't, 'a) peer_state_scheme \<Rightarrow> bool"
  for K where
  message: "datagram_ok mem datalen \<Longrightarrow> datagram_full mem datalen \<Longrightarrow> length (next_block context) = 64 \<Longrightarrow>
    nanotorrent_peer_handle_message K context src dest mem datalen s = Some s' \<Longrightarrow> peer_step K s s'"
| event: "ev \<noteq> PROCESS_EVENT_INIT \<Longrightarrow> nanotorrent_peer_process K ev s = Some s' \<Longrightarrow> peer_step K s s'"
| connect: "nanotorrent_peer_connect K peer s = (r, s') \<Longrightarrow> peer_step K s s'"
| disconnect: "nanotorrent_peer_disconnect K peer s = Some (b, s') \<Longrightarrow> peer_step K s s'"
| tick: "now s \<le> t \<Longrightarrow> peer_step K s (s\<lparr>now := t\<rparr>)"

inductive_cases peer_stepE: "peer_step K s s'"

definition peer_started :: "('f, 'm, 't) contiki \<Rightarrow> ('f, 'm, 't, 'a) peer_state_scheme \<Rightarrow> ('f, 'm, 't, 'a) peer_state_scheme \<Rightarrow> bool" where
  "peer_started K s0 s \<longleftrightarrow> fresh K s0 \<and> nanotorrent_peer_process K PROCESS_EVENT_INIT s0 = Some s"

lemma disconnect_outcome:
  assumes "kernel_ok K" "peer_inv K s" "armed s"
  shows "\<exists>b s'. nanotorrent_peer_disconnect K peer s = Some (b, s') \<and> peer_inv K s' \<and> armed s' \<and> same_store s s'"
proof (cases "nanotorrent_peer_find K peer s")
  case None
  then have "nanotorrent_peer_disconnect K peer s = Some (False, s)"
    by (simp add: nanotorrent_peer_disconnect_def)
  then show ?thesis
    using assms same_store_refl by blast
next
  case (Some c)
  then have c: "c \<in> set (peers s)"
    using assms(1) find_Some(1) unfolding kernel_ok_def by blast
  have n: "net_inv K s" "pending_ok s" "have_ok K s"
    using assms(2) by (simp_all add: peer_inv_def)
  from disconnect_conn_outcome [OF assms(1) n(1,2) c] Some show ?thesis
    using n(3) same_store_have armed_remove [OF assms(3)] unfolding peer_inv_def nanotorrent_peer_disconnect_def by fastforce
qed

text \<open>
  The hypotheses on the environment for the reachable states. Beyond the documented behaviour of Contiki they say that no seek or read of the file
  fails and that a write of some bytes writes at least one: without that a request is left whose retry is not started.
\<close>

definition sound_kernel :: "('f, 'm, 't) contiki \<Rightarrow> bool" where
  "sound_kernel K \<longleftrightarrow> kernel_ok K \<and> payload_ok K \<and> cfs_reliable K \<and> cfs_writes_some K"

lemma peer_step_inv:
  assumes "sound_kernel K" "peer_step K s s'" "peer_inv K s" "armed s"
  shows "peer_inv K s' \<and> armed s' \<and> progress K s s'"
proof -
  have k: "kernel_ok K" "payload_ok K" "cfs_reliable K" "cfs_writes_some K"
    using assms(1) by (simp_all add: sound_kernel_def)
  show ?thesis
    using assms(2)
  proof cases
    case (message mem datalen ctx src dest)
    then show ?thesis
      using handle_message_outcome [OF k(1,2) assms(3,4) message(3,1), of src dest] k by simp
  next
    case (event ev)
    then show ?thesis
      using peer_process_outcome [OF k(1), of ev s] assms(3,4) same_store_progress by fastforce
  next
    case (connect peer r)
    then show ?thesis
      using connect_with_inv [OF k(1) assms(3), of peer PeersOut] assms(4) same_store_progress
      by (fastforce simp: nanotorrent_peer_connect_def)
  next
    case (disconnect peer b)
    then show ?thesis
      using disconnect_outcome [OF k(1) assms(3,4), of peer] same_store_progress by fastforce
  next
    case (tick t)
    then show ?thesis
      using assms(3,4) same_store_progress [OF heartbeat_frames(5)] by (simp add: armed_def armed_conn_def)
  qed
qed

interpretation peer: component "peer_started K s0" "peer_step K" "\<lambda>s. sound_kernel K \<longrightarrow> peer_inv K s \<and> armed s" for K s0
proof unfold_locales
  fix s :: "('a, 'b, 'c, 'd) peer_state_scheme"
  assume "peer_started K s0 s"
  then show "sound_kernel K \<longrightarrow> peer_inv K s \<and> armed s"
    using peer_process_outcome [of K PROCESS_EVENT_INIT s0] by (auto simp: sound_kernel_def peer_started_def)
qed (use peer_step_inv in blast)

lemma peer_reach_inv:
  assumes "sound_kernel K" "reach (peer_started K s0) (peer_step K) s"
  shows "peer_inv K s" "armed s"
  using peer.reach_inv [OF assms(2)] assms(1) by simp_all

end
