(* ===== verification/Swarm_Inv.thy ===== *)
theory Swarm_Inv
  imports Swarm Exchange
begin

text \<open>
  The invariant of the swarm component, kept by every function of \<^verbatim>\<open>swarm.c\<close>: the list of known peers is
  the set of allocated blocks, the retry calls the announce callbacks, the pending event follows from the state,
  and the state fits the place where the process waits.
\<close>

section \<open>The invariant\<close>

definition known_ok :: "('f, 'm, 't) contiki \<Rightarrow> ('f, 'm, 't, 'a) nanotorrent_swarm_scheme \<Rightarrow> bool" where
  "known_ok K s \<longleftrightarrow> distinct (swarm_peers s) \<and> set (swarm_peers s) = memb_allocated K (peer_memb s) \<and>
     memb_capacity K (peer_memb s) = NANOTORRENT_MAX_SWARM_PEERS"

definition calls_announce :: "('f, 'm, 't, 'a) nanotorrent_swarm_scheme \<Rightarrow> bool" where
  "calls_announce s \<longleftrightarrow> rt_again_callback (announce_retry s) = nanotorrent_swarm_announce_retry_again \<and>
     rt_stop_callback (announce_retry s) = nanotorrent_swarm_announce_retry_stop"

definition announcing :: "('f, 'm, 't, 'a) nanotorrent_swarm_scheme \<Rightarrow> bool" where
  "announcing s \<longleftrightarrow> calls_announce s \<and> announce_retry_event s =
       (if swarm_state s = NANOTORRENT_SWARM_JOINING then NANOTRACKER_ANNOUNCE_STARTED else NANOTRACKER_ANNOUNCE_REFRESH) \<and>
     (swarm_state s = NANOTORRENT_SWARM_JOINING \<longrightarrow>
       0 < rt_num_retries (announce_retry s) \<and> rt_num_retries (announce_retry s) \<le> NANOTORRENT_MAX_ANNOUNCE_RETRIES \<and>
       rt_max_retries (announce_retry s) = NANOTORRENT_MAX_ANNOUNCE_RETRIES)"

fun phase_ok :: "swarm_pc \<Rightarrow> nanotorrent_swarm_state \<Rightarrow> bool" where
  "phase_ok SwarmNotStarted st = False"
| "phase_ok SwarmWaitReady st = (st = NANOTORRENT_SWARM_INIT)"
| "phase_ok SwarmWaitJoined st = (st \<noteq> NANOTORRENT_SWARM_INIT)"
| "phase_ok SwarmWaitRefresh st = (st = NANOTORRENT_SWARM_JOINED \<or> st = NANOTORRENT_SWARM_LEFT)"
| "phase_ok SwarmEnded st = (st = NANOTORRENT_SWARM_LEFT)"

definition swarm_core :: "('f, 'm, 't) contiki \<Rightarrow> ('f, 'm, 't, 'a) nanotorrent_swarm_scheme \<Rightarrow> bool" where
  "swarm_core K s \<longleftrightarrow> length (info_hash s) = 20 \<and> known_ok K s \<and> announcing s"

definition swarm_inv :: "('f, 'm, 't) contiki \<Rightarrow> ('f, 'm, 't, 'a) nanotorrent_swarm_scheme \<Rightarrow> bool" where
  "swarm_inv K s \<longleftrightarrow> swarm_core K s \<and> phase_ok (swarm_pc s) (swarm_state s)"

lemmas swarm_inv_defs = swarm_inv_def swarm_core_def known_ok_def announcing_def calls_announce_def

text \<open>The parts of the state that the swarm component leaves to the others.\<close>

definition same_peer :: "('f, 'm, 't, 'a) nanotorrent_swarm_scheme \<Rightarrow> ('f, 'm, 't, 'a) nanotorrent_swarm_scheme \<Rightarrow> bool" where
  "same_peer s s' \<longleftrightarrow> same_net s s' \<and> same_store s s' \<and> same_requests s s' \<and> conns s' = conns s \<and> now s' = now s \<and>
     nanotorrent_swarm.more s' = nanotorrent_swarm.more s"

lemma same_peer_refl [simp]: "same_peer s s"
  by (simp add: same_peer_def same_requests_def)

lemma same_peer_trans: "same_peer s t \<Longrightarrow> same_peer t u \<Longrightarrow> same_peer s u"
  unfolding same_peer_def using same_net_trans same_store_trans by (fastforce simp: same_requests_def)

lemma same_peer_emit: "same_peer s (emit out s)"
  by (simp add: same_peer_def) (simp add: emit_def)

lemma same_peer_inv: "same_peer s s' \<Longrightarrow> peer_inv K s' = peer_inv K s \<and> armed s' = armed s"
  unfolding same_peer_def using same_inv same_conns_armed same_net_peers by blast

lemma emit_swarm_simps [simp]:
  "swarm_state (emit out s) = swarm_state s" "swarm_peers (emit out s) = swarm_peers s"
  "swarm_peer_info (emit out s) = swarm_peer_info s" "peer_memb (emit out s) = peer_memb s"
  "announce_retry (emit out s) = announce_retry s" "announce_retry_event (emit out s) = announce_retry_event s"
  "refresh (emit out s) = refresh s" "ready_poll (emit out s) = ready_poll s" "swarm_pc (emit out s) = swarm_pc s"
  by (simp_all add: emit_def)

lemma emit_swarm_inv [simp]:
  "known_ok K (emit out s) = known_ok K s" "announcing (emit out s) = announcing s" "swarm_core K (emit out s) = swarm_core K s"
  "swarm_inv K (emit out s) = swarm_inv K s"
  by (simp_all add: swarm_inv_defs)

text \<open>How often the main process has been told about a change of the swarm.\<close>

definition swarm_posts :: "'a env_scheme \<Rightarrow> nat" where
  "swarm_posts s = count_list (outputs s) (ProcessPost MainProcess swarm_event)"

lemma swarm_posts_emit [simp]:
  "swarm_posts (emit out s) = swarm_posts s + (if out = ProcessPost MainProcess swarm_event then 1 else 0)"
  by (simp add: swarm_posts_def emit_def)

lemmas swarm_op_defs = nanotorrent_swarm_post_event_def nanotorrent_swarm_clear_peers_def nanotorrent_swarm_announce_stop_def
  nanotorrent_swarm_leave_quiet_def nanotorrent_swarm_force_leave_def nanotorrent_swarm_is_joined_def nanotorrent_retry_stop_def

lemmas same_peer_defs = same_peer_def same_net_def same_store_def same_requests_def

section \<open>Announcing and leaving\<close>

definition announce_action :: "u8 \<Rightarrow> ('f, 'm, 't, 'a) nanotorrent_swarm_scheme \<Rightarrow> action" where
  "announce_action ev s = UdpSend TrackerSocket
     (enc_request \<lparr>req_info_hash = info_hash s, num_want = of_nat NANOTORRENT_MAX_SWARM_PEERS, req_event = ev\<rparr>)"

lemma announce_not_post [simp]: "announce_action ev s \<noteq> ProcessPost p e"
  by (simp add: announce_action_def)

lemma announce_send_eq:
  "length (info_hash s) = 20 \<Longrightarrow> nanotorrent_swarm_announce_send ev s = Some (emit (announce_action ev s) s)"
  using request.pack_Some [of "\<lparr>req_info_hash = info_hash s, num_want = of_nat NANOTORRENT_MAX_SWARM_PEERS, req_event = ev\<rparr>"
      0 "replicate 22 0"]
    request.size_enc [of "\<lparr>req_info_hash = info_hash s, num_want = of_nat NANOTORRENT_MAX_SWARM_PEERS, req_event = ev\<rparr>"]
  by (simp add: nanotorrent_swarm_announce_send_def memcpy_whole announce_action_def)

lemma leave_quiet_simps [simp]:
  "swarm_state (nanotorrent_swarm_leave_quiet K s) = NANOTORRENT_SWARM_LEFT"
  "swarm_peers (nanotorrent_swarm_leave_quiet K s) = []"
  "swarm_pc (nanotorrent_swarm_leave_quiet K s) = swarm_pc s"
  "info_hash (nanotorrent_swarm_leave_quiet K s) = info_hash s"
  "swarm_posts (nanotorrent_swarm_leave_quiet K s) = swarm_posts s"
  "outputs (nanotorrent_swarm_leave_quiet K s) = outputs s"
  "same_peer s (nanotorrent_swarm_leave_quiet K s)"
  by (simp_all add: swarm_op_defs Let_def same_peer_defs swarm_posts_def)

text \<open>What leaving relies on; in particular not on the retry's counters.\<close>

definition swarm_base :: "('f, 'm, 't) contiki \<Rightarrow> ('f, 'm, 't, 'a) nanotorrent_swarm_scheme \<Rightarrow> bool" where
  "swarm_base K s \<longleftrightarrow> length (info_hash s) = 20 \<and> known_ok K s \<and> calls_announce s"

lemma core_base: "swarm_core K s \<Longrightarrow> swarm_base K s"
  by (simp add: swarm_core_def swarm_base_def announcing_def)

lemma leave_quiet_core:
  assumes "memb_ok K" "swarm_base K s"
  shows "swarm_core K (nanotorrent_swarm_leave_quiet K s)"
  using assms(2) memb_init_simps [OF assms(1), of "peer_memb s"]
  by (simp add: swarm_inv_defs swarm_base_def swarm_op_defs Let_def NANOTRACKER_ANNOUNCE_REFRESH_def)

lemma force_leave_outcome:
  assumes "memb_ok K" "swarm_base K s"
  shows "swarm_core K (nanotorrent_swarm_force_leave K s)" "same_peer s (nanotorrent_swarm_force_leave K s)"
    "swarm_state (nanotorrent_swarm_force_leave K s) = NANOTORRENT_SWARM_LEFT"
    "swarm_pc (nanotorrent_swarm_force_leave K s) = swarm_pc s"
    "swarm_posts (nanotorrent_swarm_force_leave K s) =
      swarm_posts s + (if swarm_state s = NANOTORRENT_SWARM_JOINED then 1 else 0)"
proof -
  let ?t = "nanotorrent_swarm_leave_quiet K s"
  have e: "nanotorrent_swarm_force_leave K s =
      (if nanotorrent_swarm_is_joined s then nanotorrent_swarm_post_event ?t else ?t)"
    by (simp add: nanotorrent_swarm_force_leave_def Let_def) (simp add: swarm_op_defs Let_def emit_def)
  show "swarm_core K (nanotorrent_swarm_force_leave K s)" "same_peer s (nanotorrent_swarm_force_leave K s)"
    "swarm_state (nanotorrent_swarm_force_leave K s) = NANOTORRENT_SWARM_LEFT"
    "swarm_pc (nanotorrent_swarm_force_leave K s) = swarm_pc s"
    "swarm_posts (nanotorrent_swarm_force_leave K s) =
      swarm_posts s + (if swarm_state s = NANOTORRENT_SWARM_JOINED then 1 else 0)"
    using leave_quiet_core [OF assms] same_peer_trans [OF _ same_peer_emit, of s ?t]
    by (simp_all add: e nanotorrent_swarm_post_event_def nanotorrent_swarm_is_joined_def)
qed

lemma leave_outcome:
  assumes "memb_ok K" "swarm_base K s"
  shows "\<exists>s'. nanotorrent_swarm_leave K s = Some s' \<and> swarm_core K s' \<and> same_peer s s' \<and>
    swarm_state s' = NANOTORRENT_SWARM_LEFT \<and> swarm_pc s' = swarm_pc s \<and> swarm_posts s' = swarm_posts s +
      (if swarm_state s = NANOTORRENT_SWARM_JOINING \<or> swarm_state s = NANOTORRENT_SWARM_JOINED then 1 else 0)"
proof -
  let ?t = "nanotorrent_swarm_leave_quiet K s"
  have c: "swarm_core K ?t" and "length (info_hash ?t) = 20"
    using leave_quiet_core [OF assms] assms(2) by (simp_all add: swarm_base_def)
  then show ?thesis
    using same_peer_trans [OF _ same_peer_emit, of s ?t]
      same_peer_trans [OF _ same_peer_emit, of s "emit (announce_action NANOTRACKER_ANNOUNCE_STOPPED ?t) ?t"]
    by (simp add: nanotorrent_swarm_leave_def announce_send_eq nanotorrent_swarm_post_event_def Let_def)
qed

text \<open>Starting an announce sends it at once.\<close>

lemma announce_start_outcome:
  assumes "length (info_hash s) = 20" "rt_again_callback (announce_retry s) = nanotorrent_swarm_announce_retry_again"
  shows "\<exists>r. nanotorrent_swarm_announce_start K ev s =
      Some (emit (announce_action ev s) (s\<lparr>announce_retry_event := ev, announce_retry := r\<rparr>)) \<and>
    rt_num_retries r = 1 \<and> rt_max_retries r = NANOTORRENT_MAX_ANNOUNCE_RETRIES \<and>
    rt_again_callback r = rt_again_callback (announce_retry s) \<and> rt_stop_callback r = rt_stop_callback (announce_retry s)"
proof -
  let ?r0 = "(announce_retry s)\<lparr>rt_data := None, rt_num_retries := 0, rt_max_retries := NANOTORRENT_MAX_ANNOUNCE_RETRIES\<rparr>"
  obtain r call where r: "nanotorrent_retry_next K (now s) ?r0 = (r, call)"
    by (cases "nanotorrent_retry_next K (now s) ?r0")
  have a: "nanotorrent_retry_next K (now s) ?r0 = (?r0\<lparr>rt_timer := etimer_set K (now s)
      (backoff_timeout K (rt_timeout ?r0) 0) (rt_timer ?r0), rt_num_retries := rt_num_retries ?r0 + 1\<rparr>,
      Some (rt_again_callback ?r0, rt_data ?r0))"
    by (rule retry_next_again) (simp_all add: NANOTORRENT_MAX_ANNOUNCE_RETRIES_def)
  then show ?thesis
    using r assms
    by (auto simp: nanotorrent_swarm_announce_start_def nanotorrent_retry_start_def announce_send_eq announce_action_def)
qed

lemma succ_bounds: "i < m \<Longrightarrow> 0 < i + 1 \<and> i + 1 \<le> (m :: u8)"
proof -
  assume "i < m"
  then have "unat (i + 1) = Suc (unat i)"
    using unat_u8_less [of m] by (simp add: unat_add_fits word_less_nat_alt)
  then show ?thesis
    using \<open>i < m\<close> by (simp add: word_less_nat_alt word_le_nat_alt)
qed

text \<open>Processing the retry does nothing, sends the announce again, or leaves the swarm.\<close>

lemma process_announce_outcome:
  assumes "memb_ok K" "swarm_core K s"
  shows "\<exists>s'. process_announce_retry K s = Some s' \<and> swarm_core K s' \<and> same_peer s s' \<and> swarm_pc s' = swarm_pc s \<and>
    (swarm_state s' = swarm_state s \<and> swarm_posts s' = swarm_posts s \<or>
     swarm_state s' = NANOTORRENT_SWARM_LEFT \<and> rt_num_retries (announce_retry s) = rt_max_retries (announce_retry s) \<and>
       swarm_posts s' = swarm_posts s + (if swarm_state s = NANOTORRENT_SWARM_JOINED then 1 else 0))"
proof -
  obtain r call where r: "nanotorrent_retry_process K (now s) (announce_retry s) = (r, call)"
    by (cases "nanotorrent_retry_process K (now s) (announce_retry s)")
  have cb: "calls_announce s" "length (info_hash s) = 20" "known_ok K s"
    using assms(2) by (simp_all add: swarm_core_def announcing_def)
  let ?t = "s\<lparr>announce_retry := r\<rparr>"
  have peer: "same_peer s ?t" and other: "known_ok K ?t" "length (info_hash ?t) = 20" "swarm_posts ?t = swarm_posts s"
    using cb by (simp_all add: same_peer_defs known_ok_def swarm_posts_def)
  consider (idle) "r = announce_retry s" "call = None"
    | (again) "call = Some (nanotorrent_swarm_announce_retry_again, rt_data r)" "calls_announce ?t" "announcing ?t"
    | (stop) "call = Some (nanotorrent_swarm_announce_retry_stop, rt_data r)" "calls_announce ?t"
        "rt_num_retries (announce_retry s) = rt_max_retries (announce_retry s)"
  proof (cases "call = None")
    case True
    then have "r = announce_retry s"
      using r by (auto simp: nanotorrent_retry_process_def nanotorrent_retry_next_def Let_def split: if_splits)
    then show ?thesis
      using True idle by blast
  next
    case False
    then have n: "nanotorrent_retry_next K (now s) (announce_retry s) = (r, call)"
      using r by (auto simp: nanotorrent_retry_process_def split: if_splits)
    have c: "calls_announce ?t"
      using retry_next_frame [of K "now s" "announce_retry s"] n cb(1) by (simp add: calls_announce_def)
    show ?thesis
    proof (cases "rt_num_retries (announce_retry s) < rt_max_retries (announce_retry s)")
      case True
      then have e: "call = Some (nanotorrent_swarm_announce_retry_again, rt_data r)"
        "rt_num_retries r = rt_num_retries (announce_retry s) + 1" "rt_max_retries r = rt_max_retries (announce_retry s)"
        using n cb(1) by (auto simp: nanotorrent_retry_next_def Let_def calls_announce_def)
      have "0 < rt_num_retries r \<and> rt_num_retries r \<le> rt_max_retries r"
        using succ_bounds [OF True] e(2,3) by simp
      then show ?thesis
        using again [OF e(1) c] c assms(2) e(3) by (auto simp: swarm_core_def announcing_def)
    next
      case False
      then show ?thesis
        using stop [OF _ c] n cb(1) \<open>call \<noteq> None\<close>
        by (auto simp: nanotorrent_retry_next_def nanotorrent_retry_stop_def Let_def calls_announce_def split: if_splits)
    qed
  qed
  then show ?thesis
  proof cases
    case idle
    then show ?thesis
      using r assms(2) peer other(3) by (auto simp: process_announce_retry_def)
  next
    case again
    then show ?thesis
      using r peer other same_peer_trans [OF peer same_peer_emit]
      by (auto simp: process_announce_retry_def announce_send_eq announce_action_def swarm_core_def)
  next
    case stop
    then have "swarm_base K ?t"
      using other by (simp add: swarm_base_def)
    from force_leave_outcome [OF assms(1) this] show ?thesis
      using r stop(1,3) other(3) same_peer_trans [OF peer] by (auto simp: process_announce_retry_def)
  qed
qed

section \<open>Known peers\<close>

lemma add_peer_Some:
  assumes "kernel_ok K" "known_ok K s" "memb_alloc K (peer_memb s) = (Some c, m)"
  shows "nanotorrent_swarm_add_peer K p s =
      (True, s\<lparr>peer_memb := m, swarm_peer_info := (swarm_peer_info s)(c := p), swarm_peers := c # swarm_peers s\<rparr>)"
    "known_ok K (s\<lparr>peer_memb := m, swarm_peer_info := (swarm_peer_info s)(c := p), swarm_peers := c # swarm_peers s\<rparr>)"
    "c \<notin> set (swarm_peers s)"
proof -
  have k: "list_ok K" "memb_ok K"
    using assms(1) by (simp_all add: kernel_ok_def)
  note m = memb_alloc_Some [OF k(2) assms(3)]
  show n: "c \<notin> set (swarm_peers s)"
    using m(1) assms(2) by (simp add: known_ok_def)
  show "nanotorrent_swarm_add_peer K p s =
      (True, s\<lparr>peer_memb := m, swarm_peer_info := (swarm_peer_info s)(c := p), swarm_peers := c # swarm_peers s\<rparr>)"
    using assms(3) list_push_new [OF k(1) n] by (simp add: nanotorrent_swarm_add_peer_def)
  show "known_ok K (s\<lparr>peer_memb := m, swarm_peer_info := (swarm_peer_info s)(c := p), swarm_peers := c # swarm_peers s\<rparr>)"
    using assms(2) m n by (simp add: known_ok_def)
qed

lemma known_length:
  assumes "memb_ok K" "known_ok K s"
  shows "length (swarm_peers s) = card (memb_allocated K (peer_memb s))" "length (swarm_peers s) \<le> NANOTORRENT_MAX_SWARM_PEERS"
  using assms memb_allocated_card(2) [OF assms(1), of "peer_memb s"] by (simp_all add: known_ok_def flip: distinct_card)

lemma pop_peer_outcome:
  assumes "kernel_ok K" "swarm_core K s"
  shows "swarm_core K (nanotorrent_swarm_pop_peer K s)" "swarm_peers (nanotorrent_swarm_pop_peer K s) = tl (swarm_peers s)"
    "swarm_peer_info (nanotorrent_swarm_pop_peer K s) = swarm_peer_info s"
    "same_peer s (nanotorrent_swarm_pop_peer K s)" "swarm_state (nanotorrent_swarm_pop_peer K s) = swarm_state s"
    "swarm_pc (nanotorrent_swarm_pop_peer K s) = swarm_pc s" "swarm_posts (nanotorrent_swarm_pop_peer K s) = swarm_posts s"
proof -
  have k: "list_ok K" "memb_ok K"
    using assms(1) by (simp_all add: kernel_ok_def)
  have f: "distinct (swarm_peers s)" "set (swarm_peers s) = memb_allocated K (peer_memb s)"
    using assms(2) by (simp_all add: swarm_core_def known_ok_def)
  have e: "nanotorrent_swarm_pop_peer K s = (case swarm_peers s of [] \<Rightarrow> s
      | c # cs \<Rightarrow> s\<lparr>swarm_peers := cs, peer_memb := memb_free K c (peer_memb s)\<rparr>)"
    using k(1) by (cases "swarm_peers s") (simp_all add: nanotorrent_swarm_pop_peer_def list_ok_def)
  have m: "memb_allocated K (memb_free K c (peer_memb s)) = memb_allocated K (peer_memb s) - {c}"
    "memb_capacity K (memb_free K c (peer_memb s)) = memb_capacity K (peer_memb s)" if "c \<in> set (swarm_peers s)" for c
    using memb_free_simps [OF k(2)] memb_allocated_inmemb [OF k(2)] that f(2) by simp_all
  have "known_ok K (nanotorrent_swarm_pop_peer K s)"
    using assms(2) f m by (cases "swarm_peers s") (auto simp: e swarm_core_def known_ok_def)
  then show "swarm_core K (nanotorrent_swarm_pop_peer K s)"
    using assms(2) by (simp add: e swarm_core_def announcing_def calls_announce_def split: list.splits)
  show "swarm_peers (nanotorrent_swarm_pop_peer K s) = tl (swarm_peers s)"
    "swarm_peer_info (nanotorrent_swarm_pop_peer K s) = swarm_peer_info s"
    "same_peer s (nanotorrent_swarm_pop_peer K s)" "swarm_state (nanotorrent_swarm_pop_peer K s) = swarm_state s"
    "swarm_pc (nanotorrent_swarm_pop_peer K s) = swarm_pc s" "swarm_posts (nanotorrent_swarm_pop_peer K s) = swarm_posts s"
    by (simp_all add: e same_peer_defs swarm_posts_def split: list.splits)
qed

section \<open>Replies\<close>

text \<open>The address number \<open>i\<close> of a reply, and the memory a reply is read from.\<close>

definition reply_peer :: "u8 list \<Rightarrow> nat \<Rightarrow> nat \<Rightarrow> nanotorrent_peer_info" where
  "reply_peer mem p i = \<lparr>peer_ip = take 16 (drop (p + 16 * i) mem)\<rparr>"

definition reply_ok :: "u8 list \<Rightarrow> bool" where
  "reply_ok mem \<longleftrightarrow> 21 + 16 * min (unat (mem ! 20)) (Suc NANOTORRENT_MAX_SWARM_PEERS) \<le> length mem \<and> 21 \<le> length mem"

lemma reply_peer_Suc: "reply_peer mem (p + 16) i = reply_peer mem p (Suc i)"
  by (simp add: reply_peer_def algebra_simps)

lemma upt_Suc_map: "map f [0..<Suc n] = f 0 # map (\<lambda>i. f (Suc i)) [0..<n]"
  by (simp add: map_upt_Suc del: upt_Suc)

lemma add_peers_outcome:
  assumes "kernel_ok K" "known_ok K s" "p \<le> length mem"
    and "p + 16 * min n (Suc NANOTORRENT_MAX_SWARM_PEERS - length (swarm_peers s)) \<le> length mem"
  shows "\<exists>cs m f. add_peers K n (mem, p) s = Some (s\<lparr>peer_memb := m, swarm_peer_info := f, swarm_peers := cs\<rparr>) \<and>
    known_ok K (s\<lparr>peer_memb := m, swarm_peer_info := f, swarm_peers := cs\<rparr>) \<and>
    map f cs = rev (map (reply_peer mem p) [0..<min n (NANOTORRENT_MAX_SWARM_PEERS - length (swarm_peers s))]) @
      map (swarm_peer_info s) (swarm_peers s)"
  using assms(2-)
proof (induction n arbitrary: p s)
  case 0
  then show ?case
    by (intro exI [of _ "swarm_peers s"] exI [of _ "peer_memb s"] exI [of _ "swarm_peer_info s"]) simp
next
  case (Suc n)
  let ?M = NANOTORRENT_MAX_SWARM_PEERS
  have k: "list_ok K" "memb_ok K"
    using assms(1) by (simp_all add: kernel_ok_def)
  note len = known_length [OF k(2) Suc.prems(1)]
  have "p + 16 \<le> length mem"
    using Suc.prems(3) len(2) by (cases "Suc ?M - length (swarm_peers s)") simp_all
  then have u: "nanotorrent_unpack_peer_info (mem, p) = Some (reply_peer mem p 0, (mem, p + 16))"
    using pinfo.parse_Some [of p mem] by (simp add: reply_peer_def)
  show ?case
  proof (cases "memb_alloc K (peer_memb s)")
    case (Pair r m)
    show ?thesis
    proof (cases r)
      case None
      then have full: "m = peer_memb s" "length (swarm_peers s) = ?M"
        using memb_alloc_None [OF k(2)] Pair len(1) Suc.prems(1) by (simp_all add: known_ok_def)
      have "add_peers K (Suc n) (mem, p) s = Some (s\<lparr>peer_memb := m\<rparr>)"
        using u None Pair by (simp add: nanotorrent_swarm_add_peer_def)
      then show ?thesis
        using full Suc.prems(1)
        by (intro exI [of _ "swarm_peers s"] exI [of _ m] exI [of _ "swarm_peer_info s"]) simp
    next
      case (Some c)
      let ?s = "s\<lparr>peer_memb := m, swarm_peer_info := (swarm_peer_info s)(c := reply_peer mem p 0), swarm_peers := c # swarm_peers s\<rparr>"
      note a = add_peer_Some(1,2) [OF assms(1) Suc.prems(1) Pair [unfolded Some], of "reply_peer mem p 0"]
        add_peer_Some(3) [OF assms(1) Suc.prems(1) Pair [unfolded Some]]
      have lt: "length (swarm_peers s) < ?M"
        using known_length(2) [OF k(2) a(2)] by simp
      have "p + 16 + 16 * min n (Suc ?M - length (swarm_peers ?s)) \<le> length mem"
        using Suc.prems(3) lt by (simp add: Suc_diff_le)
      from Suc.IH [OF a(2) \<open>p + 16 \<le> length mem\<close> this] obtain cs m' f where
        i: "add_peers K n (mem, p + 16) ?s = Some (?s\<lparr>peer_memb := m', swarm_peer_info := f, swarm_peers := cs\<rparr>)"
          "known_ok K (?s\<lparr>peer_memb := m', swarm_peer_info := f, swarm_peers := cs\<rparr>)"
          "map f cs = rev (map (reply_peer mem (p + 16)) [0..<min n (?M - length (swarm_peers ?s))]) @
            map (swarm_peer_info ?s) (swarm_peers ?s)"
        by blast
      have "min (Suc n) (?M - length (swarm_peers s)) = Suc (min n (?M - length (swarm_peers ?s)))"
        using lt by simp
      then have "map f cs = rev (map (reply_peer mem p) [0..<min (Suc n) (?M - length (swarm_peers s))]) @
          map (swarm_peer_info s) (swarm_peers s)"
        using i(3) a(3) by (simp only: upt_Suc_map) (simp add: reply_peer_Suc cong: map_cong)
      moreover have "add_peers K (Suc n) (mem, p) s = Some (s\<lparr>peer_memb := m', swarm_peer_info := f, swarm_peers := cs\<rparr>)"
        using u a(1) i(1) by simp
      moreover have "known_ok K (s\<lparr>peer_memb := m', swarm_peer_info := f, swarm_peers := cs\<rparr>)"
        using i(2) by (simp add: known_ok_def)
      ultimately show ?thesis by blast
    qed
  qed
qed

text \<open>A reply replaces the known peers, and is taken as the answer to the pending announce.\<close>

lemma handle_reply_outcome:
  assumes "kernel_ok K" "swarm_core K s" "reply_ok mem"
  shows "\<exists>s'. nanotorrent_swarm_handle_reply K mem s = Some s' \<and> swarm_core K s' \<and> same_peer s s' \<and> swarm_pc s' = swarm_pc s \<and>
    (if info_hash s \<noteq> take 20 mem then s' = s
     else map (swarm_peer_info s') (swarm_peers s') =
         rev (map (reply_peer mem 21) [0..<min (unat (mem ! 20)) NANOTORRENT_MAX_SWARM_PEERS]) \<and>
       swarm_state s' = (if swarm_state s = NANOTORRENT_SWARM_JOINING then NANOTORRENT_SWARM_JOINED else swarm_state s) \<and>
       refresh s' = etimer_set K (now s) (NANOTORRENT_ANNOUNCE_REFRESH_PERIOD K) (refresh s) \<and>
       announce_retry s' = nanotorrent_retry_stop K (announce_retry s) \<and> outputs s' = outputs s @ [ProcessPost MainProcess swarm_event])"
proof -
  have k: "memb_ok K"
    using assms(1) by (simp add: kernel_ok_def)
  have r: "21 \<le> length mem" "21 + 16 * min (unat (mem ! 20)) (Suc NANOTORRENT_MAX_SWARM_PEERS) \<le> length mem"
    using assms(3) by (simp_all add: reply_ok_def)
  have u: "nanotorrent_unpack_announce_reply (mem, 0) = Some (\<lparr>rep_info_hash = take 20 mem, num_peers = mem ! 20\<rparr>, (mem, 21))"
    using reply.parse_Some [of 0 mem] r(1) by (simp add: dec_reply_def)
  have c: "sha1_cmp (info_hash s) (take 20 mem) \<longleftrightarrow> info_hash s = take 20 mem"
    using assms(2) r(1) by (simp add: swarm_core_def)
  show ?thesis
  proof (cases "info_hash s = take 20 mem")
    case False
    then show ?thesis
      using u c assms(2) by (simp add: nanotorrent_swarm_handle_reply_def)
  next
    case True
    let ?t = "nanotorrent_swarm_clear_peers K s"
    have t: "known_ok K ?t" "swarm_peers ?t = []"
      using assms(2) memb_init_simps [OF k, of "peer_memb s"]
      by (simp_all add: swarm_core_def known_ok_def nanotorrent_swarm_clear_peers_def)
    from add_peers_outcome [OF assms(1) t(1) r(1)] r(2) t(2) obtain cs m f where
      a: "add_peers K (unat (mem ! 20)) (mem, 21) ?t = Some (?t\<lparr>peer_memb := m, swarm_peer_info := f, swarm_peers := cs\<rparr>)"
        "known_ok K (?t\<lparr>peer_memb := m, swarm_peer_info := f, swarm_peers := cs\<rparr>)"
        "map f cs = rev (map (reply_peer mem 21) [0..<min (unat (mem ! 20)) NANOTORRENT_MAX_SWARM_PEERS])"
      by fastforce
    let ?u = "s\<lparr>peer_memb := m, swarm_peer_info := f, swarm_peers := cs, announce_retry_event := 0,
      announce_retry := nanotorrent_retry_stop K (announce_retry s),
      swarm_state := (if swarm_state s = NANOTORRENT_SWARM_JOINING then NANOTORRENT_SWARM_JOINED else swarm_state s),
      refresh := etimer_set K (now s) (NANOTORRENT_ANNOUNCE_REFRESH_PERIOD K) (refresh s)\<rparr>"
    have e: "nanotorrent_swarm_handle_reply K mem s = Some (emit (ProcessPost MainProcess swarm_event) ?u)"
      using u c True a(1) assms(2)
      by (simp add: nanotorrent_swarm_handle_reply_def nanotorrent_swarm_announce_stop_def swarm_core_def announcing_def
          nanotorrent_swarm_clear_peers_def nanotorrent_swarm_handle_join_def nanotorrent_swarm_handle_refresh_def
          nanotorrent_swarm_post_event_def NANOTRACKER_ANNOUNCE_STARTED_def NANOTRACKER_ANNOUNCE_REFRESH_def)
    have "same_peer s ?u" "swarm_core K ?u"
      using a(2) assms(2)
      by (simp_all add: same_peer_defs swarm_core_def known_ok_def announcing_def calls_announce_def nanotorrent_retry_stop_def
          NANOTRACKER_ANNOUNCE_REFRESH_def)
    then show ?thesis
      using e a(3) True same_peer_trans [OF _ same_peer_emit, of s ?u] by simp
  qed
qed

section \<open>The swarm process\<close>

text \<open>A change of the state by the process, with the number of events posted to the main process.\<close>

definition process_moves :: "(nanotorrent_swarm_state \<times> nat \<times> nanotorrent_swarm_state) set" where
  "process_moves =
     {(NANOTORRENT_SWARM_INIT, 0, NANOTORRENT_SWARM_INIT), (NANOTORRENT_SWARM_INIT, 1, NANOTORRENT_SWARM_JOINING),
      (NANOTORRENT_SWARM_JOINING, 0, NANOTORRENT_SWARM_JOINING), (NANOTORRENT_SWARM_JOINING, 0, NANOTORRENT_SWARM_LEFT),
      (NANOTORRENT_SWARM_JOINED, 0, NANOTORRENT_SWARM_JOINED), (NANOTORRENT_SWARM_JOINED, 1, NANOTORRENT_SWARM_LEFT),
      (NANOTORRENT_SWARM_LEFT, 0, NANOTORRENT_SWARM_LEFT)}"

definition moves :: "('f, 'm, 't, 'a) nanotorrent_swarm_scheme \<Rightarrow> ('f, 'm, 't, 'a) nanotorrent_swarm_scheme \<Rightarrow> bool" where
  "moves s s' \<longleftrightarrow> swarm_posts s \<le> swarm_posts s' \<and> (swarm_state s, swarm_posts s' - swarm_posts s, swarm_state s') \<in> process_moves"

lemma moves_iff: "swarm_posts s' = swarm_posts s + n \<Longrightarrow> moves s s' \<longleftrightarrow> (swarm_state s, n, swarm_state s') \<in> process_moves"
  by (simp add: moves_def)

lemma core_pc [simp]:
  "swarm_core K (s\<lparr>swarm_pc := p\<rparr>) = swarm_core K s" "same_peer t (s\<lparr>swarm_pc := p\<rparr>) = same_peer t s"
  "swarm_posts (s\<lparr>swarm_pc := p\<rparr>) = swarm_posts s" "moves t (s\<lparr>swarm_pc := p\<rparr>) = moves t s"
  by (simp_all add: swarm_core_def known_ok_def announcing_def calls_announce_def same_peer_defs swarm_posts_def moves_def)

lemma core_timers [simp]:
  "swarm_core K (s\<lparr>refresh := t\<rparr>) = swarm_core K s" "same_peer u (s\<lparr>refresh := t\<rparr>) = same_peer u s"
  "swarm_core K (s\<lparr>ready_poll := t\<rparr>) = swarm_core K s" "same_peer u (s\<lparr>ready_poll := t\<rparr>) = same_peer u s"
  "swarm_posts (s\<lparr>refresh := t\<rparr>) = swarm_posts s" "swarm_posts (s\<lparr>ready_poll := t\<rparr>) = swarm_posts s"
  by (simp_all add: swarm_core_def known_ok_def announcing_def calls_announce_def same_peer_defs swarm_posts_def)

lemma refresh_outcome:
  assumes "swarm_core K s"
  shows "\<exists>s'. nanotorrent_swarm_refresh K s = Some s' \<and> swarm_core K s' \<and> same_peer s s' \<and> swarm_pc s' = swarm_pc s \<and>
    swarm_state s' = swarm_state s \<and> swarm_posts s' = swarm_posts s"
proof (cases "swarm_state s = NANOTORRENT_SWARM_JOINED")
  case False
  then show ?thesis
    using assms by (simp add: nanotorrent_swarm_refresh_def nanotorrent_swarm_is_joined_def)
next
  case True
  have c: "length (info_hash s) = 20" "rt_again_callback (announce_retry s) = nanotorrent_swarm_announce_retry_again"
    using assms by (simp_all add: swarm_core_def announcing_def calls_announce_def)
  obtain r where r: "nanotorrent_swarm_announce_start K NANOTRACKER_ANNOUNCE_REFRESH s =
      Some (emit (announce_action NANOTRACKER_ANNOUNCE_REFRESH s)
        (s\<lparr>announce_retry_event := NANOTRACKER_ANNOUNCE_REFRESH, announce_retry := r\<rparr>))"
    "rt_again_callback r = rt_again_callback (announce_retry s)" "rt_stop_callback r = rt_stop_callback (announce_retry s)"
    using announce_start_outcome [OF c] by blast
  let ?t = "s\<lparr>announce_retry_event := NANOTRACKER_ANNOUNCE_REFRESH, announce_retry := r\<rparr>"
  have "swarm_core K ?t" "same_peer s ?t" "swarm_posts ?t = swarm_posts s"
    using assms r(2,3) True by (simp_all add: swarm_inv_defs same_peer_defs swarm_posts_def)
  then show ?thesis
    using True r(1) same_peer_trans [OF _ same_peer_emit, of s ?t]
    by (simp add: nanotorrent_swarm_refresh_def nanotorrent_swarm_is_joined_def)
qed

lemma refresh_loop_outcome:
  assumes "memb_ok K" "swarm_core K s" "swarm_state s = NANOTORRENT_SWARM_JOINED \<or> swarm_state s = NANOTORRENT_SWARM_LEFT"
  shows "\<exists>s'. swarm_refresh_loop K s = Some s' \<and> swarm_inv K s' \<and> same_peer s s' \<and> moves s s'"
proof (cases "swarm_state s = NANOTORRENT_SWARM_JOINED")
  case False
  then show ?thesis
    using assms by (simp add: swarm_refresh_loop_def nanotorrent_swarm_is_joined_def swarm_inv_def moves_def process_moves_def)
next
  case True
  from process_announce_outcome [OF assms(1,2)] True obtain t where
    t: "process_announce_retry K s = Some t" "swarm_core K t" "same_peer s t"
      "swarm_state t = NANOTORRENT_SWARM_JOINED \<and> swarm_posts t = swarm_posts s \<or>
       swarm_state t = NANOTORRENT_SWARM_LEFT \<and> swarm_posts t = swarm_posts s + 1"
    by auto
  let ?r = "t\<lparr>refresh := etimer_restart K (now t) (refresh t)\<rparr>"
  have "swarm_core K ?r" "same_peer s ?r" "swarm_posts ?r = swarm_posts t" "swarm_state ?r = swarm_state t"
    using t(2,3) by simp_all
  then obtain u where u: "nanotorrent_swarm_refresh K ?r = Some u" "swarm_core K u" "same_peer s u"
      "swarm_state u = swarm_state t" "swarm_posts u = swarm_posts t"
    using refresh_outcome [of K ?r] same_peer_trans [of s ?r] by auto
  have m: "moves s v" "phase_ok SwarmWaitRefresh (swarm_state v)"
    if "swarm_state v = swarm_state t" "swarm_posts v = swarm_posts t" for v
    using that t(4) True by (auto simp: moves_def process_moves_def)
  show ?thesis
    using True t u(1-3) m [of t] m [of u] u(4,5)
    by (cases "etimer_expired K (now t) (refresh t)")
      (simp_all add: swarm_refresh_loop_def nanotorrent_swarm_is_joined_def swarm_inv_def)
qed

lemma join_loop_outcome:
  assumes "memb_ok K" "swarm_core K s" "swarm_state s \<noteq> NANOTORRENT_SWARM_INIT"
  shows "\<exists>s'. swarm_join_loop K s = Some s' \<and> swarm_inv K s' \<and> same_peer s s' \<and> moves s s' \<and>
    (swarm_state s = NANOTORRENT_SWARM_JOINING \<and> rt_num_retries (announce_retry s) \<noteq> rt_max_retries (announce_retry s) \<longrightarrow>
      swarm_state s' = NANOTORRENT_SWARM_JOINING)"
proof (cases "swarm_state s = NANOTORRENT_SWARM_JOINED")
  case True
  then show ?thesis
    using refresh_loop_outcome [OF assms(1,2)] by (simp add: swarm_join_loop_def nanotorrent_swarm_is_joined_def)
next
  case False
  from process_announce_outcome [OF assms(1,2)] False obtain t where
    t: "process_announce_retry K s = Some t" "swarm_core K t" "same_peer s t" "swarm_posts t = swarm_posts s"
      "swarm_state t = swarm_state s \<or>
       swarm_state t = NANOTORRENT_SWARM_LEFT \<and> rt_num_retries (announce_retry s) = rt_max_retries (announce_retry s)"
    by auto
  have "swarm_state s = NANOTORRENT_SWARM_JOINING \<or> swarm_state s = NANOTORRENT_SWARM_LEFT"
    using False assms(3) by (cases "swarm_state s") simp_all
  then have "moves s t" "swarm_state t \<noteq> NANOTORRENT_SWARM_INIT"
    using t(4,5) by (auto simp: moves_def process_moves_def)
  then show ?thesis
    using False t by (auto simp: swarm_join_loop_def nanotorrent_swarm_is_joined_def swarm_inv_def)
qed

lemma ready_loop_outcome:
  assumes "memb_ok K" "swarm_core K s" "swarm_state s = NANOTORRENT_SWARM_INIT"
  shows "\<exists>s'. swarm_ready_loop K s = Some s' \<and> swarm_inv K s' \<and> same_peer s s' \<and> moves s s' \<and>
    (nanotorrent_swarm_is_ready K s \<longrightarrow> swarm_state s' = NANOTORRENT_SWARM_JOINING)"
proof (cases "nanotorrent_swarm_is_ready K s")
  case False
  then show ?thesis
    using assms by (simp add: swarm_ready_loop_def swarm_inv_def moves_iff [where n = 0] process_moves_def)
next
  case True
  let ?l = "s\<lparr>swarm_state := NANOTORRENT_SWARM_LEFT\<rparr>"
  have l: "nanotorrent_swarm_set_ready s = ?l" "length (info_hash ?l) = 20"
    "rt_again_callback (announce_retry ?l) = nanotorrent_swarm_announce_retry_again"
    using assms(2,3) by (simp_all add: nanotorrent_swarm_set_ready_def swarm_inv_defs)
  obtain r where r: "nanotorrent_swarm_announce_start K NANOTRACKER_ANNOUNCE_STARTED ?l =
      Some (emit (announce_action NANOTRACKER_ANNOUNCE_STARTED ?l)
        (?l\<lparr>announce_retry_event := NANOTRACKER_ANNOUNCE_STARTED, announce_retry := r\<rparr>))"
    "rt_num_retries r = 1" "rt_max_retries r = NANOTORRENT_MAX_ANNOUNCE_RETRIES"
    "rt_again_callback r = rt_again_callback (announce_retry ?l)" "rt_stop_callback r = rt_stop_callback (announce_retry ?l)"
    using announce_start_outcome [OF l(2,3)] by blast
  define t where "t = nanotorrent_swarm_post_event ((emit (announce_action NANOTRACKER_ANNOUNCE_STARTED ?l)
    (?l\<lparr>announce_retry_event := NANOTRACKER_ANNOUNCE_STARTED, announce_retry := r\<rparr>))\<lparr>swarm_state := NANOTORRENT_SWARM_JOINING\<rparr>)"
  have e: "swarm_ready_loop K s = swarm_join_loop K t"
    using True l(1) r(1) by (simp add: swarm_ready_loop_def nanotorrent_swarm_join_def nanotorrent_swarm_can_join_def t_def)
  have t: "swarm_core K t" "same_peer s t" "swarm_posts t = swarm_posts s + 1" "swarm_state t = NANOTORRENT_SWARM_JOINING"
    "rt_num_retries (announce_retry t) \<noteq> rt_max_retries (announce_retry t)"
    using assms(2) r(2-5)
    by (simp_all add: t_def nanotorrent_swarm_post_event_def emit_def swarm_inv_defs same_peer_defs swarm_posts_def
        NANOTORRENT_MAX_ANNOUNCE_RETRIES_def announce_action_def)
  then obtain s' where s': "swarm_join_loop K t = Some s'" "swarm_inv K s'" "same_peer t s'" "moves t s'"
      "swarm_state s' = NANOTORRENT_SWARM_JOINING"
    using join_loop_outcome [OF assms(1) t(1)] by auto
  have "swarm_posts s' = swarm_posts t"
    using s'(4,5) t(4) by (auto simp: moves_def process_moves_def)
  then show ?thesis
    using e s' t assms(3) same_peer_trans [OF t(2)] by (simp add: moves_def process_moves_def)
qed

section \<open>Starting\<close>

text \<open>What the swarm process relies on when it starts.\<close>

definition swarm_fresh :: "('f, 'm, 't) contiki \<Rightarrow> ('f, 'm, 't, 'a) nanotorrent_swarm_scheme \<Rightarrow> bool" where
  "swarm_fresh K s \<longleftrightarrow> length (info_hash s) = 20 \<and> memb_capacity K (peer_memb s) = NANOTORRENT_MAX_SWARM_PEERS \<and>
     swarm_pc s = SwarmNotStarted"

lemma swarm_init_outcome:
  assumes "memb_ok K" "swarm_fresh K s"
  shows "swarm_core K (nanotorrent_swarm_init K s)" "same_peer s (nanotorrent_swarm_init K s)"
    "swarm_state (nanotorrent_swarm_init K s) = NANOTORRENT_SWARM_INIT"
    "swarm_posts (nanotorrent_swarm_init K s) = swarm_posts s" "swarm_peers (nanotorrent_swarm_init K s) = []"
  using assms(2) memb_init_simps [OF assms(1), of "peer_memb s"]
  by (simp_all add: nanotorrent_swarm_init_def nanotorrent_retry_init_def swarm_fresh_def swarm_op_defs swarm_inv_defs Let_def
      same_peer_defs emit_def swarm_posts_def NANOTRACKER_ANNOUNCE_REFRESH_def)

lemma swarm_process_start:
  assumes "memb_ok K" "swarm_fresh K s" "ev \<noteq> PROCESS_EVENT_EXIT"
  shows "\<exists>s'. nanotorrent_swarm_process K ev s = Some s' \<and> swarm_inv K s' \<and> same_peer s s' \<and>
    (swarm_state s' = NANOTORRENT_SWARM_INIT \<and> swarm_posts s' = swarm_posts s \<or>
     swarm_state s' = NANOTORRENT_SWARM_JOINING \<and> swarm_posts s' = swarm_posts s + 1) \<and>
    (ds6_has_global K (now s) \<longrightarrow> swarm_state s' = NANOTORRENT_SWARM_JOINING)"
proof -
  let ?i = "nanotorrent_swarm_init K s"
  let ?t = "?i\<lparr>ready_poll := etimer_set K (now ?i) (SWARM_READY_POLL_PERIOD K) (ready_poll ?i)\<rparr>"
  note i = swarm_init_outcome [OF assms(1,2)]
  have t: "swarm_core K ?t" "same_peer s ?t" "swarm_state ?t = NANOTORRENT_SWARM_INIT" "swarm_posts ?t = swarm_posts s"
    using i by simp_all
  from ready_loop_outcome [OF assms(1) t(1,3)] obtain s' where
    s': "swarm_ready_loop K ?t = Some s'" "swarm_inv K s'" "same_peer ?t s'" "moves ?t s'"
      "nanotorrent_swarm_is_ready K ?t \<longrightarrow> swarm_state s' = NANOTORRENT_SWARM_JOINING"
    by blast
  have r: "nanotorrent_swarm_is_ready K ?t = ds6_has_global K (now s)"
    using t(2) by (simp add: nanotorrent_swarm_is_ready_def same_peer_def)
  have e: "nanotorrent_swarm_process K ev s = swarm_ready_loop K ?t"
    using assms(2,3) by (simp add: nanotorrent_swarm_process_def swarm_fresh_def Let_def)
  have "swarm_state s' = NANOTORRENT_SWARM_INIT \<and> swarm_posts s' = swarm_posts s \<or>
     swarm_state s' = NANOTORRENT_SWARM_JOINING \<and> swarm_posts s' = swarm_posts s + 1"
    using s'(4) t(3,4) by (auto simp: moves_def process_moves_def)
  then show ?thesis
    using e s'(1,2,5) r same_peer_trans [OF t(2) s'(3)] by simp
qed

lemma swarm_process_outcome:
  assumes "memb_ok K" "swarm_inv K s"
  shows "\<exists>s'. nanotorrent_swarm_process K ev s = Some s' \<and> swarm_inv K s' \<and> same_peer s s' \<and>
    (moves s s' \<or> ev = PROCESS_EVENT_EXIT \<and> swarm_state s = NANOTORRENT_SWARM_INIT \<and>
      swarm_state s' = NANOTORRENT_SWARM_LEFT \<and> swarm_posts s' = swarm_posts s)"
proof (cases "ev = PROCESS_EVENT_EXIT")
  case True
  have c: "swarm_core K s"
    using assms(2) by (simp add: swarm_inv_def)
  note f = force_leave_outcome [OF assms(1) core_base [OF c]]
  let ?t = "nanotorrent_swarm_shutdown K s"
  have t: "swarm_core K ?t" "same_peer s ?t" "swarm_state ?t = NANOTORRENT_SWARM_LEFT"
    "swarm_posts ?t = swarm_posts s + (if swarm_state s = NANOTORRENT_SWARM_JOINED then 1 else 0)"
    using f same_peer_trans [OF f(2) same_peer_emit] by (simp_all add: nanotorrent_swarm_shutdown_def)
  then have "swarm_state s = NANOTORRENT_SWARM_INIT \<or> moves s ?t"
    by (cases "swarm_state s") (simp_all add: moves_def process_moves_def)
  then show ?thesis
    using True t by (auto simp: nanotorrent_swarm_process_def swarm_inv_def)
next
  case False
  have c: "swarm_core K s" "phase_ok (swarm_pc s) (swarm_state s)"
    using assms(2) by (simp_all add: swarm_inv_def)
  have stay: "moves s s"
    by (cases "swarm_state s") (simp_all add: moves_def process_moves_def)
  show ?thesis
  proof (cases "swarm_pc s")
    case SwarmNotStarted
    then show ?thesis
      using c(2) by simp
  next
    case SwarmWaitReady
    then show ?thesis
      using False c stay ready_loop_outcome [OF assms(1) c(1)] assms(2) by (auto simp: nanotorrent_swarm_process_def)
  next
    case SwarmWaitJoined
    then show ?thesis
      using False c stay join_loop_outcome [OF assms(1) c(1)] assms(2)
      by (cases "nanotorrent_retry_check K (now s) (announce_retry s)") (auto simp: nanotorrent_swarm_process_def)
  next
    case SwarmWaitRefresh
    then show ?thesis
      using False c stay refresh_loop_outcome [OF assms(1) c(1)] assms(2) by (simp add: nanotorrent_swarm_process_def)
  next
    case SwarmEnded
    then show ?thesis
      using False stay assms(2) by (simp add: nanotorrent_swarm_process_def)
  qed
qed

section \<open>Steps and reachable states\<close>

text \<open>
  The steps of the component: an event for its process, a reply of the tracker, the main process taking a
  peer off the list, and everything the rest of the program does, time passing included, which leaves the
  component's own state alone.
\<close>

definition same_swarm :: "('f, 'm, 't, 'a) nanotorrent_swarm_scheme \<Rightarrow> ('f, 'm, 't, 'a) nanotorrent_swarm_scheme \<Rightarrow> bool" where
  "same_swarm s s' \<longleftrightarrow> swarm_state s' = swarm_state s \<and> swarm_peers s' = swarm_peers s \<and>
     swarm_peer_info s' = swarm_peer_info s \<and> peer_memb s' = peer_memb s \<and> announce_retry s' = announce_retry s \<and>
     announce_retry_event s' = announce_retry_event s \<and> refresh s' = refresh s \<and> ready_poll s' = ready_poll s \<and>
     swarm_pc s' = swarm_pc s \<and> info_hash s' = info_hash s"

inductive swarm_step :: "('f, 'm, 't) contiki \<Rightarrow> ('f, 'm, 't, 'a) nanotorrent_swarm_scheme \<Rightarrow>
    ('f, 'm, 't, 'a) nanotorrent_swarm_scheme \<Rightarrow> bool" for K where
  event: "nanotorrent_swarm_process K ev s = Some s' \<Longrightarrow> swarm_step K s s'"
| reply: "reply_ok mem \<Longrightarrow> nanotorrent_swarm_handle_reply K mem s = Some s' \<Longrightarrow> swarm_step K s s'"
| pop: "swarm_step K s (nanotorrent_swarm_pop_peer K s)"
| others: "same_swarm s s' \<Longrightarrow> swarm_step K s s'"

inductive_cases swarm_stepE: "swarm_step K s s'"

definition swarm_started :: "('f, 'm, 't) contiki \<Rightarrow> ('f, 'm, 't, 'a) nanotorrent_swarm_scheme \<Rightarrow>
    ('f, 'm, 't, 'a) nanotorrent_swarm_scheme \<Rightarrow> bool" where
  "swarm_started K s0 s \<longleftrightarrow> swarm_fresh K s0 \<and> nanotorrent_swarm_process K PROCESS_EVENT_INIT s0 = Some s"

lemma same_swarm_more: "peer_state.more s' = peer_state.more s \<Longrightarrow> info_hash s' = info_hash s \<Longrightarrow> same_swarm s s'"
  by (cases s; cases s') (simp add: same_swarm_def)

lemma same_swarm_inv: "same_swarm s s' \<Longrightarrow> swarm_inv K s' = swarm_inv K s"
  by (simp add: swarm_inv_defs same_swarm_def)

lemma swarm_step_inv:
  assumes "kernel_ok K" "swarm_step K s s'" "swarm_inv K s"
  shows "swarm_inv K s'"
proof -
  have m: "memb_ok K" and c: "swarm_core K s"
    using assms(1,3) by (simp_all add: kernel_ok_def swarm_inv_def)
  show ?thesis
    using assms(2)
  proof cases
    case (event ev)
    then show ?thesis
      using swarm_process_outcome [OF m assms(3), of ev] by auto
  next
    case (reply mem)
    from handle_reply_outcome [OF assms(1) c reply(1)] reply(2) have
      "swarm_core K s'" "swarm_pc s' = swarm_pc s" "s' = s \<or>
       swarm_state s' = (if swarm_state s = NANOTORRENT_SWARM_JOINING then NANOTORRENT_SWARM_JOINED else swarm_state s)"
      by (auto split: if_splits)
    then show ?thesis
      using assms(3) by (cases "swarm_pc s") (auto simp: swarm_inv_def split: if_splits)
  next
    case pop
    then show ?thesis
      using pop_peer_outcome [OF assms(1) c] assms(3) by (simp add: swarm_inv_def)
  next
    case others
    then show ?thesis
      using same_swarm_inv assms(3) by blast
  qed
qed

interpretation swarm: component "swarm_started K s0" "swarm_step K" "\<lambda>s. kernel_ok K \<longrightarrow> swarm_inv K s" for K s0
proof unfold_locales
  fix s :: "('a, 'b, 'c, 'd) nanotorrent_swarm_scheme"
  assume "swarm_started K s0 s"
  then show "kernel_ok K \<longrightarrow> swarm_inv K s"
    using swarm_process_start [of K s0 PROCESS_EVENT_INIT] by (auto simp: swarm_started_def kernel_ok_def)
qed (use swarm_step_inv in blast)

lemma swarm_reach_inv: "kernel_ok K \<Longrightarrow> reach (swarm_started K s0) (swarm_step K) s \<Longrightarrow> swarm_inv K s"
  using swarm.reach_inv [of K s0 s] by blast

end
