(* ===== verification/Peer_Frame.thy ===== *)
theory Peer_Frame
  imports Exchange
begin

text \<open>
  The functions of the peer component leave the rest of the program's state alone: the fields added to
  \<open>peer_state\<close> by the swarm and main components. One lemma per function, for functions with a failing result in
  the form of a destruction rule.
\<close>

section \<open>Functions that return a state\<close>

lemma more_total [simp]:
  "peer_state.more (emit out s) = peer_state.more (s :: ('f, 'm, 't, 'a) peer_state_scheme)"
  "peer_state.more (set_conn c g s) = peer_state.more s"
  "peer_state.more (nanotorrent_peer_init K s) = peer_state.more s"
  "peer_state.more (nanotorrent_peer_shutdown K s) = peer_state.more s"
  "peer_state.more (nanotorrent_peer_free K c s) = peer_state.more s"
  "peer_state.more (nanotorrent_peer_add K c s) = peer_state.more s"
  "peer_state.more (nanotorrent_peer_request_init K c s) = peer_state.more s"
  "peer_state.more (nanotorrent_peer_request_stop_partial K c s) = peer_state.more s"
  "peer_state.more (nanotorrent_peer_post_event s) = peer_state.more s"
  "peer_state.more (nanotorrent_peer_send_message b n p s) = peer_state.more s"
  "peer_state.more (nanotorrent_peer_send_local_multicast K b n s) = peer_state.more s"
  "peer_state.more (nanotorrent_peer_post_seeding K s) = peer_state.more s"
  "peer_state.more (nanotorrent_piece_set_complete w i ok s) = peer_state.more s"
  by (simp_all add: emit_def set_conn_def nanotorrent_peer_init_def nanotorrent_peer_shutdown_def nanotorrent_peer_free_def
      nanotorrent_peer_add_def nanotorrent_peer_request_init_def nanotorrent_peer_request_stop_partial_def
      nanotorrent_peer_post_event_def nanotorrent_peer_send_message_def nanotorrent_peer_send_local_multicast_def
      nanotorrent_peer_post_seeding_def nanotorrent_piece_set_complete_def Let_def)

lemma more_stop [simp]:
  "peer_state.more (nanotorrent_peer_request_stop K c s) = peer_state.more s"
  "peer_state.more (nanotorrent_peer_request_stop_all K i s) = peer_state.more s"
proof -
  show "peer_state.more (nanotorrent_peer_request_stop K c s) = peer_state.more s"
    by (simp add: nanotorrent_peer_request_stop_def Let_def)
  have "peer_state.more (fold (\<lambda>c s. if has_request (conns s c) \<and> request_index (conns s c) = i
      then nanotorrent_peer_request_stop_partial K c s else s) cs s) = peer_state.more s" for cs
    by (induction cs arbitrary: s) simp_all
  then show "peer_state.more (nanotorrent_peer_request_stop_all K i s) = peer_state.more s"
    by (simp add: nanotorrent_peer_request_stop_all_def Let_def)
qed

section \<open>Functions that may fail\<close>

named_theorems more_frame

lemma more_send [more_frame]:
  "nanotorrent_peer_send_close p s = Some s' \<Longrightarrow> peer_state.more s' = peer_state.more s"
  "nanotorrent_peer_send_have p s = Some s' \<Longrightarrow> peer_state.more s' = peer_state.more s"
  "nanotorrent_peer_send_have_local_multicast K s = Some s' \<Longrightarrow> peer_state.more s' = peer_state.more s"
  "nanotorrent_peer_send_data_request p i st s = Some s' \<Longrightarrow> peer_state.more s' = peer_state.more s"
  by (auto simp: nanotorrent_peer_send_close_def nanotorrent_peer_send_have_def nanotorrent_peer_send_have_local_multicast_def
      nanotorrent_peer_send_data_request_def split: bind_splits)

lemma more_retry_again [more_frame]: "request_retry_again c s = Some s' \<Longrightarrow> peer_state.more s' = peer_state.more s"
  by (auto simp: request_retry_again_def Let_def split: if_splits dest!: more_frame)

lemma more_request_start [more_frame]:
  "nanotorrent_peer_request_start K c s = Some s' \<Longrightarrow> peer_state.more s' = peer_state.more s"
  by (auto simp: nanotorrent_peer_request_start_def Let_def split: prod.splits option.splits nanotorrent_retry_callback.splits
      dest!: more_frame)

lemma more_request_next [more_frame]:
  "nanotorrent_peer_request_next K c s = Some (b, s') \<Longrightarrow> peer_state.more s' = peer_state.more s"
  by (auto simp: nanotorrent_peer_request_next_def Let_def split: if_splits bind_splits option.splits dest!: more_frame)

lemma more_retry_stop [more_frame]: "request_retry_stop K c s = Some s' \<Longrightarrow> peer_state.more s' = peer_state.more s"
  by (auto simp: request_retry_stop_def split: if_splits dest!: more_frame)

lemma more_request_retry [more_frame]:
  "process_request_retry K c s = Some s' \<Longrightarrow> peer_state.more s' = peer_state.more s"
  by (auto simp: process_request_retry_def Let_def split: prod.splits option.splits nanotorrent_retry_callback.splits
      dest!: more_frame)

lemma more_select [more_frame]: "nanotorrent_select_update_have a b s = Some s' \<Longrightarrow> peer_state.more s' = peer_state.more s"
  by (auto simp: nanotorrent_select_update_have_def split: if_splits)

lemma more_remove [more_frame]: "nanotorrent_peer_remove K c s = Some s' \<Longrightarrow> peer_state.more s' = peer_state.more s"
  by (auto simp: nanotorrent_peer_remove_def Let_def split: bind_splits dest!: more_frame)

lemma more_connect_with [simp]: "peer_state.more (snd (nanotorrent_peer_connect_with K p q s)) = peer_state.more s"
  by (auto simp: nanotorrent_peer_connect_with_def alloc_conn_def Let_def split: option.splits prod.splits pool.splits)

lemma more_connect [more_frame]:
  "nanotorrent_peer_connect K p s = (r, s') \<Longrightarrow> peer_state.more s' = peer_state.more s"
  "nanotorrent_peer_accept K p s = (r, s') \<Longrightarrow> peer_state.more s' = peer_state.more s"
  using more_connect_with [of K p PeersOut s] more_connect_with [of K p PeersIn s]
  by (simp_all add: nanotorrent_peer_connect_def nanotorrent_peer_accept_def)

lemma more_force_disconnect_conn [more_frame]:
  "nanotorrent_peer_force_disconnect_conn K c s = Some s' \<Longrightarrow> peer_state.more s' = peer_state.more s"
  by (auto simp: nanotorrent_peer_force_disconnect_conn_def Let_def split: bind_splits dest!: more_frame)

lemma more_disconnect_conn [more_frame]:
  "nanotorrent_peer_disconnect_conn K c s = Some s' \<Longrightarrow> peer_state.more s' = peer_state.more s"
  by (auto simp: nanotorrent_peer_disconnect_conn_def split: bind_splits dest!: more_frame)

lemma more_disconnect [more_frame]:
  "nanotorrent_peer_force_disconnect K p s = Some (b, s') \<Longrightarrow> peer_state.more s' = peer_state.more s"
  "nanotorrent_peer_disconnect K p s = Some (b, s') \<Longrightarrow> peer_state.more s' = peer_state.more s"
  by (auto simp: nanotorrent_peer_force_disconnect_def nanotorrent_peer_disconnect_def split: option.splits dest!: more_frame)

lemma more_update_have [more_frame]: "nanotorrent_peer_update_have K c h s = Some s' \<Longrightarrow> peer_state.more s' = peer_state.more s"
  by (auto simp: nanotorrent_peer_update_have_def Let_def split: bind_splits dest!: more_frame)

section \<open>Pieces\<close>

lemma more_piece [more_frame]:
  "nanotorrent_piece_read K i off n s = (r, bs, s') \<Longrightarrow> peer_state.more s' = peer_state.more (s :: ('f, 'm, 't, 'a) peer_state_scheme)"
  "nanotorrent_piece_write K i off buf n s = Some (r, s') \<Longrightarrow> peer_state.more s' = peer_state.more s"
  "nanotorrent_piece_verify K ctx i s = Some (b, ctx', s') \<Longrightarrow> peer_state.more s' = peer_state.more s"
  by (auto simp: nanotorrent_piece_read_def nanotorrent_piece_write_def nanotorrent_piece_verify_def Let_def
      split: if_splits prod.splits bind_splits)

section \<open>Messages and the process\<close>

lemma more_data_receiver [more_frame]:
  "nanotorrent_peer_data_receiver K p i off n s = Some (r, s') \<Longrightarrow> peer_state.more s' = peer_state.more s"
  by (auto simp: nanotorrent_peer_data_receiver_def Let_def split: if_splits option.splits prod.splits dest!: more_frame)

lemma more_receive_data [more_frame]:
  "nanotorrent_peer_receive_data K ctx c i off n s = Some s' \<Longrightarrow> peer_state.more s' = peer_state.more s"
  by (auto simp: nanotorrent_peer_receive_data_def Let_def split: if_splits bind_splits prod.splits dest!: more_frame)

lemma more_write_data_reply [more_frame]:
  "nanotorrent_peer_write_data_reply K b n i st s = Some (r, s') \<Longrightarrow> peer_state.more s' = peer_state.more s"
  by (auto simp: nanotorrent_peer_write_data_reply_def Let_def split: if_splits bind_splits prod.splits dest!: more_frame)

lemma more_handle_data [more_frame]:
  "nanotorrent_peer_handle_data_request K mem n p s = Some s' \<Longrightarrow> peer_state.more s' = peer_state.more s"
  "nanotorrent_peer_handle_data_reply K ctx mem n p s = Some s' \<Longrightarrow> peer_state.more s' = peer_state.more s"
  by (auto simp: nanotorrent_peer_handle_data_request_def nanotorrent_peer_handle_data_reply_def Let_def
      split: if_splits bind_splits prod.splits option.splits dest!: more_frame)

lemma more_handle_message [more_frame]:
  "nanotorrent_peer_handle_message K ctx src dest mem n s = Some s' \<Longrightarrow> peer_state.more s' = peer_state.more s"
  by (auto simp: nanotorrent_peer_handle_message_def Let_def split: if_splits bind_splits prod.splits option.splits dest!: more_frame)

lemma more_loop_body [more_frame]: "peer_loop_body K c s = Some s' \<Longrightarrow> peer_state.more s' = peer_state.more s"
  by (auto simp: peer_loop_body_def split: if_splits bind_splits dest!: more_frame)

lemma more_loop [more_frame]: "peer_loop K cs s = Some s' \<Longrightarrow> peer_state.more s' = peer_state.more s"
  by (induction cs arbitrary: s) (auto split: bind_splits dest!: more_loop_body)

lemma more_round [more_frame]: "peer_process_round K s = Some s' \<Longrightarrow> peer_state.more s' = peer_state.more s"
  by (auto simp: peer_process_round_def Let_def split: if_splits bind_splits dest!: more_frame)

lemma more_process [more_frame]: "nanotorrent_peer_process K ev s = Some s' \<Longrightarrow> peer_state.more s' = peer_state.more s"
  by (auto simp: nanotorrent_peer_process_def Let_def split: event.splits dest!: more_frame)

theorem peer_step_more: "peer_step K s s' \<Longrightarrow> peer_state.more s' = peer_state.more s"
  by (auto elim!: peer_stepE dest!: more_frame)

end
