(* ===== verification/Node.thy ===== *)
theory Node
  imports Nanotorrent Swarm_Inv Peer_Frame
begin

text \<open>
  The whole program: the main process, the peer component and the swarm component share one state, and their
  handlers run one after the other in any order. Each component keeps its own invariant and the invariants of the
  others; the main process is the only one that uses two components at once.
\<close>

section \<open>The invariant of the program\<close>

definition node_inv :: "('f, 'm, 't) contiki \<Rightarrow> ('f, 'm, 't, 'a) nanotorrent_scheme \<Rightarrow> bool" where
  "node_inv K s \<longleftrightarrow> peer_inv K s \<and> armed s \<and> swarm_inv K s"

lemma node_invD: "node_inv K s \<Longrightarrow> peer_inv K s" "node_inv K s \<Longrightarrow> armed s" "node_inv K s \<Longrightarrow> swarm_inv K s"
  by (simp_all add: node_inv_def)

lemma node_inv_seed [simp]:
  "node_inv K (s\<lparr>seed_timer := t\<rparr>) = node_inv K s" "node_inv K (s\<lparr>seed_timer_set := b\<rparr>) = node_inv K s"
  "node_inv K (s\<lparr>main_pc := p\<rparr>) = node_inv K s"
proof -
  have keep: "node_inv K s' = node_inv K s" if "same_net s s'" "same_store s s'" "same_requests s s'" "conns s' = conns s" "same_swarm s s'"
    for s' :: "('a, 'b, 'c, 'd) nanotorrent_scheme"
    using same_inv [OF that(1-3), of K] same_conns_armed [OF that(4) same_net_peers [OF that(1)]] same_swarm_inv [OF that(5)]
    by (simp add: node_inv_def)
  show "node_inv K (s\<lparr>seed_timer := t\<rparr>) = node_inv K s" "node_inv K (s\<lparr>seed_timer_set := b\<rparr>) = node_inv K s"
    "node_inv K (s\<lparr>main_pc := p\<rparr>) = node_inv K s"
    by (rule keep; simp add: same_net_def same_store_def same_requests_def same_swarm_def)+
qed

section \<open>Connecting with the swarm\<close>

text \<open>The addresses the peer component has a connection with.\<close>

definition connected_to :: "('f, 'm, 't, 'a) peer_state_scheme \<Rightarrow> nanotorrent_peer_info set" where
  "connected_to s = (\<lambda>c. conn_peer_info (conns s c)) ` set (peers s)"

definition known :: "('f, 'm, 't, 'a) nanotorrent_swarm_scheme \<Rightarrow> nanotorrent_peer_info list" where
  "known s = map (swarm_peer_info s) (swarm_peers s)"

lemma peek_known: "nanotorrent_swarm_peek_peer s = (case known s of [] \<Rightarrow> None | p # ps \<Rightarrow> Some p)"
  by (simp add: nanotorrent_swarm_peek_peer_def known_def split: list.split)

lemma connect_connected:
  assumes "kernel_ok K" "net_inv K s" "pending_ok s" "nanotorrent_peer_connect K p s = (r, s')"
  shows "case r of
    None \<Rightarrow> s' = s \<and> p \<notin> connected_to s \<and> card (memb_allocated K (peers_out s)) = NANOTORRENT_MAX_OUT_PEERS
  | Some c \<Rightarrow> connected_to s' = insert p (connected_to s)"
proof -
  have k: "memb_ok K" "net_ok K"
    using assms(1) by (simp_all add: kernel_ok_def)
  have o: "case r of
       None \<Rightarrow> s' = s \<and> nanotorrent_peer_find K p s = None
     | Some c \<Rightarrow> c \<in> set (peers s') \<and> conn_peer_info (conns s' c) = p \<and> only_conn c s s' \<and>
         (if c \<in> set (peers s) then s' = s else peers s' = c # peers s \<and> \<not> has_request (conns s' c))"
    using connect_with_outcome [OF assms(1-3), of p PeersOut] assms(4) by (simp add: nanotorrent_peer_connect_def)
  show ?thesis
  proof (cases r)
    case None
    then have f: "s' = s" "nanotorrent_peer_find K p s = None"
      using o by simp_all
    then have "p \<notin> connected_to s"
      using k(2) by (auto simp: connected_to_def nanotorrent_peer_find_def find_None_iff nanotorrent_peer_info_cmp_def net_ok_def)
    moreover obtain m where "memb_alloc K (peers_out s) = (None, m)"
      using f(2) assms(4) None
      by (auto simp: nanotorrent_peer_connect_def nanotorrent_peer_connect_with_def alloc_conn_def Let_def split: prod.splits option.splits)
    then have "card (memb_allocated K (peers_out s)) = NANOTORRENT_MAX_OUT_PEERS"
      using memb_alloc_None [OF k(1)] assms(2) by (simp add: net_inv_def links_ok_def)
    ultimately show ?thesis
      using f(1) None by simp
  next
    case (Some c)
    with o have c: "c \<in> set (peers s')" "conn_peer_info (conns s' c) = p" "only_conn c s s'"
      "if c \<in> set (peers s) then s' = s else peers s' = c # peers s"
      by (simp_all split: if_splits)
    show ?thesis
    proof (cases "c \<in> set (peers s)")
      case True
      then show ?thesis
        using c Some by (auto simp: connected_to_def)
    next
      case False
      have "conns s' d = conns s d" if "d \<in> set (peers s)" for d
        using that False c(3) by (auto simp: only_conn_def)
      then show ?thesis
        using False c(2,4) Some by (simp add: connected_to_def cong: image_cong)
    qed
  qed
qed

text \<open>
  The loop connects with the first \<open>n\<close> known peers and takes them off the list. It stops before the end of the list only
  when all connections the program may open are in use.
\<close>

lemma connect_now:
  assumes "nanotorrent_peer_connect K p s = (r, s')"
  shows "now s' = now s"
proof -
  have "now (snd (nanotorrent_peer_connect_with K p q s)) = now s" for q
    by (auto simp: nanotorrent_peer_connect_with_def nanotorrent_peer_add_def alloc_conn_def Let_def
        split: option.splits prod.splits pool.splits)
  from this [of PeersOut] show ?thesis
    using assms by (simp add: nanotorrent_peer_connect_def)
qed

lemma connect_swarm_outcome:
  assumes "kernel_ok K" "peer_inv K s" "armed s" "swarm_core K s"
  shows "\<exists>s' n. nanotorrent_connect_swarm K s = Some s' \<and> peer_inv K s' \<and> armed s' \<and> swarm_core K s' \<and> same_store s s' \<and>
    n \<le> length (known s) \<and> known s' = drop n (known s) \<and> connected_to s' = connected_to s \<union> set (take n (known s)) \<and>
    (n < length (known s) \<longrightarrow> card (memb_allocated K (peers_out s')) = NANOTORRENT_MAX_OUT_PEERS \<and> hd (known s') \<notin> connected_to s') \<and>
    swarm_state s' = swarm_state s \<and> swarm_pc s' = swarm_pc s \<and> nanotorrent_swarm.more s' = nanotorrent_swarm.more s \<and>
    now s' = now s"
  using assms(2-)
proof (induction "known s" arbitrary: s)
  case Nil
  from Nil.hyps have k: "known s = []" by simp
  then have "nanotorrent_connect_swarm K s = Some s"
    by (subst nanotorrent_connect_swarm.simps) (simp add: peek_known)
  then show ?case
    using Nil.prems k by (intro exI [of _ s] exI [of _ 0]) simp
next
  case (Cons p ps)
  from Cons.hyps(2) have k: "known s = p # ps" by simp
  have n: "net_inv K s" "pending_ok s"
    using Cons.prems(1) by (simp_all add: peer_inv_def)
  from connect_with_inv [OF assms(1) Cons.prems(1), of p PeersOut] obtain r s1 where
    c: "nanotorrent_peer_connect K p s = (r, s1)" "peer_inv K s1" "same_store s s1" "armed s1" "r = None \<longrightarrow> s1 = s"
    using Cons.prems(2) unfolding nanotorrent_peer_connect_def by blast
  note con = connect_connected [OF assms(1) n c(1)]
  show ?case
  proof (cases r)
    case None
    then have "nanotorrent_connect_swarm K s = Some s"
      using c by (subst nanotorrent_connect_swarm.simps) (simp add: peek_known k)
    then show ?thesis
      using Cons.prems con None k by (intro exI [of _ s] exI [of _ 0]) simp
  next
    case (Some d)
    have m: "peer_state.more s1 = peer_state.more s"
      using more_connect(1) [OF c(1)] .
    have "torrent_fits K s1"
      using c(2) by (simp add: peer_inv_def net_inv_def)
    then have ih: "length (info_hash s1) = 20"
      by (simp add: torrent_fits_def)
    have f: "known s1 = known s" "swarm_state s1 = swarm_state s" "swarm_pc s1 = swarm_pc s"
      "nanotorrent_swarm.more s1 = nanotorrent_swarm.more s" "swarm_core K s1"
      using m ih Cons.prems(3)
      by (cases s, cases s1, simp add: known_def swarm_core_def known_ok_def announcing_def calls_announce_def)+
    let ?t = "nanotorrent_swarm_pop_peer K s1"
    note pop = pop_peer_outcome [OF assms(1) f(5)]
    have "known ?t = tl (known s1)"
      using pop(2,3) by (simp add: known_def map_tl)
    then have t: "known ?t = ps" "peer_inv K ?t" "armed ?t" "swarm_core K ?t"
      using f(1) k pop(1) same_peer_inv [OF pop(4), of K] c(2,4) by simp_all
    have tc: "connected_to ?t = insert p (connected_to s)" "same_store s ?t" "nanotorrent_swarm.more ?t = nanotorrent_swarm.more s"
      "now ?t = now s"
      using con Some pop(4) c(3) f(4) connect_now [OF c(1)] same_store_trans by (auto simp: same_peer_def same_net_def connected_to_def)
    from Cons.hyps(1) [OF t(1) [symmetric] t(2-4)] obtain s' n where
      i: "nanotorrent_connect_swarm K ?t = Some s'" "peer_inv K s'" "armed s'" "swarm_core K s'" "same_store ?t s'"
        "n \<le> length (known ?t)" "known s' = drop n (known ?t)" "connected_to s' = connected_to ?t \<union> set (take n (known ?t))"
        "n < length (known ?t) \<longrightarrow> card (memb_allocated K (peers_out s')) = NANOTORRENT_MAX_OUT_PEERS \<and> hd (known s') \<notin> connected_to s'"
        "swarm_state s' = swarm_state ?t" "swarm_pc s' = swarm_pc ?t" "nanotorrent_swarm.more s' = nanotorrent_swarm.more ?t"
        "now s' = now ?t"
      by blast
    have "nanotorrent_connect_swarm K s = Some s'"
      using c(1) Some i(1) by (subst nanotorrent_connect_swarm.simps) (simp add: peek_known k)
    then show ?thesis
      using i(2-4) same_store_trans [OF tc(2) i(5)] i(6-13) t(1) tc f(2,3) pop(5,6) k
      by (intro exI [of _ s'] exI [of _ "Suc n"]) auto
  qed
qed

section \<open>The main process\<close>

lemma swarm_inv_core: "swarm_inv K s \<longleftrightarrow> swarm_core K s \<and> phase_ok (swarm_pc s) (swarm_state s)"
  by (simp add: swarm_inv_def)

lemma connect_swarm_inv:
  assumes "kernel_ok K" "node_inv K s"
  shows "\<exists>s'. nanotorrent_connect_swarm K s = Some s' \<and> node_inv K s' \<and> same_store s s' \<and> main_pc s' = main_pc s \<and>
    seed_timer s' = seed_timer s \<and> seed_timer_set s' = seed_timer_set s \<and> swarm_state s' = swarm_state s \<and>
    now s' = now s"
proof -
  have i: "peer_inv K s" "armed s" "swarm_core K s" "phase_ok (swarm_pc s) (swarm_state s)"
    using assms(2) by (simp_all add: node_inv_def swarm_inv_def)
  from connect_swarm_outcome [OF assms(1) i(1-3)] obtain s' where
    s': "nanotorrent_connect_swarm K s = Some s'" "peer_inv K s'" "armed s'" "swarm_core K s'" "same_store s s'"
      "swarm_state s' = swarm_state s" "swarm_pc s' = swarm_pc s" "nanotorrent_swarm.more s' = nanotorrent_swarm.more s"
      "now s' = now s"
    by blast
  have "main_pc s' = main_pc s" "seed_timer s' = seed_timer s" "seed_timer_set s' = seed_timer_set s"
    using s'(8) by (cases s, cases s', simp)+
  then show ?thesis
    using s' i(4) by (auto simp: node_inv_def swarm_inv_def)
qed

lemma keep_going_outcome:
  "case nanotorrent_keep_going K s of (go, s') \<Rightarrow>
    (node_inv K s' \<longleftrightarrow> node_inv K s) \<and> same_store s s' \<and> swarm_state s' = swarm_state s \<and> main_pc s' = main_pc s \<and>
    now s' = now s \<and> (\<not> go \<longleftrightarrow> nanotorrent_piece_is_seed (int_bits K) s \<and> etimer_expired K (now s) (seed_timer s'))"
  by (simp add: nanotorrent_keep_going_def same_store_def Let_def)

lemma handle_swarm_event_outcome:
  assumes "kernel_ok K" "node_inv K s"
  shows "\<exists>ok s'. nanotorrent_handle_swarm_event K s = Some (ok, s') \<and> node_inv K s' \<and> same_store s s' \<and>
    (ok \<longleftrightarrow> swarm_state s = NANOTORRENT_SWARM_JOINED) \<and> seed_timer s' = seed_timer s"
  using connect_swarm_inv [OF assms] assms(2)
  by (cases "swarm_state s") (auto simp: nanotorrent_handle_swarm_event_def)

lemma same_store_pc [simp]: "same_store t (s\<lparr>main_pc := p\<rparr>) = same_store t s"
  by (simp add: same_store_def)

lemma exchange_loop_outcome:
  assumes "kernel_ok K" "node_inv K s"
  shows "\<exists>s'. exchange_loop K ev s = Some s' \<and> node_inv K s' \<and> same_store s s' \<and>
    main_pc s' = (if nanotorrent_piece_is_seed (int_bits K) s \<and> etimer_expired K (now s) (seed_timer s') \<or>
      ev = swarm_event \<and> swarm_state s \<noteq> NANOTORRENT_SWARM_JOINED then MainEnded else MainWaitEvent)"
proof -
  obtain go t where g: "nanotorrent_keep_going K s = (go, t)"
    by (cases "nanotorrent_keep_going K s")
  have t: "node_inv K t" "same_store s t" "swarm_state t = swarm_state s"
    "\<not> go \<longleftrightarrow> nanotorrent_piece_is_seed (int_bits K) s \<and> etimer_expired K (now s) (seed_timer t)"
    using keep_going_outcome [of K s] g assms(2) by auto
  have h: "\<exists>ok u. (if ev = swarm_event then nanotorrent_handle_swarm_event K t else Some (True, t)) = Some (ok, u) \<and>
      node_inv K u \<and> same_store t u \<and> seed_timer u = seed_timer t \<and> (\<not> ok \<longleftrightarrow> ev = swarm_event \<and> swarm_state s \<noteq> NANOTORRENT_SWARM_JOINED)"
    using handle_swarm_event_outcome [OF assms(1) t(1)] t(1,3) by auto
  then obtain ok u where u: "(if ev = swarm_event then nanotorrent_handle_swarm_event K t else Some (True, t)) = Some (ok, u)"
      "node_inv K u" "same_store t u" "seed_timer u = seed_timer t" "\<not> ok \<longleftrightarrow> ev = swarm_event \<and> swarm_state s \<noteq> NANOTORRENT_SWARM_JOINED"
    by blast
  obtain v where v: "(if ev = peer_event then nanotorrent_connect_swarm K u else Some u) = Some v" "node_inv K v" "same_store u v"
      "seed_timer v = seed_timer t"
    using connect_swarm_inv [OF assms(1) u(2)] u(2,4) by (cases "ev = peer_event") auto
  have st: "same_store s u" "same_store s v"
    using same_store_trans t(2) u(3) v(3) by blast+
  show ?thesis
  proof (cases go)
    case False
    then show ?thesis
      using g t by (simp add: exchange_loop_def)
  next
    case True
    then show ?thesis
      using g t(4) u(1,2,4,5) v st by (cases ok) (simp_all add: exchange_loop_def)
  qed
qed

lemma main_process_outcome:
  assumes "kernel_ok K" "node_inv K s" "main_pc s \<noteq> MainNotStarted" "ev \<noteq> PROCESS_EVENT_EXIT"
  shows "\<exists>s'. nanotorrent_process K ctx ev s = Some s' \<and> node_inv K s' \<and> same_store s s' \<and> main_pc s' \<noteq> MainNotStarted"
proof (cases "main_pc s")
  case MainNotStarted
  then show ?thesis
    using assms(3) by simp
next
  case MainWaitJoining
  then show ?thesis
    using assms by (simp add: nanotorrent_process_def)
next
  case MainWaitJoined
  from connect_swarm_inv [OF assms(1,2)] obtain t where
    t: "nanotorrent_connect_swarm K s = Some t" "node_inv K t" "same_store s t"
    by blast
  from exchange_loop_outcome [OF assms(1) t(2), of ev] obtain s' where
    s': "exchange_loop K ev t = Some s'" "node_inv K s'" "same_store t s'" "main_pc s' \<noteq> MainNotStarted"
    by auto
  have "same_store s s'"
    using same_store_trans t(3) s'(3) by blast
  then show ?thesis
    using MainWaitJoined assms t(1) s' by (auto simp: nanotorrent_process_def)
next
  case MainWaitEvent
  from exchange_loop_outcome [OF assms(1,2), of ev] obtain s' where
    s': "exchange_loop K ev s = Some s'" "node_inv K s'" "same_store s s'" "main_pc s' \<noteq> MainNotStarted"
    by auto
  then show ?thesis
    using MainWaitEvent assms by (simp add: nanotorrent_process_def)
next
  case MainEnded
  then show ?thesis
    using assms by (simp add: nanotorrent_process_def)
qed

section \<open>Starting the program\<close>

text \<open>The state after power-on: static variables are zero and the pools are disjoint regions of their declared sizes.\<close>

definition powered :: "('f, 'm, 't) contiki \<Rightarrow> ('f, 'm, 't, 'a) nanotorrent_scheme \<Rightarrow> bool" where
  "powered K s \<longleftrightarrow> pending_pieces s = 0 \<and> length (piece_counts s) = NANOTORRENT_MAX_PIECES \<and>
     (\<forall>c. \<not> (memb_inmemb K (peers_in s) c \<and> memb_inmemb K (peers_out s) c)) \<and>
     memb_capacity K (peers_in s) = NANOTORRENT_MAX_IN_PEERS \<and> memb_capacity K (peers_out s) = NANOTORRENT_MAX_OUT_PEERS \<and>
     memb_capacity K (peer_memb s) = NANOTORRENT_MAX_SWARM_PEERS \<and> swarm_pc s = SwarmNotStarted \<and> main_pc s = MainNotStarted"

text \<open>
  A torrent and a file the program can be started with: the number of pieces is at most the width of \<^verbatim>\<open>int\<close> less two.
\<close>

definition startable :: "('f, 'm, 't) contiki \<Rightarrow> nanotorrent_torrent_desc \<Rightarrow> string \<Rightarrow> ('f, 'a) piece_state_scheme \<Rightarrow> bool" where
  "startable K d name s \<longleftrightarrow> torrent_wf (desc_info d) \<and> 0 < unat (file_size (desc_info d)) \<and> pieces_fit (int_bits K) (desc_info d) \<and>
     0 \<le> fst (cfs_open K (take 15 name) (files s))"

text \<open>
  The operating system calls a process with \<^verbatim>\<open>PROCESS_EVENT_INIT\<close> when it is started: the main process by
  \<^verbatim>\<open>nanotorrent_start\<close>, the two others by \<^verbatim>\<open>nanotorrent_init\<close>.
\<close>

definition node_started :: "('f, 'm, 't) contiki \<Rightarrow> sha1_context \<Rightarrow> nanotorrent_torrent_desc \<Rightarrow> string \<Rightarrow>
    ('f, 'm, 't, 'a) nanotorrent_scheme \<Rightarrow> ('f, 'm, 't, 'a) nanotorrent_scheme \<Rightarrow> bool" where
  "node_started K ctx d name s0 s \<longleftrightarrow> powered K s0 \<and> startable K d name s0 \<and> length (next_block ctx) = 64 \<and>
     (\<exists>data s1 s2 s3. 645 \<le> length data \<and> nanotorrent_start ctx data d name s0 = Some s1 \<and>
        nanotorrent_process K ctx PROCESS_EVENT_INIT s1 = Some s2 \<and>
        nanotorrent_peer_process K PROCESS_EVENT_INIT s2 = Some s3 \<and>
        nanotorrent_swarm_process K PROCESS_EVENT_INIT s3 = Some s)"

text \<open>The pieces marked complete are exactly those whose bytes have the right hash.\<close>

definition have_exact :: "('f, 'm, 't) contiki \<Rightarrow> ('f, 'a) piece_state_scheme \<Rightarrow> bool" where
  "have_exact K s \<longleftrightarrow>
     bits (own_have s) = {j. j < unat (num_pieces (the_info s)) \<and> piece_matches (the_info s) j (own_content K s)}"

lemma same_store_exact: "same_store s s' \<Longrightarrow> have_exact K s' = have_exact K s"
  by (simp add: same_store_def have_exact_def own_content_def)

lemma start_outcome:
  assumes "info_ok (desc_info d)" "645 \<le> length data" "length (next_block ctx) = 64"
  shows "\<exists>h. length h = 20 \<and> nanotorrent_start ctx data d name s =
    Some (emit (ProcessStart MainProcess) (s\<lparr>desc := d, file_name := take 15 name, seed_timer_set := False, info_hash := h\<rparr>))"
  using info_hash_spec [OF assms(1,2,3)]
  by (intro exI [of _ "sha1_spec (enc_info (desc_info d))"]) (simp add: nanotorrent_start_def NANOTORRENT_FILE_NAME_LENGTH_def)

definition loaded :: "('f, 'm, 't) contiki \<Rightarrow> ('f, 'a) piece_state_scheme \<Rightarrow> ('f, 'b) piece_state_scheme \<Rightarrow> bool" where
  "loaded K s0 s \<longleftrightarrow> have_ok K s \<and> (cfs_reliable K \<longrightarrow> have_exact K s) \<and>
     own_content K s = (case cfs_open K (file_name s0) (files s0) of (fd, f) \<Rightarrow> cfs_content K f fd)"

lemma same_store_loaded: "same_store s s' \<Longrightarrow> loaded K s0 s' = loaded K s0 s"
  using same_store_have [of s s' K] same_store_exact [of s s' K] by (simp add: loaded_def same_store_def own_content_def)

lemma init_outcome:
  assumes "cfs_ok K" "length (next_block ctx) = 64" "torrent_fits K s" "0 \<le> fst (cfs_open K (file_name s) (files s))"
  shows "\<exists>h f fd. nanotorrent_init K ctx s = Some (emit (ProcessStart SwarmProcess) (emit (ProcessStart PeerProcess)
      (s\<lparr>files := f, own_file := fd, own_have := h, piece_counts := replicate (length (piece_counts s)) 0\<rparr>))) \<and>
    loaded K s (s\<lparr>files := f, own_file := fd, own_have := h, piece_counts := replicate (length (piece_counts s)) 0\<rparr>)"
proof -
  obtain fd f0 where o: "cfs_open K (file_name s) (files s) = (fd, f0)"
    by (cases "cfs_open K (file_name s) (files s)")
  let ?s = "s\<lparr>files := f0, own_file := fd\<rparr>"
  have "torrent_wf (the_info ?s)" "pieces_fit (int_bits K) (the_info ?s)"
    using assms(3) by (simp_all add: torrent_fits_def)
  from verify_all_outcome [OF assms(1) this assms(2)] obtain h f where
    v: "nanotorrent_piece_verify_all K ctx ?s = Some (h, ?s\<lparr>files := f\<rparr>)" "cfs_content K f = cfs_content K f0"
      "bits h \<subseteq> {j. j < unat (num_pieces (the_info s)) \<and> piece_matches (the_info s) j (cfs_content K f0 fd)}"
      "cfs_reliable K \<longrightarrow> {j. j < unat (num_pieces (the_info s)) \<and> piece_matches (the_info s) j (cfs_content K f0 fd)} \<subseteq> bits h"
    by (auto simp: own_content_def)
  let ?u = "s\<lparr>files := f, own_file := fd, own_have := h, piece_counts := replicate (length (piece_counts s)) 0\<rparr>"
  have "have_ok K ?u"
    using v(2,3) matches_verified by (auto simp: have_ok_def own_content_def)
  moreover have "cfs_reliable K \<longrightarrow> have_exact K ?u"
    using v(2-4) by (simp add: have_exact_def own_content_def subset_antisym)
  ultimately have "loaded K s ?u"
    using o v(2) by (simp add: loaded_def own_content_def)
  moreover have "nanotorrent_piece_init K ctx s = Some (s\<lparr>files := f, own_file := fd, own_have := h\<rparr>)"
    using o v(1) assms(4) by (simp add: nanotorrent_piece_init_def)
  then have "nanotorrent_init K ctx s = Some (emit (ProcessStart SwarmProcess) (emit (ProcessStart PeerProcess) ?u))"
    by (simp add: nanotorrent_init_def nanotorrent_select_init_def nanotorrent_peer_start_def nanotorrent_swarm_start_def)
  ultimately show ?thesis by blast
qed

text \<open>Starting succeeds and establishes the invariant, with the file's verified pieces.\<close>

lemma node_start_outcome:
  assumes "kernel_ok K" "powered K s0" "startable K d name s0" "length (next_block ctx) = 64" "645 \<le> length data"
  shows "\<exists>s1 s2 s3 s. nanotorrent_start ctx data d name s0 = Some s1 \<and> nanotorrent_process K ctx PROCESS_EVENT_INIT s1 = Some s2 \<and>
    nanotorrent_peer_process K PROCESS_EVENT_INIT s2 = Some s3 \<and> nanotorrent_swarm_process K PROCESS_EVENT_INIT s3 = Some s \<and>
    node_inv K s \<and> main_pc s = MainWaitJoining \<and> desc s = d \<and> (cfs_reliable K \<longrightarrow> have_exact K s) \<and> swarm_fresh K s3 \<and>
    own_content K s = (case cfs_open K (take 15 name) (files s0) of (fd, f) \<Rightarrow> cfs_content K f fd)"
proof -
  have k: "cfs_ok K" "memb_ok K"
    using assms(1) by (simp_all add: kernel_ok_def)
  have w: "torrent_wf (desc_info d)" "0 < unat (file_size (desc_info d))" "pieces_fit (int_bits K) (desc_info d)"
    "0 \<le> fst (cfs_open K (take 15 name) (files s0))" and ok: "info_ok (desc_info d)"
    using assms(3) by (simp_all add: startable_def torrent_wf_def)
  obtain h where h: "length h = 20" "nanotorrent_start ctx data d name s0 =
      Some (emit (ProcessStart MainProcess) (s0\<lparr>desc := d, file_name := take 15 name, seed_timer_set := False, info_hash := h\<rparr>))"
    using start_outcome [OF ok assms(5,4)] by blast
  define s1 where "s1 = emit (ProcessStart MainProcess) (s0\<lparr>desc := d, file_name := take 15 name, seed_timer_set := False, info_hash := h\<rparr>)"
  have s1: "desc s1 = d" "file_name s1 = take 15 name" "info_hash s1 = h" "files s1 = files s0" "main_pc s1 = MainNotStarted"
    "peers_in s1 = peers_in s0" "peers_out s1 = peers_out s0" "pending_pieces s1 = 0" "length (piece_counts s1) = 32"
    "swarm_pc s1 = SwarmNotStarted" "peer_memb s1 = peer_memb s0"
    using assms(2) by (simp_all add: s1_def emit_def powered_def NANOTORRENT_MAX_PIECES_def)
  have fits: "torrent_fits K s1"
    using w(1-3) h(1) s1 by (simp add: torrent_fits_def)
  have "0 \<le> fst (cfs_open K (file_name s1) (files s1))"
    using w(4) s1 by simp
  from init_outcome [OF k(1) assms(4) fits this] obtain hv f fd where
    i: "nanotorrent_init K ctx s1 = Some (emit (ProcessStart SwarmProcess) (emit (ProcessStart PeerProcess)
      (s1\<lparr>files := f, own_file := fd, own_have := hv, piece_counts := replicate (length (piece_counts s1)) 0\<rparr>)))"
    "loaded K s1 (s1\<lparr>files := f, own_file := fd, own_have := hv, piece_counts := replicate (length (piece_counts s1)) 0\<rparr>)"
    by blast
  define u where "u = s1\<lparr>files := f, own_file := fd, own_have := hv, piece_counts := replicate (length (piece_counts s1)) 0\<rparr>"
  define s2 where "s2 = (emit (ProcessStart SwarmProcess) (emit (ProcessStart PeerProcess) u))\<lparr>main_pc := MainWaitJoining\<rparr>"
  have p1: "nanotorrent_process K ctx PROCESS_EVENT_INIT s1 = Some s2"
    using i(1) s1(5) by (simp add: nanotorrent_process_def s2_def u_def)
  have u: "loaded K s1 u" "desc u = d" "info_hash u = h" "pending_pieces u = 0" "peers_in u = peers_in s0" "peers_out u = peers_out s0"
    "piece_counts u = replicate 32 0" "swarm_pc u = SwarmNotStarted" "peer_memb u = peer_memb s0"
    using i(2) s1 by (simp_all add: u_def)
  have s2f: "same_store u s2" "desc s2 = d" "info_hash s2 = h" "pending_pieces s2 = 0" "peers_in s2 = peers_in s0"
    "peers_out s2 = peers_out s0" "piece_counts s2 = replicate 32 0" "swarm_pc s2 = SwarmNotStarted" "peer_memb s2 = peer_memb s0"
    "main_pc s2 = MainWaitJoining"
    using u by (simp_all add: s2_def same_store_def)
  have "unat (num_pieces (desc_info d)) \<le> 32"
    using ok by (simp add: info_ok_def NANOTORRENT_MAX_PIECES_def)
  then have "fresh K s2"
    using s2f w(1-3) h(1) assms(2) same_store_loaded [OF s2f(1), of K s1] u(1)
    by (simp add: loaded_def fresh_def torrent_fits_def counts_ok_def powered_def)
  from peer_process_outcome [OF assms(1), of PROCESS_EVENT_INIT s2] this obtain s3 where
    s3: "nanotorrent_peer_process K PROCESS_EVENT_INIT s2 = Some s3" "peer_inv K s3" "armed s3" "same_store s2 s3"
    by auto
  have more: "peer_state.more s3 = peer_state.more s2"
    using more_process [OF s3(1)] .
  have s3f: "swarm_pc s3 = SwarmNotStarted" "peer_memb s3 = peer_memb s0" "main_pc s3 = MainWaitJoining" "desc s3 = d"
    using more s2f(2,8-10) s3(4) by (cases s2, cases s3, simp add: same_store_def)+
  have "torrent_fits K s3"
    using s3(2) by (simp add: peer_inv_def net_inv_def)
  then have sf: "swarm_fresh K s3"
    using s3f assms(2) by (simp add: swarm_fresh_def powered_def torrent_fits_def)
  from swarm_process_start [OF k(2) sf, of PROCESS_EVENT_INIT] obtain s where
    s: "nanotorrent_swarm_process K PROCESS_EVENT_INIT s3 = Some s" "swarm_inv K s" "same_peer s3 s"
    by auto
  have "node_inv K s"
    using same_peer_inv [OF s(3), of K] s3(2,3) s(2) by (simp add: node_inv_def)
  moreover have "main_pc s = main_pc s3"
    using s(3) by (cases s; cases s3) (simp add: same_peer_def)
  moreover have "desc s = d"
    using s(3) s3f(4) by (simp add: same_peer_def same_net_def)
  moreover have "same_store u s"
    using s2f(1) s3(4) s(3) same_store_trans unfolding same_peer_def by blast
  then have "loaded K s1 s"
    using u(1) same_store_loaded by blast
  ultimately show ?thesis
    using h(2) p1 s3(1) s(1) s3f(3) s1(2,4) sf by (auto simp: s1_def loaded_def)
qed

section \<open>Steps and reachable states\<close>

text \<open>
  Until it is stopped: an event other than the exit event for the main process, a step of the peer component, an
  event for the swarm process, or a reply of the tracker.
\<close>

inductive node_step :: "('f, 'm, 't) contiki \<Rightarrow> sha1_context \<Rightarrow> ('f, 'm, 't, 'a) nanotorrent_scheme \<Rightarrow>
    ('f, 'm, 't, 'a) nanotorrent_scheme \<Rightarrow> bool" for K ctx where
  main_event: "ev \<noteq> PROCESS_EVENT_EXIT \<Longrightarrow> nanotorrent_process K ctx ev s = Some s' \<Longrightarrow> node_step K ctx s s'"
| peer_part: "peer_step K s s' \<Longrightarrow> node_step K ctx s s'"
| swarm_event: "nanotorrent_swarm_process K ev s = Some s' \<Longrightarrow> node_step K ctx s s'"
| tracker_reply: "reply_ok mem \<Longrightarrow> nanotorrent_swarm_handle_reply K mem s = Some s' \<Longrightarrow> node_step K ctx s s'"

inductive_cases node_stepE: "node_step K ctx s s'"

definition running :: "('f, 'm, 't) contiki \<Rightarrow> ('f, 'm, 't, 'a) nanotorrent_scheme \<Rightarrow> bool" where
  "running K s \<longleftrightarrow> node_inv K s \<and> main_pc s \<noteq> MainNotStarted"

lemma same_peer_running:
  assumes "same_peer s s'" "swarm_inv K s'" "running K s"
  shows "running K s' \<and> progress K s s'"
proof -
  have "main_pc s' = main_pc s"
    using assms(1) by (cases s; cases s') (simp add: same_peer_def)
  moreover have "node_inv K s'"
    using assms(2,3) same_peer_inv [OF assms(1), of K] by (simp add: running_def node_inv_def)
  moreover have "progress K s s'"
    using assms(1) same_store_progress unfolding same_peer_def by blast
  ultimately show ?thesis
    using assms(3) by (simp add: running_def)
qed

lemma node_step_inv:
  assumes "sound_kernel K" "node_step K ctx s s'" "running K s"
  shows "running K s' \<and> progress K s s'"
proof -
  have k: "kernel_ok K" "memb_ok K"
    using assms(1) by (simp_all add: sound_kernel_def kernel_ok_def)
  have i: "node_inv K s" "main_pc s \<noteq> MainNotStarted" "swarm_inv K s" "swarm_core K s"
    using assms(3) by (simp_all add: running_def node_inv_def swarm_inv_def)
  show ?thesis
    using assms(2)
  proof cases
    case (main_event ev)
    then show ?thesis
      using main_process_outcome [OF k(1) i(1,2) main_event(1), of ctx] same_store_progress by (fastforce simp: running_def)
  next
    case peer_part
    have p: "peer_inv K s' \<and> armed s' \<and> progress K s s'"
      using peer_step_inv [OF assms(1) peer_part] i(1) by (simp add: node_inv_def)
    then have "length (info_hash s') = 20" "length (info_hash s) = 20"
      using i(1) by (simp_all add: node_inv_def peer_inv_def net_inv_def torrent_fits_def)
    then have "swarm_inv K s'" "main_pc s' = main_pc s"
      using i(3) peer_step_more [OF peer_part]
      by (cases s, cases s', simp add: swarm_inv_defs)+
    then show ?thesis
      using p i(2) by (simp add: running_def node_inv_def)
  next
    case (swarm_event ev)
    then show ?thesis
      using swarm_process_outcome [OF k(2) i(3), of ev] same_peer_running [OF _ _ assms(3)] by auto
  next
    case (tracker_reply mem)
    then have "same_peer s s'"
      using handle_reply_outcome [OF k(1) i(4) tracker_reply(1)] by auto
    moreover have "swarm_inv K s'"
      using swarm_step_inv [OF k(1) swarm_step.reply [OF tracker_reply] i(3)] .
    ultimately show ?thesis
      using same_peer_running assms(3) by blast
  qed
qed

interpretation node: component "node_started K ctx d name s0" "node_step K ctx" "\<lambda>s. sound_kernel K \<longrightarrow> running K s"
  for K ctx d name s0
proof unfold_locales
  fix s :: "('a, 'b, 'c, 'd) nanotorrent_scheme"
  assume st: "node_started K ctx d name s0 s"
  show "sound_kernel K \<longrightarrow> running K s"
  proof
    assume "sound_kernel K"
    then have "kernel_ok K"
      by (simp add: sound_kernel_def)
    moreover from st obtain data s1 s2 s3 where "powered K s0" "startable K d name s0" "length (next_block ctx) = 64" "645 \<le> length data"
      "nanotorrent_start ctx data d name s0 = Some s1" "nanotorrent_process K ctx PROCESS_EVENT_INIT s1 = Some s2"
      "nanotorrent_peer_process K PROCESS_EVENT_INIT s2 = Some s3" "nanotorrent_swarm_process K PROCESS_EVENT_INIT s3 = Some s"
      unfolding node_started_def by blast
    ultimately show "running K s"
      using node_start_outcome [of K s0 d name ctx data] by (auto simp: running_def)
  qed
qed (use node_step_inv in blast)

lemma node_reach_inv:
  assumes "sound_kernel K" "reach (node_started K ctx d name s0) (node_step K ctx) s"
  shows "node_inv K s" "main_pc s \<noteq> MainNotStarted"
  using node.reach_inv [OF assms(2)] assms(1) by (simp_all add: running_def)

end
