(* ===== verification/Peer_Props.thy ===== *)
theory Peer_Props
  imports Exchange
begin

text \<open>
  The properties of the peer component: what every reachable state satisfies, what the handlers answer,
  and the situations in which the code does not do what it means to.
\<close>

section \<open>States for the witnesses\<close>

text \<open>A peer whose first piece is complete, before it starts.\<close>

definition demo_torrent :: nanotorrent_torrent_info where
  "demo_torrent = demo_info\<lparr>piece_hashes := (replicate 32 (replicate 20 0x11))[0 := sha1_spec (replicate 256 7)]\<rparr>"

definition demo_start :: "(sim_file, sim_memb, sim_timer) peer_state" where
  "demo_start = demo_peer_state\<lparr>desc := \<lparr>tracker_ip = replicate 16 0, tracker_port = 1, desc_info = demo_torrent\<rparr>,
     own_have := 1, peers := [], piece_counts := replicate 32 0, peers_in := (0, 5, []), peers_out := (5, 5, [])\<rparr>"

lemma sim_sound: "sound_kernel sim_contiki"
proof -
  have "cfs_writes_some sim_contiki"
    by (simp add: cfs_writes_some_def sim_contiki_def sim_write_def split_def)
  moreover have "payload_ok sim_contiki"
    by (simp add: payload_ok_def sim_contiki_def)
  ultimately show ?thesis
    by (simp add: sound_kernel_def kernel_ok_def sim_ok)
qed

lemma demo_start_simps [simp]:
  "desc demo_start = \<lparr>tracker_ip = replicate 16 0, tracker_port = 1, desc_info = demo_torrent\<rparr>" "own_have demo_start = 1"
  "info_hash demo_start = replicate 20 1" "pending_pieces demo_start = 0" "peers demo_start = []" "now demo_start = 0"
  "files demo_start = (replicate 700 7, 0)" "own_file demo_start = 0"
  by (simp_all add: demo_start_def) (simp_all add: demo_peer_state_def)

lemma demo_torrent_simps [simp]:
  "num_pieces demo_torrent = 3" "piece_size demo_torrent = 256" "file_size demo_torrent = 700"
  "piece_hashes demo_torrent ! 0 = sha1_spec (replicate 256 7)"
  by (simp_all add: demo_torrent_def) (simp_all add: demo_info_def)

lemma demo_torrent_wf: "torrent_wf demo_torrent"
proof -
  have "hash_array (piece_hashes demo_torrent)"
    by (auto simp: demo_torrent_def hash_array_def NANOTORRENT_MAX_PIECES_def dest!: subsetD [OF set_update_subset_insert])
  then show ?thesis
    by (simp add: torrent_wf_def info_ok_def NANOTORRENT_MAX_PIECES_def)
qed

lemma demo_fits: "info_hash s = replicate 20 1 \<Longrightarrow> the_info s = demo_torrent \<Longrightarrow> torrent_fits sim_contiki s"
  using demo_torrent_wf by (simp add: torrent_fits_def pieces_fit_def sim_contiki_def)

lemma bits_1: "bits 1 = {0}"
  unfolding bits_numeral_code by (simp add: upt_rec)

lemma demo_have: "have_ok sim_contiki demo_start"
  by (auto simp: have_ok_def bits_1 piece_verified_def own_content_def sim_contiki_def piece_off_def piece_len_def
      intro!: exI [of _ 256])

lemma demo_fresh: "fresh sim_contiki demo_start"
proof -
  have "torrent_fits sim_contiki demo_start"
    by (rule demo_fits) simp_all
  moreover have "counts_ok 3 (piece_counts demo_start) []"
    by (simp add: counts_ok_def demo_start_def)
  moreover have "memb_inmemb sim_contiki (peers_in demo_start) c \<Longrightarrow> \<not> memb_inmemb sim_contiki (peers_out demo_start) c" for c
    by (simp add: sim_contiki_def demo_start_def)
  moreover have "memb_capacity sim_contiki (peers_in demo_start) = NANOTORRENT_MAX_IN_PEERS"
    "memb_capacity sim_contiki (peers_out demo_start) = NANOTORRENT_MAX_OUT_PEERS"
    by (simp_all add: sim_contiki_def demo_start_def NANOTORRENT_MAX_IN_PEERS_def NANOTORRENT_MAX_OUT_PEERS_def)
  ultimately show ?thesis
    using demo_have by (auto simp: fresh_def)
qed

lemma demo_reach:
  "\<exists>s. reach (peer_started sim_contiki demo_start) (peer_step sim_contiki) s \<and> own_have s = 1 \<and> the_info s = demo_torrent \<and>
    own_content sim_contiki s = replicate 700 7"
proof -
  have "\<exists>s. peer_started sim_contiki demo_start s \<and> same_store demo_start s"
    using peer_process_outcome [of sim_contiki PROCESS_EVENT_INIT demo_start] demo_fresh sim_sound
    by (auto simp: peer_started_def sound_kernel_def)
  then show ?thesis
    using reach_start by (fastforce simp: same_store_def own_content_def sim_simps)
qed

lemma demo_start_inv: "peer_inv sim_contiki demo_start" "armed demo_start"
proof -
  have "links_ok sim_contiki demo_start"
    by (simp add: links_ok_def) (simp add: demo_start_def sim_contiki_def NANOTORRENT_MAX_IN_PEERS_def NANOTORRENT_MAX_OUT_PEERS_def)
  then show "peer_inv sim_contiki demo_start"
    using demo_fresh demo_have by (simp add: peer_inv_def net_inv_def fresh_def counted_def wired_def pending_ok_def requesting_def)
  show "armed demo_start"
    by (simp add: armed_def)
qed

lemma demo_peer_inv: "peer_inv sim_contiki demo_peer_state"
proof -
  have ih: "info_hash demo_peer_state = replicate 20 1" "peers demo_peer_state = [5, 0]"
    "conns demo_peer_state = (\<lambda>c. if c = 0 then demo_conn 0 7 else if c = 5 then demo_conn 5 3 else demo_conn 9 0)"
    by (simp_all add: demo_peer_state_def)
  have "torrent_fits sim_contiki demo_peer_state"
    using demo_info_wf demo_fit ih by (simp add: torrent_fits_def) (simp add: demo_info_def)
  moreover have "links_ok sim_contiki demo_peer_state"
    by (auto simp: links_ok_def ih demo_conn_def inj_on_def)
      (auto simp: demo_peer_state_def sim_contiki_def NANOTORRENT_MAX_IN_PEERS_def NANOTORRENT_MAX_OUT_PEERS_def)
  moreover have "counts_ok 3 ([2, 2, 1] @ replicate 29 0) [3, 7]"
    by (simp add: counts_ok_def bits_3 bits_7 numeral_3_eq_3 less_Suc_eq all_conj_distrib)
  then have "counted demo_peer_state"
    by (simp add: counted_def ih demo_conn_def)
  moreover have "wired demo_peer_state"
    by (simp add: wired_def ih demo_conn_def)
  moreover have "pending_ok demo_peer_state"
    by (auto simp: pending_ok_def requesting_def ih demo_conn_def)
  moreover have "have_ok sim_contiki demo_peer_state"
    by (simp add: have_ok_def)
  ultimately show ?thesis
    by (simp add: peer_inv_def net_inv_def)
qed

lemma replicate_two: "replicate 2 x = [x, x]"
  by (simp add: numeral_2_eq_2)

section \<open>Reachable states\<close>

lemma have_count_card:
  "distinct ps \<Longrightarrow> have_count (map f ps) j = card {c \<in> set ps. j \<in> bits (f c)}"
proof -
  assume d: "distinct ps"
  have "have_count (map f ps) j = length (filter (\<lambda>c. j \<in> bits (f c)) ps)"
    by (simp add: have_count_def filter_map o_def)
  then show ?thesis
    using d by (simp add: distinct_length_filter Int_def conj_commute)
qed

text \<open>
  C4: the bookkeeping of the connections is consistent in every reachable state. The list holds every connection
  once, exactly the allocated blocks of the two pools, and no two connections are with the same address; the
  count of a piece is the number of connections that have it; and a bit of the pending pieces is set exactly
  when some connection requests that piece, which is a piece of the torrent. Reachable are the states after any datagrams of the protocol (data
  replies carry data), events, connections and disconnections, with a file system that does not fail.
\<close>

theorem peer_bookkeeping:
  assumes "sound_kernel K" "reach (peer_started K s0) (peer_step K) s"
  shows "distinct (peers s) \<and> set (peers s) = memb_allocated K (peers_in s) \<union> memb_allocated K (peers_out s) \<and>
    (\<forall>c \<in> set (peers s). \<forall>d \<in> set (peers s). peer_ip (conn_peer_info (conns s c)) = peer_ip (conn_peer_info (conns s d)) \<longrightarrow> c = d) \<and>
    (\<forall>j < unat (num_pieces (the_info s)).
       piece_counts s ! j = of_nat (card {c \<in> set (peers s). nanotorrent_bitset_get (conn_have (conns s c)) j})) \<and>
    (\<forall>i. nanotorrent_peer_has_request i s \<longleftrightarrow>
       (\<exists>c \<in> set (peers s). has_request (conns s c) \<and> request_index (conns s c) = i)) \<and>
    (\<forall>c \<in> set (peers s). has_request (conns s c) \<longrightarrow> nanotorrent_piece_is_valid (request_index (conns s c)) s)"
proof -
  have i: "net_inv K s" "pending_ok s"
    using peer_reach_inv [OF assms] by (simp_all add: peer_inv_def)
  then have l: "links_ok K s" "counted s"
    by (simp_all add: net_inv_def)
  have d: "distinct (peers s)"
    using l(1) by (simp add: links_ok_def)
  have "\<forall>i. nanotorrent_peer_has_request i s \<longleftrightarrow> (\<exists>c \<in> set (peers s). has_request (conns s c) \<and> request_index (conns s c) = i)"
    using i(2) by (auto simp: nanotorrent_peer_has_request_def bits_get pending_ok_def requesting_def word_unat_eq_iff)
  moreover have "\<forall>c \<in> set (peers s). has_request (conns s c) \<longrightarrow> nanotorrent_piece_is_valid (request_index (conns s c)) s"
    using requesting_less [OF i(2)] by (simp add: valid_iff requesting_def)
  ultimately show ?thesis
    using l d by (simp add: links_ok_def counted_def counts_ok_def have_count_card bits_get inj_on_def)
qed

theorem peer_bookkeeping_witness:
  "\<exists>s. reach (peer_started sim_contiki demo_start) (peer_step sim_contiki) s \<and> distinct (peers s)"
  using demo_reach peer_bookkeeping [OF sim_sound] by blast

text \<open>
  No step of the peer component goes wrong. In every reachable state every datagram whose data reply is
  not shorter than its header is handled, every event of the process is handled, and every connection can be closed: the
  code dereferences no null pointer, stays inside its arrays and ends its loops.
\<close>

theorem peer_handlers_defined:
  assumes "sound_kernel K" "reach (peer_started K s0) (peer_step K) s"
  shows "(\<forall>context src dest mem datalen. length (next_block context) = 64 \<and> datagram_ok mem datalen \<longrightarrow>
      nanotorrent_peer_handle_message K context src dest mem datalen s \<noteq> None) \<and>
    (\<forall>ev. ev \<noteq> PROCESS_EVENT_INIT \<longrightarrow> nanotorrent_peer_process K ev s \<noteq> None) \<and>
    (\<forall>peer. nanotorrent_peer_disconnect K peer s \<noteq> None)"
proof -
  have k: "kernel_ok K" "payload_ok K"
    using assms(1) by (simp_all add: sound_kernel_def)
  note i = peer_reach_inv [OF assms]
  have "nanotorrent_peer_handle_message K ctx src dest mem datalen s \<noteq> None"
    if "length (next_block ctx) = 64" "datagram_ok mem datalen" for ctx src dest mem datalen
    using handle_message_outcome [OF k i that, of src dest] by auto
  moreover have "nanotorrent_peer_process K ev s \<noteq> None" if "ev \<noteq> PROCESS_EVENT_INIT" for ev
    using peer_process_outcome [OF k(1), of ev s] i that by auto
  moreover have "nanotorrent_peer_disconnect K peer s \<noteq> None" for peer
    using disconnect_outcome [OF k(1) i, of peer] by auto
  ultimately show ?thesis by blast
qed

theorem peer_handlers_defined_witness:
  "\<exists>s :: (sim_file, sim_memb, sim_timer) peer_state. nanotorrent_peer_handle_message sim_contiki used_context
    (replicate 16 7) (replicate 16 8) (replicate 100 1) 30 s \<noteq> None"
proof -
  obtain s where s: "reach (peer_started sim_contiki demo_start) (peer_step sim_contiki) s"
    using demo_reach by blast
  have "datagram_ok (replicate 100 1) 30"
    by (simp add: datagram_ok_def NANOTORRENT_PEER_DATA_REPLY_def)
  moreover have "length (next_block used_context) = 64"
    by simp
  ultimately show ?thesis
    using peer_handlers_defined [OF sim_sound s] by blast
qed

text \<open>
  The data a peer claims to have is right. In every reachable state, each piece marked complete is a piece of
  the torrent, and the file holds, at the piece's offset, bytes whose SHA-1 digest is the one the descriptor
  gives for the piece, whatever the peers have sent.
\<close>

theorem peer_data_integrity:
  assumes "sound_kernel K" "reach (peer_started K s0) (peer_step K) s" "nanotorrent_bitset_get (nanotorrent_piece_have s) i"
  shows "i < unat (num_pieces (the_info s)) \<and>
    (\<exists>n \<le> piece_len (the_info s) i.
       sha1_spec (take n (drop (piece_off (the_info s) i) (cfs_content K (files s) (own_file s)))) = piece_hashes (the_info s) ! i)"
proof -
  have "have_ok K s"
    using peer_reach_inv [OF assms(1,2)] by (simp add: peer_inv_def)
  then show ?thesis
    using assms(3) by (auto simp: have_ok_def nanotorrent_piece_have_def bits_get piece_verified_def own_content_def)
qed

theorem peer_data_integrity_witness:
  "\<exists>s :: (sim_file, sim_memb, sim_timer) peer_state. \<exists>n \<le> 256. own_have s = 1 \<and> sha1_spec (take n (drop 0 (cfs_content sim_contiki (files s) (own_file s)))) = sha1_spec (replicate 256 7)"
proof -
  obtain s where s: "reach (peer_started sim_contiki demo_start) (peer_step sim_contiki) s" "own_have s = 1" "the_info s = demo_torrent"
    using demo_reach by blast
  have "nanotorrent_bitset_get (nanotorrent_piece_have s) 0"
    by (simp add: nanotorrent_piece_have_def s(2) bits_get bits_1)
  from peer_data_integrity [OF sim_sound s(1) this] show ?thesis
    using s(2,3) by (intro exI [of _ s]) (simp add: piece_len_def piece_off_def)
qed

text \<open>
  The download never goes back. Along every step from a reachable state the set of complete pieces only grows and
  the file does not get shorter or lose a byte of a complete piece.
\<close>

theorem peer_progress:
  assumes "sound_kernel K" "reach (peer_started K s0) (peer_step K) s" "peer_step K s s'"
  shows "(\<forall>i. nanotorrent_piece_is_complete i s \<longrightarrow> nanotorrent_piece_is_complete i s') \<and>
    length (own_content K s) \<le> length (own_content K s') \<and>
    (\<forall>j k. nanotorrent_bitset_get (nanotorrent_piece_have s) j \<and> k < piece_len (the_info s) j \<and>
       piece_off (the_info s) j + k < length (own_content K s) \<longrightarrow>
       own_content K s' ! (piece_off (the_info s) j + k) = own_content K s ! (piece_off (the_info s) j + k))"
proof -
  have "progress K s s'"
    using peer_step_inv [OF assms(1,3)] peer_reach_inv [OF assms(1,2)] by blast
  then show ?thesis
    by (auto simp: progress_def is_complete_iff valid_iff nanotorrent_piece_have_def bits_get)
qed

theorem peer_progress_witness:
  "\<exists>s :: (sim_file, sim_memb, sim_timer) peer_state. nanotorrent_piece_is_complete 0 (s\<lparr>now := now s + 1\<rparr>) \<and> own_have s = 1"
proof -
  obtain s where s: "reach (peer_started sim_contiki demo_start) (peer_step sim_contiki) s" "own_have s = 1" "the_info s = demo_torrent"
    using demo_reach by blast
  have "peer_step sim_contiki s (s\<lparr>now := now s + 1\<rparr>)"
    by (rule tick) simp
  moreover have "nanotorrent_piece_is_complete 0 s"
    using s(2,3) by (simp add: is_complete_iff valid_iff bits_1)
  ultimately show ?thesis
    using peer_progress [OF sim_sound s(1)] s(2) by blast
qed

section \<open>Connecting\<close>

lemma peers_bound:
  assumes "memb_ok K" "links_ok K s"
  shows "length (peers s) \<le> NANOTORRENT_MAX_IN_PEERS + NANOTORRENT_MAX_OUT_PEERS"
proof -
  have "length (peers s) = card (memb_allocated K (peers_in s) \<union> memb_allocated K (peers_out s))"
    using assms(2) distinct_card [of "peers s"] by (simp add: links_ok_def)
  also have "\<dots> \<le> card (memb_allocated K (peers_in s)) + card (memb_allocated K (peers_out s))"
    by (rule card_Un_le)
  finally show ?thesis
    using memb_allocated_card(2) [OF assms(1), of "peers_in s"] memb_allocated_card(2) [OF assms(1), of "peers_out s"] assms(2)
    by (simp add: links_ok_def)
qed

text \<open>
  C30: connecting is bounded and fails only when the pool is full. There are never more than ten connections, so the
  8-bit count is exact; connecting to a peer keeps all connections and gives the connection with
  that address, an old one or a new one without a request; it fails only when all the five blocks for outgoing
  connections are in use, and then it changes nothing.
\<close>

theorem peer_connect_bounded:
  assumes "kernel_ok K" "peer_inv K s" "nanotorrent_peer_connect K peer s = (r, s')"
  shows "length (peers s') \<le> 10 \<and> unat (nanotorrent_peer_count s') = length (peers s') \<and> peer_inv K s' \<and>
    (case r of
       None \<Rightarrow> s' = s \<and> card (memb_allocated K (peers_out s)) = NANOTORRENT_MAX_OUT_PEERS \<and>
         (\<forall>c \<in> set (peers s). peer_ip (conn_peer_info (conns s c)) \<noteq> peer_ip peer)
     | Some c \<Rightarrow> conn_peer_info (conns s' c) = peer \<and> set (peers s') = insert c (set (peers s)) \<and>
         (\<forall>d \<in> set (peers s). conns s' d = conns s d) \<and> (c \<notin> set (peers s) \<longrightarrow> \<not> has_request (conns s' c)))"
proof -
  have n: "net_inv K s" "pending_ok s" "have_ok K s" and k: "memb_ok K" "net_ok K"
    using assms(1,2) by (simp_all add: peer_inv_def kernel_ok_def)
  have c: "nanotorrent_peer_connect_with K peer PeersOut s = (r, s')"
    using assms(3) by (simp add: nanotorrent_peer_connect_def)
  have o: "net_inv K s'" "pending_ok s'" "same_store s s'"
    "case r of None \<Rightarrow> s' = s \<and> nanotorrent_peer_find K peer s = None
     | Some c \<Rightarrow> c \<in> set (peers s') \<and> conn_peer_info (conns s' c) = peer \<and> only_conn c s s' \<and>
       (if c \<in> set (peers s) then s' = s else peers s' = c # peers s \<and> \<not> has_request (conns s' c))"
    using connect_with_outcome [OF assms(1) n(1,2), of peer PeersOut] c by auto
  have lk: "links_ok K s" "links_ok K s'"
    using n(1) o(1) by (simp_all add: net_inv_def)
  have len: "length (peers s') \<le> 10"
    using peers_bound [OF k(1) lk(2)] by (simp add: NANOTORRENT_MAX_IN_PEERS_def NANOTORRENT_MAX_OUT_PEERS_def)
  have inv: "peer_inv K s'"
    using o n(3) same_store_have [OF o(3), of K] by (simp add: peer_inv_def)
  show ?thesis
  proof (cases r)
    case None
    then have f: "nanotorrent_peer_find K peer s = None" "s' = s"
      using o(4) by simp_all
    have "\<exists>t. alloc_conn K PeersOut s = (None, t)"
      using c None f(1) by (auto simp: nanotorrent_peer_connect_with_def split: prod.splits option.splits)
    then have "card (memb_allocated K (peers_out s)) = memb_capacity K (peers_out s)"
      using memb_alloc_None [OF k(1), of "peers_out s"] by (auto simp: alloc_conn_def split: prod.splits)
    then show ?thesis
      using None f inv len find_None [OF k(2) f(1)] lk(1) by (simp add: nanotorrent_peer_count_def unat_of_nat links_ok_def)
  next
    case (Some c)
    then show ?thesis
      using o(4) inv len by (auto simp: nanotorrent_peer_count_def unat_of_nat only_conn_def split: if_splits)
  qed
qed

theorem peer_connect_bounded_witness:
  "length (peers (snd (nanotorrent_peer_connect sim_contiki \<lparr>peer_ip = replicate 16 9\<rparr> demo_start))) \<le> 10"
proof -
  have "kernel_ok sim_contiki"
    using sim_sound by (simp add: sound_kernel_def)
  from peer_connect_bounded [OF this demo_start_inv(1) surjective_pairing] show ?thesis
    by blast
qed

section \<open>Requesting the next piece\<close>

lemma request_start_eq:
  assumes "net_inv K s" "c \<in> set (peers s)"
  shows "\<exists>r s'. nanotorrent_peer_request_start K c s = Some s' \<and>
    conns s' c = (conns s c)\<lparr>has_request := True, request_retry := r\<rparr> \<and>
    outputs s' = outputs s @ [UdpSendTo PeerSocket
      (enc_data \<lparr>data_header = nanotorrent_peer_make_header NANOTORRENT_PEER_DATA_REQUEST s,
        piece_index = request_index (conns s c), data_start = request_offset (conns s c)\<rparr>)
      (peer_ip (conn_peer_info (conns s c))) NANOTORRENT_PEER_PORT]"
proof -
  define s1 where "s1 = nanotorrent_peer_request_init K c s"
  obtain r call where rs: "nanotorrent_retry_start K (now s1) (request_retry (conns s1 c)) NANOTORRENT_MAX_PEER_RETRIES (Some c) = (r, call)"
    by (cases "nanotorrent_retry_start K (now s1) (request_retry (conns s1 c)) NANOTORRENT_MAX_PEER_RETRIES (Some c)")
  define s2 where "s2 = set_conn c (\<lambda>x. x\<lparr>request_retry := r\<rparr>) s1"
  have c1: "conns s1 c = (conns s c)\<lparr>has_request := True\<rparr>" "outputs s1 = outputs s" "info_hash s1 = info_hash s"
    "nanotorrent_peer_make_header t s1 = nanotorrent_peer_make_header t s" for t
    by (simp_all add: s1_def nanotorrent_peer_request_init_def Let_def nanotorrent_peer_make_header_def nanotorrent_piece_have_def)
  have c2: "conns s2 c = (conns s c)\<lparr>has_request := True, request_retry := r\<rparr>" "outputs s2 = outputs s"
    "length (info_hash s2) = 20" "nanotorrent_peer_make_header t s2 = nanotorrent_peer_make_header t s" for t
    using c1 net_inv_fits(2) [OF assms(1)] by (simp_all add: s2_def nanotorrent_peer_make_header_def nanotorrent_piece_have_def)
  have "call = Some (nanotorrent_peer_request_retry_again, Some c)"
    using retry_start_again [OF rs] assms c1(1) by (simp add: net_inv_def wired_def)
  then have "nanotorrent_peer_request_start K c s = request_retry_again c s2"
    using rs by (simp add: nanotorrent_peer_request_start_def Let_def s2_def flip: s1_def)
  then show ?thesis
    using c2 by (intro exI [of _ r]) (simp add: request_retry_again_def Let_def send_data_request_eq)
qed

lemma request_next_selects:
  assumes "kernel_ok K" "peer_inv K s" "c \<in> set (peers s)" "bits (conn_have (conns s c)) \<subseteq> {..<unat (num_pieces (the_info s))}"
    and "S = (let missing = bits (conn_have (conns s c)) - bits (own_have s); fresh = missing - bits (pending_pieces s)
       in if fresh \<noteq> {} then fresh
          else if 4 * unat (num_pieces (the_info s)) \<le> 5 * card (bits (own_have s)) then missing else {})"
    and False: "\<not> (has_request (conns s c) \<or> (\<forall>i < unat (num_pieces (the_info s)). i \<in> bits (own_have s)))"
  shows "if S = {} then nanotorrent_peer_request_next K c s = Some (False, s)
    else \<exists>i s'. is_rarest (piece_counts s) S i \<and> nanotorrent_peer_request_next K c s = Some (True, s') \<and>
      has_request (conns s' c) \<and> request_index (conns s' c) = of_nat i \<and> request_offset (conns s' c) = 0 \<and> peer_inv K s' \<and>
      outputs s' = outputs s @ [UdpSendTo PeerSocket
        (enc_data \<lparr>data_header = nanotorrent_peer_make_header NANOTORRENT_PEER_DATA_REQUEST s, piece_index = of_nat i, data_start = 0\<rparr>)
        (peer_ip (conn_peer_info (conns s c))) NANOTORRENT_PEER_PORT]"
proof -
  have n: "net_inv K s"
    using assms(2) by (simp add: peer_inv_def)
  note fits = net_inv_fits [OF n]
  have lk: "links_ok K s" "counted s" and k: "memb_ok K"
    using n assms(1) by (simp_all add: net_inv_def kernel_ok_def)
  have seed: "\<not> nanotorrent_piece_is_seed (int_bits K) s"
    using is_seed_iff [OF fits(7)] False by auto
  have len: "length (peers s) \<le> 10"
    using peers_bound [OF k lk(1)] by (simp add: NANOTORRENT_MAX_IN_PEERS_def NANOTORRENT_MAX_OUT_PEERS_def)
  have cnt: "\<forall>j < unat (num_pieces (the_info s)). piece_counts s ! j < 0xFF"
  proof (intro allI impI)
    fix j
    assume "j < unat (num_pieces (the_info s))"
    then have "piece_counts s ! j = of_nat (have_count (map (\<lambda>c. conn_have (conns s c)) (peers s)) j)"
      using lk(2) by (simp add: counted_def counts_ok_def)
    moreover have "have_count (map (\<lambda>c. conn_have (conns s c)) (peers s)) j \<le> 10"
      using length_filter_le [of "\<lambda>h. j \<in> bits h" "map (\<lambda>c. conn_have (conns s c)) (peers s)"] len
      unfolding have_count_def length_map by (rule le_trans)
    ultimately show "piece_counts s ! j < 0xFF"
      by (simp add: word_less_nat_alt unat_of_nat)
  qed
  define M where "M = bits (conn_have (conns s c)) - bits (own_have s)"
  define F where "F = bits (conn_have (conns s c)) - bits (own_have s) - bits (pending_pieces s)"
  have S: "S = (if F \<noteq> {} then F else if 4 * unat (num_pieces (the_info s)) \<le> 5 * card (bits (own_have s)) then M else {})"
    by (simp add: assms(5) F_def M_def Let_def)
  have i: "M \<inter> {..<unat (num_pieces (the_info s))} = M" "F \<inter> {..<unat (num_pieces (the_info s))} = F"
    using assms(4) by (auto simp: M_def F_def)
  have sel: "if S = {} then nanotorrent_select_next (conns s c) s = Some None
      else \<exists>i. is_rarest (piece_counts s) S i \<and> nanotorrent_select_next (conns s c) s = Some (Some (of_nat i))"
    using select_next_outcome [OF fits(5,3) cnt F_def M_def] unfolding S picks_def i by (auto split: if_splits)
  show ?thesis
  proof (cases "S = {}")
    case True
    then show ?thesis
      using sel False seed by (simp add: nanotorrent_peer_request_next_def)
  next
    case ne: False
    with sel obtain i where i: "is_rarest (piece_counts s) S i" "nanotorrent_select_next (conns s c) s = Some (Some (of_nat i))"
      by auto
    define s1 where "s1 = set_conn c (\<lambda>x. x\<lparr>request_offset := 0\<rparr>) (set_conn c (\<lambda>x. x\<lparr>request_index := of_nat i\<rparr>) s)"
    have n1: "net_inv K s1" "c \<in> set (peers s1)"
      using n assms(3) same_net_inv [of s s1 K] by (simp_all add: s1_def same_net_def)
    from request_start_eq [OF n1] obtain r s' where s': "nanotorrent_peer_request_start K c s1 = Some s'"
      "conns s' c = (conns s1 c)\<lparr>has_request := True, request_retry := r\<rparr>"
      "outputs s' = outputs s1 @ [UdpSendTo PeerSocket
        (enc_data \<lparr>data_header = nanotorrent_peer_make_header NANOTORRENT_PEER_DATA_REQUEST s1,
          piece_index = request_index (conns s1 c), data_start = request_offset (conns s1 c)\<rparr>)
        (peer_ip (conn_peer_info (conns s1 c))) NANOTORRENT_PEER_PORT]"
      by blast
    have e: "nanotorrent_peer_request_next K c s = Some (True, s')"
      using i(2) False seed s'(1) by (simp add: nanotorrent_peer_request_next_def s1_def)
    have "peer_inv K s'"
      using request_next_inv [OF assms(2,3)] e by auto
    moreover have "nanotorrent_peer_make_header t s1 = nanotorrent_peer_make_header t s" for t
      by (simp add: s1_def nanotorrent_peer_make_header_def nanotorrent_piece_have_def)
    ultimately show ?thesis
      using e i(1) s'(2,3) ne by (simp only: if_False) (intro exI [of _ i] exI [of _ s'], simp add: s1_def)
  qed
qed

text \<open>
  C16: requesting the next piece follows the selection. For a connection without a request, while some piece is missing
  here, the code requests the start of the rarest piece of those the selection considers, marks the connection as
  requesting it and sends one request for it to that peer; when nothing is to be requested it changes
  nothing and sends nothing. The peer has announced pieces of the torrent only.
\<close>

theorem request_next_rarest:
  assumes "kernel_ok K" "peer_inv K s" "c \<in> set (peers s)" "bits (conn_have (conns s c)) \<subseteq> {..<unat (num_pieces (the_info s))}"
    and "S = (let missing = bits (conn_have (conns s c)) - bits (own_have s); fresh = missing - bits (pending_pieces s)
       in if fresh \<noteq> {} then fresh
          else if 4 * unat (num_pieces (the_info s)) \<le> 5 * card (bits (own_have s)) then missing else {})"
  shows "if has_request (conns s c) \<or> (\<forall>i < unat (num_pieces (the_info s)). i \<in> bits (own_have s)) \<or> S = {}
    then nanotorrent_peer_request_next K c s = Some (False, s)
    else \<exists>i s'. is_rarest (piece_counts s) S i \<and> nanotorrent_peer_request_next K c s = Some (True, s') \<and>
      has_request (conns s' c) \<and> request_index (conns s' c) = of_nat i \<and> request_offset (conns s' c) = 0 \<and> peer_inv K s' \<and>
      outputs s' = outputs s @ [UdpSendTo PeerSocket
        (enc_data \<lparr>data_header = nanotorrent_peer_make_header NANOTORRENT_PEER_DATA_REQUEST s, piece_index = of_nat i, data_start = 0\<rparr>)
        (peer_ip (conn_peer_info (conns s c))) NANOTORRENT_PEER_PORT]"
proof (cases "has_request (conns s c) \<or> (\<forall>i < unat (num_pieces (the_info s)). i \<in> bits (own_have s))")
  case True
  have "pieces_fit (int_bits K) (the_info s)"
    using assms(2) by (simp add: peer_inv_def net_inv_def torrent_fits_def)
  from is_seed_iff [OF this] True show ?thesis
    by (auto simp: nanotorrent_peer_request_next_def)
next
  case False
  note selected = request_next_selects [OF assms False]
  show ?thesis
  proof (cases "S = {}")
    case True
    then show ?thesis
      using selected by simp
  next
    case ne: False
    then have nd: "\<not> (has_request (conns s c) \<or> (\<forall>i < unat (num_pieces (the_info s)). i \<in> bits (own_have s)) \<or> S = {})"
      using False by blast
    from selected [unfolded if_not_P [OF ne]] show ?thesis
      unfolding if_not_P [OF nd] .
  qed
qed

theorem request_next_rarest_witness:
  "\<exists>s'. nanotorrent_peer_request_next sim_contiki 0 demo_peer_state = Some (True, s') \<and> request_index (conns s' 0) = 2"
proof -
  have k: "kernel_ok sim_contiki"
    using sim_sound by (simp add: sound_kernel_def)
  have c: "conns demo_peer_state 0 = demo_conn 0 7" "0 \<in> set (peers demo_peer_state)"
    by (simp_all add: demo_peer_state_def)
  have r: "is_rarest ([2, 2, 1] @ replicate 29 0) {0, 1, 2} i \<Longrightarrow> i = 2" for i
    by (auto simp: is_rarest_def word_le_nat_alt)
  have S: "{0, 1, 2} = (let missing = bits (conn_have (conns demo_peer_state 0)) - bits (own_have demo_peer_state);
      fresh = missing - bits (pending_pieces demo_peer_state)
    in if fresh \<noteq> {} then fresh
       else if 4 * unat (num_pieces (the_info demo_peer_state)) \<le> 5 * card (bits (own_have demo_peer_state)) then missing else {})"
    by (simp add: c(1) demo_conn_def bits_7)
  have h: "\<not> has_request (conns demo_peer_state 0)" "bits (conn_have (conns demo_peer_state 0)) \<subseteq> {..<unat (num_pieces (the_info demo_peer_state))}"
    by (simp_all add: c(1) demo_conn_def bits_7)
  have "\<not> (\<forall>i < unat (num_pieces (the_info demo_peer_state)). i \<in> bits (own_have demo_peer_state))"
    by (auto intro: exI [of _ 0])
  then have nd: "\<not> (has_request (conns demo_peer_state 0) \<or>
      (\<forall>i < unat (num_pieces (the_info demo_peer_state)). i \<in> bits (own_have demo_peer_state)) \<or> {0, 1, 2 :: nat} = {})"
    using h(1) by simp
  obtain i s' where "is_rarest (piece_counts demo_peer_state) {0, 1, 2} i"
      "nanotorrent_peer_request_next sim_contiki 0 demo_peer_state = Some (True, s')" "request_index (conns s' 0) = of_nat i"
    using request_next_rarest [OF k demo_peer_inv c(2) h(2) S] unfolding if_not_P [OF nd] by blast
  then show ?thesis
    using r [of i] by auto
qed

section \<open>Answering requests\<close>

lemma piece_read_reliable:
  assumes "cfs_reliable K" "torrent_wf (the_info s)" "nanotorrent_piece_is_valid i s" "unat off < piece_len (the_info s) (unat i)"
    and "nanotorrent_piece_read K i off n s = (r, bs, s')"
  shows "0 \<le> r"
proof -
  have ge: "\<not> nanotorrent_piece_size i s \<le> ucast off"
    using unat_piece_size [OF assms(2,3)] assms(4) by (simp add: word_le_nat_alt)
  define o' where "o' = nanotorrent_piece_offset i s + ucast off"
  obtain r1 f1 where sk: "cfs_seek K (own_file s) (uint o') CFS_SEEK_SET (files s) = (r1, f1)"
    by (cases "cfs_seek K (own_file s) (uint o') CFS_SEEK_SET (files s)")
  have "uint o' = int (unat o')"
    by simp
  then have r1: "0 \<le> r1"
    using assms(1) sk unfolding cfs_reliable_def by (metis fst_conv)
  define k where "k = unat (min n (nanotorrent_piece_size i s - ucast off))"
  obtain r2 bs2 f2 where rd: "cfs_read K (own_file s) k f1 = (r2, bs2, f2)"
    by (cases "cfs_read K (own_file s) k f1")
  then have "0 \<le> r2"
    using assms(1) unfolding cfs_reliable_def by (metis fst_conv)
  then show ?thesis
    using assms(3,5) ge sk r1 rd by (auto simp: nanotorrent_piece_read_def Let_def simp flip: o'_def k_def)
qed

text \<open>
  Data requests are answered with the data of the file. The handler sends at most one datagram, to the requester or, when
  that one is link-local, to all the nodes of the link, and only for a piece that is complete: a header that repeats the piece and the start asked for,
  followed by the bytes of the file at the start (modulo 256, the width of the parameter) in that piece. It changes no byte of
  the file and keeps the invariant. When the file has bytes there, no read fails and the buffer has room, it does answer.
\<close>

theorem data_request_reply:
  assumes "kernel_ok K" "payload_ok K" "peer_inv K s" "28 \<le> length mem"
    and "i = piece_index (dec_data (take 28 mem))" "st = data_start (dec_data (take 28 mem))"
  shows "\<exists>s' ds. nanotorrent_peer_handle_data_request K mem datalen peer s = Some s' \<and> outputs s' = outputs s @ ds \<and>
    peer_inv K s' \<and> cfs_content K (files s') = cfs_content K (files s) \<and>
    (ds = [] \<or> nanotorrent_piece_is_complete i s \<and>
      (\<exists>bs. bs \<noteq> [] \<and> length bs \<le> udp_payload K - 28 \<and> unat st mod 256 + length bs \<le> piece_len (the_info s) (unat i) \<and>
         bs = take (length bs) (drop (piece_off (the_info s) (unat i) + unat st mod 256) (own_content K s)) \<and>
         ds = [UdpSendTo PeerSocket
           (enc_data \<lparr>data_header = nanotorrent_peer_make_header NANOTORRENT_PEER_DATA_REPLY s, piece_index = i, data_start = st\<rparr> @ bs)
           (if nanotorrent_peer_is_local K peer then linklocal_allnodes_mcast K else peer_ip peer) NANOTORRENT_PEER_PORT])) \<and>
    (cfs_reliable K \<and> nanotorrent_piece_is_complete i s \<and> 28 < udp_payload K \<and>
      unat st mod 256 < piece_len (the_info s) (unat i) \<and>
      piece_off (the_info s) (unat i) + unat st mod 256 < length (own_content K s) \<longrightarrow> ds \<noteq> [])"
proof -
  have n: "net_inv K s"
    using assms(3) by (simp add: peer_inv_def)
  note fits = net_inv_fits [OF n]
  have pl: "28 \<le> udp_payload K" "udp_payload K < 2 ^ 16"
    using assms(2) by (simp_all add: payload_ok_def)
  have k: "cfs_ok K"
    using assms(1) by (simp add: kernel_ok_def)
  have u: "nanotorrent_unpack_peer_data (mem, 0) = Some (dec_data (take 28 mem), (mem, 28))"
    using data.parse_Some [of 0 mem] assms(4) by simp
  have low: "unat (ucast st :: u8) = unat st mod 256"
    by (simp add: unsigned_ucast_eq take_bit_eq_mod)
  show ?thesis
  proof (cases "nanotorrent_piece_is_complete i s")
    case False
    then have "nanotorrent_peer_handle_data_request K mem datalen peer s = Some s"
      by (auto simp: nanotorrent_peer_handle_data_request_def u assms(5))
    then show ?thesis
      using assms(3) False by simp
  next
    case True
    then have v: "nanotorrent_piece_is_valid i s"
      by (simp add: is_complete_iff)
    define reply where "reply = \<lparr>data_header = nanotorrent_peer_make_header NANOTORRENT_PEER_DATA_REPLY s, piece_index = i, data_start = st\<rparr>"
    define buf where "buf = memcpy_at (replicate (udp_payload K) 0) 0 (enc_data reply)"
    have ok: "header_ok (data_header reply)"
      using fits(2) by (simp add: reply_def header_ok_make)
    have l: "length (enc_data reply) = 28"
      by (rule data.size_enc [OF ok])
    have pk: "nanotorrent_pack_peer_data reply (replicate (udp_payload K) 0, 0) = Some (buf, 28)"
      using data.pack_Some [OF ok, of 0 "replicate (udp_payload K) 0"] l pl by (simp add: buf_def)
    have lb: "length buf = udp_payload K" "take 28 buf = enc_data reply"
      using l pl by (simp_all add: buf_def memcpy_at_def)
    define m :: u16 where "m = of_nat (udp_payload K) - 28"
    have m: "unat m = udp_payload K - 28"
      using pl by (simp add: m_def unat_sub_fits unat_of_nat)
    from piece_read_outcome [OF k fits(6), of i "ucast st" m] obtain r bs f where
      rd: "nanotorrent_piece_read K i (ucast st) m s = (r, bs, s\<lparr>files := f\<rparr>)" "cfs_content K f = cfs_content K (files s)"
        "0 \<le> r \<longrightarrow> r = int (length bs) \<and> length bs \<le> unat m \<and> unat (ucast st :: u8) + length bs \<le> piece_len (the_info s) (unat i) \<and>
          bs = take (length bs) (drop (piece_off (the_info s) (unat i) + unat (ucast st :: u8)) (own_content K s)) \<and>
          (bs = [] \<longrightarrow> m = 0 \<or> length (own_content K s) \<le> piece_off (the_info s) (unat i) + unat (ucast st :: u8))"
      by blast
    define t where "t = s\<lparr>files := f\<rparr>"
    have "have_ok K t"
      using assms(3) rd(2) by (simp add: peer_inv_def have_ok_def own_content_def t_def)
    then have t: "peer_inv K t" "cfs_content K (files t) = cfs_content K (files s)" "outputs t = outputs s"
      using assms(3) rd(2) by (simp_all add: peer_inv_def t_def)
    have w: "nanotorrent_peer_write_data_reply K (replicate (udp_payload K) 0) (of_nat (udp_payload K)) i st s =
        Some (if r \<le> 0 then None else Some (memcpy_at buf 28 bs, 28 + nat r), t)"
      using pk rd(1,3) lb m pl by (auto simp: nanotorrent_peer_write_data_reply_def t_def m_def simp flip: reply_def)
    show ?thesis
    proof (cases "r \<le> 0")
      case r: True
      then have "nanotorrent_peer_handle_data_request K mem datalen peer s = Some t"
        using True v w by (simp add: nanotorrent_peer_handle_data_request_def u flip: assms(5,6))
      moreover have "\<not> (cfs_reliable K \<and> 28 < udp_payload K \<and> unat st mod 256 < piece_len (the_info s) (unat i) \<and>
          piece_off (the_info s) (unat i) + unat st mod 256 < length (own_content K s))"
      proof
        assume a: "cfs_reliable K \<and> 28 < udp_payload K \<and> unat st mod 256 < piece_len (the_info s) (unat i) \<and>
          piece_off (the_info s) (unat i) + unat st mod 256 < length (own_content K s)"
        then have "0 \<le> r"
          using piece_read_reliable [OF _ fits(6) v _ rd(1)] low by simp
        with r rd(3) have "bs = []" "m = 0 \<or> length (own_content K s) \<le> piece_off (the_info s) (unat i) + unat st mod 256"
          by (auto simp: low)
        with a m show False
          by (auto simp: unat_eq_0 [symmetric])
      qed
      ultimately show ?thesis
        using t by (intro exI [of _ t] exI [of _ "[]"]) simp
    next
      case r: False
      then have b: "r = int (length bs)" "bs \<noteq> []" "length bs \<le> udp_payload K - 28"
        "unat st mod 256 + length bs \<le> piece_len (the_info s) (unat i)"
        "bs = take (length bs) (drop (piece_off (the_info s) (unat i) + unat st mod 256) (own_content K s))"
        using rd(3) m by (auto simp: low)
      have "28 + length bs < 2 ^ 16"
        using b(3) pl by simp
      then have "unat (of_nat (28 + length bs) :: u16) = 28 + length bs"
        unfolding unat_of_nat by simp
      then have n': "unat (28 + of_nat (length bs) :: u16) = 28 + length bs"
        by simp
      have cut: "take (28 + length bs) (memcpy_at buf 28 bs) = enc_data reply @ bs"
        using lb b(3) pl l by (simp add: memcpy_at_def)
      let ?d = "if nanotorrent_peer_is_local K peer then linklocal_allnodes_mcast K else peer_ip peer"
      have "nanotorrent_peer_handle_data_request K mem datalen peer s =
          Some (emit (UdpSendTo PeerSocket (enc_data reply @ bs) ?d NANOTORRENT_PEER_PORT) t)"
        using True v w r b(1) n' cut
        by (simp add: nanotorrent_peer_handle_data_request_def u nanotorrent_peer_send_message_def
            nanotorrent_peer_send_local_multicast_def flip: assms(5,6))
      then show ?thesis
        using t b True
        by (intro exI [of _ "emit (UdpSendTo PeerSocket (enc_data reply @ bs) ?d NANOTORRENT_PEER_PORT) t"]
            exI [of _ "[UdpSendTo PeerSocket (enc_data reply @ bs) ?d NANOTORRENT_PEER_PORT]"])
          (auto simp: reply_def)
    qed
  qed
qed

text \<open>The message the demonstration peer is asked with: 50 bytes of piece 0 from byte 16 on.\<close>

definition demo_request :: "u8 list" where
  "demo_request = enc_data \<lparr>data_header = \<lparr>msg_type = NANOTORRENT_PEER_DATA_REQUEST, msg_info_hash = replicate 20 1, msg_have = 0\<rparr>,
     piece_index = 0, data_start = 16\<rparr>"

lemma demo_request_parts: "length demo_request = 28" "piece_index (dec_data demo_request) = 0" "data_start (dec_data demo_request) = 16"
proof -
  have ok: "header_ok \<lparr>msg_type = NANOTORRENT_PEER_DATA_REQUEST, msg_info_hash = replicate 20 1, msg_have = 0\<rparr>"
    by (simp add: header_ok_def)
  then show "length demo_request = 28"
    unfolding demo_request_def by (intro data.size_enc) simp
  show "piece_index (dec_data demo_request) = 0" "data_start (dec_data demo_request) = 16"
    unfolding demo_request_def using data.dec_enc ok by simp_all
qed

theorem data_request_reply_witness:
  "\<exists>s' d. nanotorrent_peer_handle_data_request sim_contiki demo_request 28 \<lparr>peer_ip = replicate 16 9\<rparr> demo_start = Some s' \<and>
    outputs s' = outputs demo_start @ [d]"
proof -
  have k: "kernel_ok sim_contiki" "payload_ok sim_contiki" "cfs_reliable sim_contiki"
    using sim_sound by (simp_all add: sound_kernel_def)
  have c: "nanotorrent_piece_is_complete 0 demo_start"
    by (simp add: is_complete_iff valid_iff bits_1)
  have p: "udp_payload sim_contiki = 100" "own_content sim_contiki demo_start = replicate 700 7"
    by (simp_all add: own_content_def sim_contiki_def)
  obtain s' ds where r: "nanotorrent_peer_handle_data_request sim_contiki demo_request 28 \<lparr>peer_ip = replicate 16 9\<rparr> demo_start = Some s'"
      "outputs s' = outputs demo_start @ ds" "ds \<noteq> []" "ds = [] \<or> (\<exists>d. ds = [d])"
    using data_request_reply [OF k(1,2) demo_start_inv(1), of demo_request 0 16 28 "\<lparr>peer_ip = replicate 16 9\<rparr>"] c k(3) p
    by (auto simp: demo_request_parts piece_len_def piece_off_def)
  then show ?thesis by auto
qed

section \<open>Messages that must have no effect\<close>

text \<open>
  Messages for another torrent are ignored, and data for a piece that is complete already is not stored. A
  datagram with another info hash changes nothing and sends nothing; a data reply for a complete piece
  leaves the file, the requests and the timers alone.
\<close>

theorem peer_ignores_stale_data:
  assumes "25 \<le> length mem" "length (info_hash s) = 20"
  shows "(take 20 (drop 1 mem) \<noteq> info_hash s \<longrightarrow> nanotorrent_peer_handle_message K context src dest mem datalen s = Some s) \<and>
    (28 \<le> length mem \<and> nanotorrent_piece_is_complete (piece_index (dec_data (take 28 mem))) s \<longrightarrow>
      nanotorrent_peer_handle_data_reply K context mem datalen peer s = Some s)"
proof -
  have u: "nanotorrent_unpack_peer_message_header (mem, 0) = Some (dec_header (take 25 mem), (mem, 25))"
    using header.parse_Some [of 0 mem] assms(1) by simp
  have h: "msg_info_hash (dec_header (take 25 mem)) = take 20 (drop 1 mem)"
    by (simp add: dec_header_def drop_take)
  have "sha1_cmp (info_hash s) (take 20 (drop 1 mem)) \<longleftrightarrow> info_hash s = take 20 (drop 1 mem)"
    using assms by (intro sha1_cmp_iff) simp_all
  then have "take 20 (drop 1 mem) \<noteq> info_hash s \<longrightarrow> nanotorrent_peer_handle_message K context src dest mem datalen s = Some s"
    using h by (auto simp: nanotorrent_peer_handle_message_def u)
  moreover have "nanotorrent_peer_handle_data_reply K context mem datalen peer s = Some s"
    if "28 \<le> length mem" "nanotorrent_piece_is_complete (piece_index (dec_data (take 28 mem))) s"
    using data.parse_Some [of 0 mem] that
    by (simp add: nanotorrent_peer_handle_data_reply_def nanotorrent_peer_data_receiver_def Let_def)
  ultimately show ?thesis by blast
qed

theorem peer_ignores_stale_data_witness:
  "nanotorrent_peer_handle_message sim_contiki used_context (replicate 16 7) (replicate 16 8) (replicate 30 2) 30 demo_start = Some demo_start \<and>
   nanotorrent_peer_handle_data_reply sim_contiki used_context demo_request 28 \<lparr>peer_ip = replicate 16 9\<rparr> demo_start = Some demo_start"
proof -
  have c: "nanotorrent_piece_is_complete 0 demo_start"
    by (simp add: is_complete_iff valid_iff bits_1)
  have "take 20 (drop 1 (replicate 30 2)) \<noteq> info_hash demo_start"
    by simp
  then show ?thesis
    using peer_ignores_stale_data [of "replicate 30 2" demo_start sim_contiki used_context "replicate 16 7" "replicate 16 8" 30]
      peer_ignores_stale_data [of demo_request demo_start sim_contiki used_context _ _ 28 "\<lparr>peer_ip = replicate 16 9\<rparr>"] c
    by (simp add: demo_request_parts)
qed

section \<open>Where the code goes wrong\<close>

text \<open>
  C38: a restart can dereference a null pointer. \<^verbatim>\<open>nanotorrent_peer_init\<close> empties the list of peers but not the
  pending pieces: when a piece was being requested at the time, the first data reply for it after the restart finds
  no connection that requests it, and the code uses the null pointer it gets.
\<close>

theorem restart_keeps_pending_pieces:
  assumes "nanotorrent_peer_has_request i s" "\<not> nanotorrent_piece_is_complete i s"
  shows "nanotorrent_peer_data_receiver K peer i start len (nanotorrent_peer_init K s) = None"
proof -
  have "\<not> nanotorrent_piece_is_complete i (nanotorrent_peer_init K s)"
    using assms(2) by (simp add: is_complete_iff valid_iff)
  then show ?thesis
    using assms(1) by (simp add: nanotorrent_peer_data_receiver_def nanotorrent_peer_has_request_def nanotorrent_peer_find_request_def)
qed

theorem restart_keeps_pending_pieces_witness:
  "nanotorrent_peer_data_receiver sim_contiki \<lparr>peer_ip = []\<rparr> 1 0 10 (nanotorrent_peer_init sim_contiki (demo_start\<lparr>pending_pieces := 3\<rparr>)) = None"
  by (rule restart_keeps_pending_pieces)
    (simp_all add: nanotorrent_peer_has_request_def bits_get bits_3 is_complete_iff bits_1)

text \<open>
  A closed connection is sent one more message. When a connection times out in a round in which the own
  heartbeat is due, the code closes it, tells the peer so, and then sends it a HAVE message, which makes the
  peer accept the connection again.
\<close>

theorem timed_out_peer_gets_have:
  assumes "kernel_ok K" "peer_inv K s" "c \<in> set (peers s)"
    and "etimer_expired K (now s) (conn_heartbeat (conns s c))" "etimer_expired K (now s) (heartbeat s)"
    and "\<not> nanotorrent_peer_is_local K (conn_peer_info (conns s c))"
  shows "\<exists>s'. peer_loop_body K c s = Some s' \<and> c \<notin> set (peers s') \<and>
    outputs s' = outputs s @ [ProcessPost MainProcess peer_event,
      UdpSendTo PeerSocket (enc_header (nanotorrent_peer_make_header NANOTORRENT_PEER_CLOSE s))
        (peer_ip (conn_peer_info (conns s c))) NANOTORRENT_PEER_PORT,
      UdpSendTo PeerSocket (enc_header (nanotorrent_peer_make_header NANOTORRENT_PEER_HAVE s))
        (peer_ip (conn_peer_info (conns s c))) NANOTORRENT_PEER_PORT]"
proof -
  have n: "net_inv K s" "pending_ok s"
    using assms(2) by (simp_all add: peer_inv_def)
  then have d: "distinct (peers s)"
    by (simp add: net_inv_def links_ok_def)
  from disconnect_conn_outcome [OF assms(1) n assms(3)] obtain t where
    t: "nanotorrent_peer_disconnect_conn K c s = Some t" "net_inv K t" "same_store s t" "peers t = remove1 c (peers s)"
      "\<not> has_request (conns t c)" "conn_peer_info (conns t c) = conn_peer_info (conns s c)" "info_hash t = info_hash s"
      "now t = now s" "heartbeat t = heartbeat s"
      "outputs t = outputs s @ [ProcessPost MainProcess peer_event, UdpSendTo PeerSocket
        (enc_header (nanotorrent_peer_make_header NANOTORRENT_PEER_CLOSE s)) (peer_ip (conn_peer_info (conns s c))) NANOTORRENT_PEER_PORT]"
    by blast
  have h: "nanotorrent_peer_make_header NANOTORRENT_PEER_HAVE t = nanotorrent_peer_make_header NANOTORRENT_PEER_HAVE s"
    using t(3,7) by (simp add: nanotorrent_peer_make_header_def nanotorrent_piece_have_def same_store_def)
  have "peer_loop_body K c s = nanotorrent_peer_send_have (conn_peer_info (conns s c)) t"
    using assms(4-6) t by (simp add: peer_loop_body_def)
  then show ?thesis
    using send_have_eq [OF net_inv_fits(2) [OF t(2)]] h t(4,10) d by simp
qed

theorem timed_out_peer_gets_have_witness:
  "\<exists>s'. peer_loop_body sim_contiki 5 (demo_peer_state\<lparr>now := 200\<rparr>) = Some s' \<and> length (outputs s') = 3"
proof -
  have k: "kernel_ok sim_contiki"
    using sim_sound by (simp add: sound_kernel_def)
  have "peer_inv sim_contiki (demo_peer_state\<lparr>now := 200\<rparr>)"
    using demo_peer_inv by simp
  moreover have "5 \<in> set (peers (demo_peer_state\<lparr>now := 200\<rparr>))" "outputs (demo_peer_state\<lparr>now := 200\<rparr>) = []"
    by (simp_all add: demo_peer_state_def)
  moreover have "etimer_expired sim_contiki (now (demo_peer_state\<lparr>now := 200\<rparr>)) (conn_heartbeat (conns (demo_peer_state\<lparr>now := 200\<rparr>) 5))"
    "etimer_expired sim_contiki (now (demo_peer_state\<lparr>now := 200\<rparr>)) (heartbeat (demo_peer_state\<lparr>now := 200\<rparr>))"
    by (simp_all add: sim_simps) (simp_all add: demo_peer_state_def demo_conn_def)
  moreover have "\<not> nanotorrent_peer_is_local sim_contiki (conn_peer_info (conns (demo_peer_state\<lparr>now := 200\<rparr>) 5))"
    using replicate_two [of "0 :: u8"]
    by (simp add: nanotorrent_peer_is_local_def sim_simps) (simp add: demo_peer_state_def demo_conn_def)
  ultimately obtain s' where "peer_loop_body sim_contiki 5 (demo_peer_state\<lparr>now := 200\<rparr>) = Some s'"
    "outputs s' = outputs (demo_peer_state\<lparr>now := 200\<rparr>) @ [ProcessPost MainProcess peer_event,
      UdpSendTo PeerSocket (enc_header (nanotorrent_peer_make_header NANOTORRENT_PEER_CLOSE (demo_peer_state\<lparr>now := 200\<rparr>)))
        (peer_ip (conn_peer_info (conns (demo_peer_state\<lparr>now := 200\<rparr>) 5))) NANOTORRENT_PEER_PORT,
      UdpSendTo PeerSocket (enc_header (nanotorrent_peer_make_header NANOTORRENT_PEER_HAVE (demo_peer_state\<lparr>now := 200\<rparr>)))
        (peer_ip (conn_peer_info (conns (demo_peer_state\<lparr>now := 200\<rparr>) 5))) NANOTORRENT_PEER_PORT]"
    using timed_out_peer_gets_have [OF k] by blast
  then show ?thesis
    by (simp add: demo_peer_state_def)
qed

text \<open>
  Offsets above 255 are cut to 8 bits. When a data reply is accepted and bytes are written, they are written at the
  reply's start modulo 256 from the beginning of the piece, because \<^verbatim>\<open>nanotorrent_piece_write\<close> takes the offset
  as a \<^verbatim>\<open>uint8_t\<close>: in pieces of more than 256 bytes the data of later blocks overwrites the first ones.
\<close>

theorem data_lands_modulo_256:
  assumes "kernel_ok K" "net_inv K s" "28 \<le> length mem" "28 \<le> unat datalen" "unat datalen \<le> length mem"
    and "nanotorrent_piece_write K i (ucast (st :: u16)) (drop 28 mem) (datalen - 28) s = Some (w, s')" "0 \<le> w"
  shows "unat st mod 256 + nat w \<le> piece_len (the_info s) (unat i) \<and>
    (\<forall>k < nat w. cfs_content K (files s') (own_file s') ! (piece_off (the_info s) (unat i) + unat st mod 256 + k) = mem ! (28 + k))"
proof -
  have low: "unat (ucast st :: u8) = unat st mod 256"
    by (simp add: unsigned_ucast_eq take_bit_eq_mod)
  have n: "unat (datalen - 28) = unat datalen - 28"
    using assms(4) by (simp add: unat_sub_fits)
  have k: "cfs_ok K"
    using assms(1) by (simp add: kernel_ok_def)
  have "min (unat (datalen - 28)) (piece_len (the_info s) (unat i)) \<le> length (drop 28 mem)"
    using n assms(5) by simp
  from piece_write_outcome [OF k net_inv_fits(6) [OF assms(2)] this, of "ucast st"] obtain r f where
    w: "nanotorrent_piece_write K i (ucast st) (drop 28 mem) (datalen - 28) s = Some (r, s\<lparr>files := f\<rparr>)"
      "0 \<le> r \<longrightarrow> unat (ucast st :: u8) + nat r \<le> piece_len (the_info s) (unat i) \<and> nat r \<le> unat (datalen - 28) \<and>
       (\<forall>k < nat r. cfs_content K f (own_file s) ! (piece_off (the_info s) (unat i) + unat (ucast st :: u8) + k) = drop 28 mem ! k)"
    by blast
  have e: "w = r" "files s' = f" "own_file s' = own_file s"
    using w(1) assms(6) by auto
  have "nat r \<le> unat datalen - 28"
    using w(2) n assms(7) e(1) by simp
  then have "28 + k \<le> length mem" if "k < nat r" for k
    using that assms(5) by linarith
  then have "drop 28 mem ! k = mem ! (28 + k)" if "k < nat r" for k
    using assms(3) by (intro nth_drop)
  then show ?thesis
    using w(2) assms(7) unfolding e low by simp
qed

lemma low_256: "ucast (256 :: u16) = (0 :: u8)"
  by (intro unsigned_word_eqI [where ?'a = nat]) (simp add: unsigned_ucast_eq take_bit_eq_mod)

theorem data_lands_modulo_256_witness:
  "\<exists>w s'. nanotorrent_piece_write sim_contiki 0 (ucast (256 :: u16)) (drop 28 (replicate 60 9)) (60 - 28) demo_peer_state = Some (w, s') \<and>
    cfs_content sim_contiki (files s') (own_file s') ! 0 = 9"
proof -
  have k: "kernel_ok sim_contiki" "cfs_ok sim_contiki" "cfs_reliable sim_contiki" "cfs_writes_some sim_contiki"
    using sim_sound by (simp_all add: sound_kernel_def kernel_ok_def)
  have n: "net_inv sim_contiki demo_peer_state"
    using demo_peer_inv by (simp add: peer_inv_def)
  have v: "nanotorrent_piece_is_valid 0 demo_peer_state"
    by (simp add: valid_iff)
  obtain w s' where w: "nanotorrent_piece_write sim_contiki 0 (ucast (256 :: u16)) (drop 28 (replicate 60 9)) (60 - 28) demo_peer_state = Some (w, s')"
    using piece_write_outcome [OF k(2) net_inv_fits(6) [OF n], of "60 - 28" 0 "drop 28 (replicate 60 9)" "ucast (256 :: u16)"]
    by (auto simp: piece_len_def demo_info_def)
  have "nanotorrent_piece_write sim_contiki 0 0 (drop 28 (replicate 60 9)) (60 - 28) demo_peer_state = Some (w, s')"
    using w unfolding low_256 .
  from piece_write_positive [OF k(3,4) net_inv_fits(6,8) [OF n] v _ _ this] have "0 < w"
    by simp
  then have "cfs_content sim_contiki (files s') (own_file s') ! 0 = 9"
    using data_lands_modulo_256 [OF k(1) n _ _ _ w] by (auto simp: piece_off_def dest!: spec [of _ 0])
  then show ?thesis
    using w by blast
qed

text \<open>
  C39: no message changes the end of a large piece. Offsets are cut to 8 bits on the way to the file, so whatever a
  datagram says, the bytes it carries land in the first 255 bytes of a piece or less than its data length behind them: in
  every reachable state, a message leaves every byte that the file has behind that alone. When pieces are larger, a byte there that is wrong
  in the file stays wrong for ever, and the piece cannot be completed.
\<close>

theorem large_piece_tail_kept:
  assumes "sound_kernel K" "reach (peer_started K s0) (peer_step K) s" "datagram_ok mem datalen" "length (next_block context) = 64"
    and "nanotorrent_peer_handle_message K context src dest mem datalen s = Some s'"
    and "255 + (unat datalen - 28) \<le> k" "k < piece_len (the_info s) j" "piece_off (the_info s) j + k < length (own_content K s)"
  shows "own_content K s' ! (piece_off (the_info s) j + k) = own_content K s ! (piece_off (the_info s) j + k)"
proof -
  have k: "kernel_ok K" "payload_ok K"
    using assms(1) by (simp_all add: sound_kernel_def)
  have "tail_kept K (255 + (unat datalen - 28)) s s'"
    using handle_message_outcome [OF k peer_reach_inv [OF assms(1,2)] assms(4,3), of src dest] assms(5) by auto
  then show ?thesis
    using assms(6-8) by (simp add: tail_kept_def)
qed

theorem large_piece_tail_kept_witness:
  "\<exists>s s' :: (sim_file, sim_memb, sim_timer) peer_state. own_content sim_contiki s' ! 255 = own_content sim_contiki s ! 255 \<and>
    own_content sim_contiki s ! 255 = 7 \<and>
    nanotorrent_peer_handle_message sim_contiki used_context (replicate 16 7) (replicate 16 8) (replicate 100 1) 28 s = Some s'"
proof -
  obtain s where s: "reach (peer_started sim_contiki demo_start) (peer_step sim_contiki) s" "the_info s = demo_torrent"
    "own_content sim_contiki s = replicate 700 7"
    using demo_reach by blast
  have d: "datagram_ok (replicate 100 1) 28" "length (next_block used_context) = 64"
    by (simp_all add: datagram_ok_def NANOTORRENT_PEER_DATA_REPLY_def)
  have k: "kernel_ok sim_contiki" "payload_ok sim_contiki"
    using sim_sound by (simp_all add: sound_kernel_def)
  obtain s' where s': "nanotorrent_peer_handle_message sim_contiki used_context (replicate 16 7) (replicate 16 8) (replicate 100 1) 28 s = Some s'"
    using handle_message_outcome [OF k peer_reach_inv [OF sim_sound s(1)] d(2,1)] by blast
  have "own_content sim_contiki s' ! 255 = own_content sim_contiki s ! 255"
    using large_piece_tail_kept [OF sim_sound s(1) d s', of 255 0] s(2,3) by (simp add: piece_len_def piece_off_def)
  then show ?thesis
    using s(3) s' by (intro exI [of _ s] exI [of _ s']) simp
qed

lemma write_fails:
  assumes "\<forall>fd bs f. fst (cfs_write K fd bs f) \<le> 0" "nanotorrent_piece_write K i off buffer n s = Some (w, s')"
  shows "w \<le> 0"
proof -
  have "r \<le> 0" if "cfs_write K fd bs f = (r, f')" for fd bs f r f'
    using assms(1) that by (metis fst_conv)
  then show ?thesis
    using assms(2) by (auto simp: nanotorrent_piece_write_def Let_def split: if_splits prod.splits)
qed

text \<open>
  A data reply for the start of a missing piece that nobody requests, of which nothing is written: the retry of the new request is never
  started, and the next timer event calls its stop callback with a null pointer.
\<close>

lemma unwritten_reply_faults:
  assumes "kernel_ok K" "peer_inv K s" "armed s" "length (next_block context) = 64" "28 \<le> unat datalen" "unat datalen \<le> length mem"
    and "take 20 (drop 1 mem) = info_hash s" "mem ! 0 = NANOTORRENT_PEER_DATA_REPLY"
    and "i = piece_index (dec_data (take 28 mem))" "data_start (dec_data (take 28 mem)) = 0"
    and "nanotorrent_piece_is_valid i s" "\<not> nanotorrent_piece_is_complete i s" "\<not> nanotorrent_peer_has_request i s"
    and "nanotorrent_peer_find K \<lparr>peer_ip = src\<rparr> s = None" "memb_alloc K (peers_out s) = (Some c, m)"
    and "\<And>t x. etimer_expired K t (etimer_stop K x)"
    and "\<not> etimer_expired K (now s) (etimer_restart K (now s)
      (etimer_set K (now s) (NANOTORRENT_PEER_HEARTBEAT_TIMEOUT K) (conn_heartbeat (conns s c))))"
    and "unat datalen = 28 \<or> (\<forall>fd bs f. fst (cfs_write K fd bs f) \<le> 0)"
  shows "\<exists>s'. nanotorrent_peer_handle_message K context src dest mem datalen s = Some s' \<and>
    nanotorrent_peer_process K PROCESS_EVENT_TIMER s' = None"
proof -
  have long: "28 \<le> length mem"
    using assms(5,6) by simp
  define peer where "peer = \<lparr>peer_ip = src\<rparr>"
  have k: "cfs_ok K" "list_ok K" "net_ok K" "memb_ok K"
    using assms(1) by (simp_all add: kernel_ok_def)
  have n: "net_inv K s"
    using assms(2) by (simp add: peer_inv_def)
  have lk: "links_ok K s"
    using n by (simp add: net_inv_def)
  have "alloc_conn K PeersOut s = (Some c, s\<lparr>peers_out := m\<rparr>)"
    using assms(15) by (simp add: alloc_conn_def)
  note al = this alloc_conn_Some(1) [OF k(4) lk this]
  define s1 where "s1 = nanotorrent_peer_add K c (set_conn c (\<lambda>x. x\<lparr>conn_peer_info := peer\<rparr>) (s\<lparr>peers_out := m\<rparr>))"
  define s2 where "s2 = set_conn c (\<lambda>x. x\<lparr>request_offset := 0\<rparr>) (set_conn c (\<lambda>x. x\<lparr>request_index := i\<rparr>) s1)"
  define s3 where "s3 = nanotorrent_peer_request_init K c s2"
  have cn: "nanotorrent_peer_connect K peer s = (Some c, s1)"
    using assms(14) al(1) by (simp add: nanotorrent_peer_connect_def nanotorrent_peer_connect_with_def s1_def peer_def)
  have h1: "\<not> has_request (conns s1 c)"
    by (simp add: s1_def nanotorrent_peer_add_def Let_def)
  have rc: "nanotorrent_peer_data_receiver K peer i 0 (datalen - 28) s = Some (Some c, s3)"
    using assms(12,13) cn h1 by (simp add: nanotorrent_peer_data_receiver_def Let_def s3_def s2_def)
  have f3: "peers s3 = c # peers s" "now s3 = now s" "has_request (conns s3 c)" "conn_peer_info (conns s3 c) = peer"
    "conn_heartbeat (conns s3 c) = etimer_set K (now s) (NANOTORRENT_PEER_HEARTBEAT_TIMEOUT K) (conn_heartbeat (conns s c))"
    "request_retry (conns s3 c) = nanotorrent_retry_init K (request_retry (conns s c)) (NANOTORRENT_PEER_RETRY_TIMEOUT K)
       nanotorrent_peer_request_retry_again nanotorrent_peer_request_retry_stop"
    using al(2) by (simp_all add: s3_def s2_def s1_def nanotorrent_peer_request_init_def nanotorrent_peer_add_def Let_def
        list_push_new [OF k(2)])
  from data_receiver_outcome [OF assms(1-3,11), of peer 0 "datalen - 28"] rc have i3: "peer_inv K s3" "same_store s s3"
    "unat i \<notin> bits (own_have s3)"
    by (auto simp: same_store_def)
  then have n3: "net_inv K s3"
    by (simp add: peer_inv_def)
  have n28: "unat (datalen - 28) = unat datalen - 28"
    using assms(5) by (simp add: unat_sub_fits)
  have "min (unat (datalen - 28)) (piece_len (the_info s3) (unat i)) \<le> length (drop 28 mem)"
    using diff_le_mono [OF assms(6), of 28] n28 by (simp add: min_le_iff_disj)
  from piece_write_outcome [OF k(1) net_inv_fits(6) [OF n3] this, of 0] obtain w f where
    w: "nanotorrent_piece_write K i 0 (drop 28 mem) (datalen - 28) s3 = Some (w, s3\<lparr>files := f\<rparr>)" "0 \<le> w \<longrightarrow> nat w \<le> unat (datalen - 28)"
      "writes_piece (the_info s3) (unat i) (own_content K s3) (cfs_content K f (own_file s3))"
    by auto
  have w0: "w \<le> 0"
    using assms(18)
  proof
    assume "unat datalen = 28"
    then show ?thesis
      using w(2) n28 by linarith
  next
    assume "\<forall>fd bs f. fst (cfs_write K fd bs f) \<le> 0"
    then show ?thesis
      using write_fails w(1) by blast
  qed
  define s4 where "s4 = s3\<lparr>files := f\<rparr>"
  have i4: "peer_inv K s4"
    unfolding s4_def by (rule write_outcome_have [OF assms(1) i3(1,3) w(1,3)])
  have f4: "peers s4 = peers s3" "conns s4 = conns s3" "now s4 = now s3"
    by (simp_all add: s4_def)
  have u: "nanotorrent_unpack_peer_data (mem, 0) = Some (dec_data (take 28 mem), (mem, 28))"
    "nanotorrent_unpack_peer_message_header (mem, 0) = Some (dec_header (take 25 mem), (mem, 25))"
    using data.parse_Some [of 0 mem] header.parse_Some [of 0 mem] long by simp_all
  have hd: "msg_type (dec_header (take 25 mem)) = NANOTORRENT_PEER_DATA_REPLY" "msg_info_hash (dec_header (take 25 mem)) = info_hash s"
    using long assms(7,8) by (simp_all add: dec_header_def drop_take)
  have dr: "nanotorrent_peer_handle_data_reply K context mem datalen peer s = Some s4"
    using assms(9-11) rc w(1) w0 by (simp add: nanotorrent_peer_handle_data_reply_def u s4_def)
  have "ip6addr_cmp K (peer_ip peer) (peer_ip peer)"
    using k(3) by (simp add: net_ok_def)
  then have ac: "nanotorrent_peer_accept K peer s4 = (Some c, s4)"
    by (simp add: nanotorrent_peer_accept_def nanotorrent_peer_connect_with_def nanotorrent_peer_find_def f4 f3
        nanotorrent_peer_info_cmp_def)
  have n4: "net_inv K s4" "c \<in> set (peers s4)"
    using i4 f3 f4 by (simp_all add: peer_inv_def)
  from update_have_outcome [OF n4, of "msg_have (dec_header (take 25 mem))"] obtain s5 where
    s5: "nanotorrent_peer_update_have K c (msg_have (dec_header (take 25 mem))) s4 = Some s5" "same_requests s4 s5"
      "request_retry (conns s5 c) = request_retry (conns s4 c)"
      "conn_heartbeat (conns s5 c) = etimer_restart K (now s4) (conn_heartbeat (conns s4 c))" "now s5 = now s4"
    by blast
  have f5: "has_request (conns s5 c)" "peers s5 = c # peers s"
    using s5(2) f3 f4 by (simp_all add: same_requests_def)
  have "sha1_cmp (info_hash s) (info_hash s)"
    using net_inv_fits(2) [OF n] by simp
  then have m: "nanotorrent_peer_handle_message K context src dest mem datalen s = Some s5"
    using hd dr ac s5(1) f5(1)
    unfolding nanotorrent_peer_handle_message_def Let_def peer_def [symmetric]
    by (simp add: u nanotorrent_peer_request_next_def NANOTORRENT_PEER_DATA_REPLY_def NANOTORRENT_PEER_CLOSE_def)
  have "process_request_retry K c s5 = None"
    using assms(16) by (simp add: process_request_retry_def s5(3) f4 f3 nanotorrent_retry_process_def nanotorrent_retry_check_def
        nanotorrent_retry_next_def nanotorrent_retry_init_def nanotorrent_retry_stop_def Let_def)
  then have "peer_loop_body K c s5 = None"
    using assms(17) s5(4,5) f3 f4 f5(1) by (simp add: peer_loop_body_def)
  then have "nanotorrent_peer_process K PROCESS_EVENT_TIMER s5 = None"
    using f5(2) by (simp add: nanotorrent_peer_process_def peer_process_round_def)
  then show ?thesis
    using m by blast
qed

text \<open>A file system that is full, or fails, makes every data reply of this kind stop the program, however much data it carries.\<close>

lemma failed_write_faults:
  assumes "kernel_ok K" "\<forall>fd bs f. fst (cfs_write K fd bs f) \<le> 0"
    and "peer_inv K s" "armed s" "length (next_block context) = 64" "28 \<le> unat datalen" "unat datalen \<le> length mem"
    and "take 20 (drop 1 mem) = info_hash s" "mem ! 0 = NANOTORRENT_PEER_DATA_REPLY"
    and "i = piece_index (dec_data (take 28 mem))" "data_start (dec_data (take 28 mem)) = 0"
    and "nanotorrent_piece_is_valid i s" "\<not> nanotorrent_piece_is_complete i s" "\<not> nanotorrent_peer_has_request i s"
    and "nanotorrent_peer_find K \<lparr>peer_ip = src\<rparr> s = None" "memb_alloc K (peers_out s) = (Some c, m)"
    and "\<And>t x. etimer_expired K t (etimer_stop K x)"
    and "\<not> etimer_expired K (now s) (etimer_restart K (now s)
      (etimer_set K (now s) (NANOTORRENT_PEER_HEARTBEAT_TIMEOUT K) (conn_heartbeat (conns s c))))"
  shows "\<exists>s'. nanotorrent_peer_handle_message K context src dest mem datalen s = Some s' \<and>
    nanotorrent_peer_process K PROCESS_EVENT_TIMER s' = None"
  using assms(2) by (intro unwritten_reply_faults [OF assms(1,3-18)]) simp

text \<open>
  C36: an empty data reply stops the program. A data reply without data, for the start of a missing piece that nobody
  requests, makes the code connect to the sender and mark the piece as requested from it, but the write of no bytes
  returns 0 and the retry of the request is never started: its callback data is still null. On a system where a
  stopped timer counts as expired (as in Contiki), the next timer event calls the stop callback with that null
  pointer.
\<close>

theorem empty_reply_faults:
  assumes "kernel_ok K" "peer_inv K s" "armed s" "length (next_block context) = 64" "28 \<le> length mem"
    and "take 20 (drop 1 mem) = info_hash s" "mem ! 0 = NANOTORRENT_PEER_DATA_REPLY"
    and "i = piece_index (dec_data (take 28 mem))" "data_start (dec_data (take 28 mem)) = 0"
    and "nanotorrent_piece_is_valid i s" "\<not> nanotorrent_piece_is_complete i s" "\<not> nanotorrent_peer_has_request i s"
    and "nanotorrent_peer_find K \<lparr>peer_ip = src\<rparr> s = None" "memb_alloc K (peers_out s) = (Some c, m)"
    and "\<And>t x. etimer_expired K t (etimer_stop K x)"
    and "\<not> etimer_expired K (now s) (etimer_restart K (now s)
      (etimer_set K (now s) (NANOTORRENT_PEER_HEARTBEAT_TIMEOUT K) (conn_heartbeat (conns s c))))"
  shows "\<exists>s'. nanotorrent_peer_handle_message K context src dest mem 28 s = Some s' \<and>
    nanotorrent_peer_process K PROCESS_EVENT_TIMER s' = None"
  by (rule unwritten_reply_faults [OF assms(1-4) _ _ assms(6-16)]) (use assms(5) in simp_all)

definition demo_empty_reply :: "u8 list" where
  "demo_empty_reply = enc_data \<lparr>data_header = \<lparr>msg_type = NANOTORRENT_PEER_DATA_REPLY, msg_info_hash = replicate 20 1, msg_have = 0\<rparr>,
     piece_index = 1, data_start = 0\<rparr>"

lemma demo_empty_reply_parts: "length demo_empty_reply = 28" "piece_index (dec_data demo_empty_reply) = 1"
  "data_start (dec_data demo_empty_reply) = 0" "take 20 (drop 1 demo_empty_reply) = replicate 20 1" "demo_empty_reply ! 0 = NANOTORRENT_PEER_DATA_REPLY"
proof -
  have ok: "header_ok \<lparr>msg_type = NANOTORRENT_PEER_DATA_REPLY, msg_info_hash = replicate 20 1, msg_have = 0\<rparr>"
    by (simp add: header_ok_def)
  then show "length demo_empty_reply = 28"
    unfolding demo_empty_reply_def by (intro data.size_enc) simp
  show "piece_index (dec_data demo_empty_reply) = 1" "data_start (dec_data demo_empty_reply) = 0"
    unfolding demo_empty_reply_def using data.dec_enc ok by simp_all
  show "take 20 (drop 1 demo_empty_reply) = replicate 20 1" "demo_empty_reply ! 0 = NANOTORRENT_PEER_DATA_REPLY"
    unfolding demo_empty_reply_def enc_data_def enc_header_def by simp_all
qed

theorem empty_reply_faults_witness:
  "\<exists>s'. nanotorrent_peer_handle_message sim_contiki used_context (replicate 16 9) (replicate 16 8) demo_empty_reply 28 demo_start = Some s' \<and>
    nanotorrent_peer_process sim_contiki PROCESS_EVENT_TIMER s' = None"
proof (rule empty_reply_faults [where i = 1 and c = 5 and m = "(5, 5, [5])"])
  show "kernel_ok sim_contiki"
    using sim_sound by (simp add: sound_kernel_def)
  show "memb_alloc sim_contiki (peers_out demo_start) = (Some 5, (5, 5, [5]))"
    by (simp add: sim_simps sim_alloc_def demo_start_def upt_rec)
  show "take 20 (drop 1 demo_empty_reply) = info_hash demo_start"
    using demo_empty_reply_parts(4) by simp
qed (simp_all add: demo_start_inv demo_empty_reply_parts valid_iff is_complete_iff bits_1 nanotorrent_peer_has_request_def bits_get
    nanotorrent_peer_find_def sim_simps NANOTORRENT_PEER_HEARTBEAT_TIMEOUT_def clock_time_def)

text \<open>
  C37: short data replies are read past their end. The length of a datagram is not compared with the length of the header: for a
  data reply of fewer than 28 bytes the data length wraps around to at least 65508, and when the piece has room for more
  bytes than the network buffer holds behind the header, the code reads beyond the buffer.
\<close>

theorem short_reply_overreads:
  assumes "kernel_ok K" "cfs_reliable K" "peer_inv K s" "armed s" "28 \<le> length mem" "length mem < 2 ^ 16" "unat datalen < 28"
    and "i = piece_index (dec_data (take 28 mem))" "data_start (dec_data (take 28 mem)) = 0"
    and "nanotorrent_piece_is_valid i s" "\<not> nanotorrent_piece_is_complete i s" "\<not> nanotorrent_peer_has_request i s"
    and "nanotorrent_peer_find K peer s = None" "memb_alloc K (peers_out s) = (Some c, m)"
    and "length mem - 28 < piece_len (the_info s) (unat i)"
  shows "nanotorrent_peer_handle_data_reply K context mem datalen peer s = None"
proof -
  define len where "len = datalen - 28"
  have "unat len = 2 ^ 16 + unat datalen - 28"
    using assms(7) unat_u16_less [of datalen] by (simp add: len_def unat_sub_if_size word_size)
  then have len: "65508 \<le> unat len"
    by simp
  have h1: "\<not> has_request (conns (nanotorrent_peer_add K c x) c)" for x :: "('a, 'b, 'c, 'd) peer_state_scheme"
    by (simp add: nanotorrent_peer_add_def Let_def)
  obtain s1 where rc: "nanotorrent_peer_data_receiver K peer i 0 len s = Some (Some c, s1)"
    using assms(11-14) h1
    by (simp add: nanotorrent_peer_data_receiver_def nanotorrent_peer_connect_def nanotorrent_peer_connect_with_def
        alloc_conn_def Let_def)
  from data_receiver_outcome [OF assms(1,3,4,10), of peer 0 len] rc have i1: "peer_inv K s1" "same_store s s1"
    by auto
  then have d: "the_info s1 = the_info s" and n1: "net_inv K s1"
    by (simp_all add: same_store_def peer_inv_def)
  have v1: "nanotorrent_piece_is_valid i s1"
    using assms(10) d by (simp add: valid_iff)
  note sz = unat_piece_size [OF net_inv_fits(6) [OF n1] v1]
  have "unat (nanotorrent_piece_size i s1) \<noteq> 0"
    using sz assms(15) d by simp
  then have ps: "\<not> nanotorrent_piece_size i s1 \<le> 0"
    by (simp add: word_le_nat_alt)
  have k: "\<not> unat (min len (nanotorrent_piece_size i s1)) \<le> length mem - 28"
    using len sz assms(6,15) d by (auto simp: min_def word_le_nat_alt)
  have "uint (nanotorrent_piece_offset i s1) = int (unat (nanotorrent_piece_offset i s1))"
    by simp
  then have "0 \<le> fst (cfs_seek K (own_file s1) (uint (nanotorrent_piece_offset i s1)) CFS_SEEK_SET (files s1))"
    using assms(2) unfolding cfs_reliable_def by metis
  then have "nanotorrent_piece_write K i 0 (drop 28 mem) len s1 = None"
    using v1 ps k by (auto simp: nanotorrent_piece_write_def Let_def not_le split: prod.splits)
  moreover have "nanotorrent_unpack_peer_data (mem, 0) = Some (dec_data (take 28 mem), (mem, 28))"
    using data.parse_Some [of 0 mem] assms(5) by simp
  ultimately show ?thesis
    using assms(8-10) rc by (simp add: nanotorrent_peer_handle_data_reply_def len_def)
qed

theorem short_reply_overreads_witness:
  "nanotorrent_peer_handle_data_reply sim_contiki used_context (demo_empty_reply @ replicate 72 0) 10 \<lparr>peer_ip = replicate 16 9\<rparr> demo_start = None"
proof (rule short_reply_overreads [where i = 1 and c = 5 and m = "(5, 5, [5])"])
  show "kernel_ok sim_contiki" "cfs_reliable sim_contiki"
    using sim_sound by (simp_all add: sound_kernel_def)
  show "memb_alloc sim_contiki (peers_out demo_start) = (Some 5, (5, 5, [5]))"
    by (simp add: sim_simps sim_alloc_def demo_start_def upt_rec)
qed (simp_all add: demo_start_inv demo_empty_reply_parts valid_iff is_complete_iff bits_1 nanotorrent_peer_has_request_def bits_get
    nanotorrent_peer_find_def piece_len_def)

end
