(* ===== verification/Swarm_Props.thy ===== *)
theory Swarm_Props
  imports Swarm_Inv Peer_Props
begin

text \<open>
  The properties of the swarm component: the list of known peers, the transitions of the membership and the
  events that announce them, what a reply of the tracker does, and the situations in which the code does not do
  what it means to.
\<close>

section \<open>States for the witnesses\<close>

definition demo_swarm :: "(sim_file, sim_memb, sim_timer) nanotorrent_swarm" where
  "demo_swarm = peer_state.extend demo_start
     (nanotorrent_swarm.fields NANOTORRENT_SWARM_INIT [] (\<lambda>c. \<lparr>peer_ip = replicate 16 0\<rparr>) (20, 5, []) demo_retry 0
       (0, 0) (0, 0) SwarmNotStarted)"

text \<open>A reply with one peer, for the torrent of the witnesses.\<close>

definition demo_reply :: "u8 list" where
  "demo_reply = replicate 20 1 @ [1] @ replicate 16 9"

lemma sim_kernel: "kernel_ok sim_contiki"
  using sim_sound by (simp add: sound_kernel_def)

lemma demo_swarm_fresh: "swarm_fresh sim_contiki demo_swarm"
  by (simp add: swarm_fresh_def demo_swarm_def peer_state.defs nanotorrent_swarm.defs sim_contiki_def NANOTORRENT_MAX_SWARM_PEERS_def)

lemma sim_ready: "ds6_has_global sim_contiki t"
  by (simp add: sim_contiki_def)

lemma demo_swarm_started:
  "\<exists>s. reach (swarm_started sim_contiki demo_swarm) (swarm_step sim_contiki) s \<and> swarm_state s = NANOTORRENT_SWARM_JOINING \<and>
    swarm_pc s = SwarmWaitJoined \<and> rt_num_retries (announce_retry s) = 1 \<and> info_hash s = replicate 20 1 \<and> now s = 0"
proof -
  have e: "info_hash demo_swarm = replicate 20 1" "swarm_pc demo_swarm = SwarmNotStarted" "now demo_swarm = 0"
    by (simp_all add: demo_swarm_def peer_state.defs nanotorrent_swarm.defs)
  obtain s where p: "nanotorrent_swarm_process sim_contiki PROCESS_EVENT_INIT demo_swarm = Some s"
      "swarm_state s = NANOTORRENT_SWARM_JOINING" "swarm_pc s = SwarmWaitJoined"
      "rt_num_retries (announce_retry s) = 1" "info_hash s = replicate 20 1" "now s = 0"
    by (simp add: e nanotorrent_swarm_process_def Let_def nanotorrent_swarm_init_def
      nanotorrent_retry_init_def swarm_op_defs swarm_ready_loop_def nanotorrent_swarm_is_ready_def nanotorrent_swarm_set_ready_def
      nanotorrent_swarm_join_def nanotorrent_swarm_can_join_def nanotorrent_swarm_announce_start_def nanotorrent_retry_start_def
      nanotorrent_retry_next_def announce_send_eq swarm_join_loop_def process_announce_retry_def nanotorrent_retry_process_def
      nanotorrent_retry_check_def sim_simps sim_ready NANOTORRENT_MAX_ANNOUNCE_RETRIES_def NANOTORRENT_ANNOUNCE_RETRY_TIMEOUT_def
      clock_time_def backoff_timeout_def int_one_shl_def)
  then have "reach (swarm_started sim_contiki demo_swarm) (swarm_step sim_contiki) s"
    using demo_swarm_fresh by (intro reach_start) (simp add: swarm_started_def)
  then show ?thesis
    using p by (intro exI [of _ s]) simp
qed

lemma demo_reply_ok: "reply_ok demo_reply" "take 20 demo_reply = replicate 20 1"
  by (simp_all add: reply_ok_def demo_reply_def nth_append)

section \<open>Known peers\<close>

text \<open>
  C31: the list of known peers is consistent in every reachable state. It holds every block once, exactly the
  allocated blocks of its pool, at most five, so that taking a peer off the list and releasing its block belong together
  and no block is lost.
\<close>

theorem swarm_known_peers:
  assumes "kernel_ok K" "reach (swarm_started K s0) (swarm_step K) s"
  shows "distinct (swarm_peers s) \<and> set (swarm_peers s) = memb_allocated K (peer_memb s) \<and> length (swarm_peers s) \<le> 5 \<and>
    swarm_peers (nanotorrent_swarm_pop_peer K s) = tl (swarm_peers s) \<and>
    memb_allocated K (peer_memb (nanotorrent_swarm_pop_peer K s)) = set (tl (swarm_peers s)) \<and>
    nanotorrent_swarm_peek_peer s = (if swarm_peers s = [] then None else Some (swarm_peer_info s (hd (swarm_peers s))))"
proof -
  have k: "memb_ok K" and c: "swarm_core K s"
    using assms(1) swarm_reach_inv [OF assms] by (simp_all add: kernel_ok_def swarm_inv_def)
  have n: "known_ok K s" "known_ok K (nanotorrent_swarm_pop_peer K s)"
    using c pop_peer_outcome(1) [OF assms(1) c] by (simp_all add: swarm_core_def)
  then have "length (swarm_peers s) \<le> 5"
    using known_length(2) [OF k n(1)] by (simp add: NANOTORRENT_MAX_SWARM_PEERS_def)
  moreover have "nanotorrent_swarm_peek_peer s = (if swarm_peers s = [] then None else Some (swarm_peer_info s (hd (swarm_peers s))))"
    by (simp add: nanotorrent_swarm_peek_peer_def split: list.split)
  ultimately show ?thesis
    using n pop_peer_outcome(2) [OF assms(1) c] by (simp add: known_ok_def)
qed

theorem swarm_known_peers_witness:
  "\<exists>s. swarm_state s = NANOTORRENT_SWARM_JOINING \<and> length (swarm_peers (s :: (sim_file, sim_memb, sim_timer) nanotorrent_swarm)) \<le> 5"
  using demo_swarm_started swarm_known_peers [OF sim_kernel] by blast

section \<open>Membership\<close>

text \<open>
  C7: membership moves forward only, and the main process is told. In every reachable state the swarm process
  handles every event without a fault. Other than by its exit, it goes from initializing to joining, which it announces once,
  from joining to left, silently, or from joined to left, which it announces; and when it has left it
  never joins again. A reply of the tracker takes it from joining to joined, and changes no other state.
\<close>

theorem swarm_transitions:
  assumes "kernel_ok K" "reach (swarm_started K s0) (swarm_step K) s"
  shows "(\<forall>ev. \<exists>s'. nanotorrent_swarm_process K ev s = Some s' \<and>
      (ev \<noteq> PROCESS_EVENT_EXIT \<longrightarrow>
        swarm_state s' = swarm_state s \<and> swarm_posts s' = swarm_posts s \<or>
        swarm_state s = NANOTORRENT_SWARM_INIT \<and> swarm_state s' = NANOTORRENT_SWARM_JOINING \<and> swarm_posts s' = swarm_posts s + 1 \<or>
        swarm_state s = NANOTORRENT_SWARM_JOINING \<and> swarm_state s' = NANOTORRENT_SWARM_LEFT \<and> swarm_posts s' = swarm_posts s \<or>
        swarm_state s = NANOTORRENT_SWARM_JOINED \<and> swarm_state s' = NANOTORRENT_SWARM_LEFT \<and> swarm_posts s' = swarm_posts s + 1) \<and>
      (ev = PROCESS_EVENT_EXIT \<longrightarrow> swarm_state s' = NANOTORRENT_SWARM_LEFT)) \<and>
    (\<forall>mem. reply_ok mem \<longrightarrow> (\<exists>s'. nanotorrent_swarm_handle_reply K mem s = Some s' \<and>
      (swarm_state s' = swarm_state s \<or>
       swarm_state s = NANOTORRENT_SWARM_JOINING \<and> swarm_state s' = NANOTORRENT_SWARM_JOINED \<and> swarm_posts s' = swarm_posts s + 1)))"
proof -
  have k: "memb_ok K" and c: "swarm_inv K s" "swarm_core K s"
    using assms(1) swarm_reach_inv [OF assms] by (simp_all add: kernel_ok_def swarm_inv_def)
  have "\<exists>s'. nanotorrent_swarm_process K ev s = Some s' \<and>
      (ev \<noteq> PROCESS_EVENT_EXIT \<longrightarrow>
        swarm_state s' = swarm_state s \<and> swarm_posts s' = swarm_posts s \<or>
        swarm_state s = NANOTORRENT_SWARM_INIT \<and> swarm_state s' = NANOTORRENT_SWARM_JOINING \<and> swarm_posts s' = swarm_posts s + 1 \<or>
        swarm_state s = NANOTORRENT_SWARM_JOINING \<and> swarm_state s' = NANOTORRENT_SWARM_LEFT \<and> swarm_posts s' = swarm_posts s \<or>
        swarm_state s = NANOTORRENT_SWARM_JOINED \<and> swarm_state s' = NANOTORRENT_SWARM_LEFT \<and> swarm_posts s' = swarm_posts s + 1) \<and>
      (ev = PROCESS_EVENT_EXIT \<longrightarrow> swarm_state s' = NANOTORRENT_SWARM_LEFT)" for ev
  proof -
    obtain s' where s': "nanotorrent_swarm_process K ev s = Some s'" "swarm_inv K s'"
        "moves s s' \<or> ev = PROCESS_EVENT_EXIT"
      using swarm_process_outcome [OF k c(1), of ev] by blast
    have "ev = PROCESS_EVENT_EXIT \<Longrightarrow> swarm_pc s' = SwarmEnded"
      using s'(1) by (auto simp: nanotorrent_swarm_process_def)
    then have "ev = PROCESS_EVENT_EXIT \<Longrightarrow> swarm_state s' = NANOTORRENT_SWARM_LEFT"
      using s'(2) by (simp add: swarm_inv_def)
    moreover have "ev \<noteq> PROCESS_EVENT_EXIT \<Longrightarrow> moves s s'"
      using s'(3) by blast
    ultimately show ?thesis
      using s'(1) by (auto simp: moves_def process_moves_def)
  qed
  moreover have "\<exists>s'. nanotorrent_swarm_handle_reply K mem s = Some s' \<and> (swarm_state s' = swarm_state s \<or>
      swarm_state s = NANOTORRENT_SWARM_JOINING \<and> swarm_state s' = NANOTORRENT_SWARM_JOINED \<and> swarm_posts s' = swarm_posts s + 1)"
    if "reply_ok mem" for mem
    using handle_reply_outcome [OF assms(1) c(2) that] by (auto simp: swarm_posts_def split: if_splits)
  ultimately show ?thesis by blast
qed

theorem swarm_transitions_witness:
  "\<exists>s s'. swarm_state s = NANOTORRENT_SWARM_JOINING \<and>
    nanotorrent_swarm_handle_reply sim_contiki demo_reply (s :: (sim_file, sim_memb, sim_timer) nanotorrent_swarm) = Some s'"
  using demo_swarm_started swarm_transitions [OF sim_kernel] demo_reply_ok(1) by blast

section \<open>Replies of the tracker\<close>

text \<open>
  C26: a reply replaces the known peers. A reply for another torrent changes nothing; one for this torrent leaves exactly
  the first five of its addresses (fewer if it has fewer), the last of them in front, restarts the refresh
  period, ends the announce and posts one event to the main process, whatever state the swarm is in.
\<close>

theorem swarm_reply_replaces:
  assumes "kernel_ok K" "reach (swarm_started K s0) (swarm_step K) s" "reply_ok mem" "nanotorrent_swarm_handle_reply K mem s = Some s'"
  shows "if info_hash s \<noteq> take 20 mem then s' = s
    else map (\<lambda>c. peer_ip (swarm_peer_info s' c)) (swarm_peers s') =
        rev (map (\<lambda>i. take 16 (drop (21 + 16 * i) mem)) [0..<min (unat (mem ! 20)) 5]) \<and>
      refresh s' = etimer_set K (now s) (NANOTORRENT_ANNOUNCE_REFRESH_PERIOD K) (refresh s) \<and>
      outputs s' = outputs s @ [ProcessPost MainProcess swarm_event] \<and> peers s' = peers s \<and> conns s' = conns s"
proof -
  have c: "swarm_core K s"
    using swarm_reach_inv [OF assms(1,2)] by (simp add: swarm_inv_def)
  have r: "(if info_hash s \<noteq> take 20 mem then s' = s
     else map (swarm_peer_info s') (swarm_peers s') =
         rev (map (reply_peer mem 21) [0..<min (unat (mem ! 20)) NANOTORRENT_MAX_SWARM_PEERS]) \<and>
       refresh s' = etimer_set K (now s) (NANOTORRENT_ANNOUNCE_REFRESH_PERIOD K) (refresh s) \<and>
       outputs s' = outputs s @ [ProcessPost MainProcess swarm_event])" "same_peer s s'"
    using handle_reply_outcome [OF assms(1) c assms(3)] assms(4) by (auto split: if_splits)
  then have "map (swarm_peer_info s') (swarm_peers s') =
         rev (map (reply_peer mem 21) [0..<min (unat (mem ! 20)) NANOTORRENT_MAX_SWARM_PEERS])" if "info_hash s = take 20 mem"
    using that by simp
  from arg_cong [OF this, of "map peer_ip"] have "map (\<lambda>c. peer_ip (swarm_peer_info s' c)) (swarm_peers s') =
      rev (map (\<lambda>i. take 16 (drop (21 + 16 * i) mem)) [0..<min (unat (mem ! 20)) 5])" if "info_hash s = take 20 mem"
    using that by (simp add: o_def rev_map reply_peer_def NANOTORRENT_MAX_SWARM_PEERS_def)
  then show ?thesis
    using r by (simp add: same_peer_def same_net_def)
qed

theorem swarm_reply_replaces_witness:
  "\<exists>s s'. nanotorrent_swarm_handle_reply sim_contiki demo_reply s = Some s' \<and>
    map (\<lambda>c. peer_ip (swarm_peer_info (s' :: (sim_file, sim_memb, sim_timer) nanotorrent_swarm) c)) (swarm_peers s') = [replicate 16 9]"
proof -
  obtain s where s: "reach (swarm_started sim_contiki demo_swarm) (swarm_step sim_contiki) s" "info_hash s = replicate 20 1"
    using demo_swarm_started by blast
  then obtain s' where h: "nanotorrent_swarm_handle_reply sim_contiki demo_reply s = Some s'"
    using handle_reply_outcome [OF sim_kernel _ demo_reply_ok(1), of s] swarm_reach_inv [OF sim_kernel s(1)]
    by (auto simp: swarm_inv_def)
  show ?thesis
    using swarm_reply_replaces [OF sim_kernel s(1) demo_reply_ok(1) h] h s(2) demo_reply_ok(2)
    by (intro exI [of _ s] exI [of _ s'] conjI) (auto simp: demo_reply_def nth_append)
qed

lemma clear_peers_known:
  assumes "kernel_ok K" "swarm_core K s"
  shows "known_ok K (nanotorrent_swarm_clear_peers K s)"
  using assms memb_init_simps [of K "peer_memb s"]
  by (simp add: kernel_ok_def swarm_core_def known_ok_def nanotorrent_swarm_clear_peers_def)

lemma add_peers_None:
  assumes "kernel_ok K" "known_ok K s" "p \<le> length mem"
    and "length mem < p + 16 * min n (Suc NANOTORRENT_MAX_SWARM_PEERS - length (swarm_peers s))"
  shows "add_peers K n (mem, p) s = None"
  using assms(2-)
proof (induction n arbitrary: p s)
  case (Suc n)
  have k: "memb_ok K"
    using assms(1) by (simp add: kernel_ok_def)
  note len = known_length [OF k Suc.prems(1)]
  show ?case
  proof (cases "p + 16 \<le> length mem")
    case False
    then show ?thesis
      using pinfo.parse_None [of p mem] Suc.prems(2) by simp
  next
    case True
    then have u: "nanotorrent_unpack_peer_info (mem, p) = Some (reply_peer mem p 0, (mem, p + 16))"
      using pinfo.parse_Some [of p mem] by (simp add: reply_peer_def)
    obtain r m where a: "memb_alloc K (peer_memb s) = (r, m)"
      by (cases "memb_alloc K (peer_memb s)")
    show ?thesis
    proof (cases r)
      case None
      then have "length (swarm_peers s) = NANOTORRENT_MAX_SWARM_PEERS"
        using memb_alloc_None [OF k] a len(1) Suc.prems(1) by (simp add: known_ok_def)
      then show ?thesis
        using Suc.prems(3) True by simp
    next
      case (Some c)
      note add = add_peer_Some(1,2) [OF assms(1) Suc.prems(1) a [unfolded Some], of "reply_peer mem p 0"]
      let ?s = "s\<lparr>peer_memb := m, swarm_peer_info := (swarm_peer_info s)(c := reply_peer mem p 0), swarm_peers := c # swarm_peers s\<rparr>"
      have "length (swarm_peers s) < NANOTORRENT_MAX_SWARM_PEERS"
        using known_length(2) [OF k add(2)] by simp
      then have "length mem < p + 16 + 16 * min n (Suc NANOTORRENT_MAX_SWARM_PEERS - length (swarm_peers ?s))"
        using Suc.prems(3) by (simp add: Suc_diff_le)
      from Suc.IH [OF add(2) True this] show ?thesis
        using u add(1) by simp
    qed
  qed
qed simp

text \<open>
  C40: a short reply is read beyond its end. The handler does not look at the length of the datagram: it faults
  on a memory of fewer than 21 bytes, and on one that has the right info hash but ends before the addresses it announces
  (the first six of them when there are more, although only five are kept), and on no other.
\<close>

theorem swarm_short_reply_overreads:
  assumes "kernel_ok K" "reach (swarm_started K s0) (swarm_step K) s"
  shows "nanotorrent_swarm_handle_reply K mem s = None \<longleftrightarrow>
    length mem < 21 \<or> info_hash s = take 20 mem \<and> length mem < 21 + 16 * min (unat (mem ! 20)) 6"
proof -
  have c: "swarm_core K s"
    using swarm_reach_inv [OF assms] by (simp add: swarm_inv_def)
  show ?thesis
  proof (cases "reply_ok mem")
    case True
    then show ?thesis
      using handle_reply_outcome [OF assms(1) c True] by (auto simp: reply_ok_def NANOTORRENT_MAX_SWARM_PEERS_def)
  next
    case False
    show ?thesis
    proof (cases "length mem < 21")
      case True
      then show ?thesis
        using reply.parse_None [of 0 mem] by (simp add: nanotorrent_swarm_handle_reply_def)
    next
      case long: False
      then have u: "nanotorrent_unpack_announce_reply (mem, 0) = Some (\<lparr>rep_info_hash = take 20 mem, num_peers = mem ! 20\<rparr>, (mem, 21))"
        using reply.parse_Some [of 0 mem] by (simp add: dec_reply_def)
      have cmp: "sha1_cmp (info_hash s) (take 20 mem) \<longleftrightarrow> info_hash s = take 20 mem"
        using c long by (simp add: swarm_core_def)
      have "add_peers K (unat (mem ! 20)) (mem, 21) (nanotorrent_swarm_clear_peers K s) = None"
        using add_peers_None [OF assms(1) clear_peers_known [OF assms(1) c], of 21 mem "unat (mem ! 20)"] False long
        by (simp add: reply_ok_def nanotorrent_swarm_clear_peers_def)
      then show ?thesis
        using u cmp False long by (auto simp: nanotorrent_swarm_handle_reply_def reply_ok_def NANOTORRENT_MAX_SWARM_PEERS_def)
    qed
  qed
qed

theorem swarm_short_reply_overreads_witness:
  "\<exists>s :: (sim_file, sim_memb, sim_timer) nanotorrent_swarm. nanotorrent_swarm_handle_reply sim_contiki (replicate 20 1 @ [3]) s = None"
proof -
  obtain s where s: "reach (swarm_started sim_contiki demo_swarm) (swarm_step sim_contiki) s" "info_hash s = replicate 20 1"
    using demo_swarm_started by blast
  show ?thesis
    using swarm_short_reply_overreads [OF sim_kernel s(1), of "replicate 20 1 @ [3]"] s(2) by (auto simp: nth_append)
qed

section \<open>Retrying and the membership\<close>

text \<open>
  C35: a failed join is silent and final. When the last announce of a join has timed out, the process leaves the
  swarm without an event for the main process, which waits for one, and from then on it ignores every
  event but its exit.
\<close>

theorem swarm_failed_join_is_silent:
  assumes "kernel_ok K" "reach (swarm_started K s0) (swarm_step K) s"
    and "swarm_state s = NANOTORRENT_SWARM_JOINING" "swarm_pc s = SwarmWaitJoined" "rt_num_retries (announce_retry s) = 5"
    and "etimer_expired K (now s) (rt_timer (announce_retry s))" "ev \<noteq> PROCESS_EVENT_EXIT"
  shows "\<exists>s'. nanotorrent_swarm_process K ev s = Some s' \<and> swarm_state s' = NANOTORRENT_SWARM_LEFT \<and> outputs s' = outputs s \<and>
    (\<forall>t ev. ev \<noteq> PROCESS_EVENT_EXIT \<longrightarrow> nanotorrent_swarm_process K ev (s'\<lparr>now := t\<rparr>) = Some (s'\<lparr>now := t\<rparr>))"
proof -
  have "announcing s"
    using swarm_reach_inv [OF assms(1,2)] by (simp add: swarm_inv_def swarm_core_def)
  then have r: "rt_max_retries (announce_retry s) = 5" "rt_stop_callback (announce_retry s) = nanotorrent_swarm_announce_retry_stop"
    using assms(3) by (simp_all add: announcing_def calls_announce_def NANOTORRENT_MAX_ANNOUNCE_RETRIES_def)
  have six: "(5 :: u8) + 1 = 6" "\<not> (6 :: u8) \<le> 5"
    by simp_all
  show ?thesis
    using assms(3-7) r
    by (simp add: nanotorrent_swarm_process_def nanotorrent_retry_check_def swarm_join_loop_def nanotorrent_swarm_is_joined_def
        process_announce_retry_def nanotorrent_retry_process_def nanotorrent_retry_next_def Let_def six nanotorrent_retry_stop_def
        nanotorrent_swarm_force_leave_def nanotorrent_swarm_leave_quiet_def nanotorrent_swarm_clear_peers_def
        nanotorrent_swarm_announce_stop_def)
qed

text \<open>Reachable states of the concrete system with more tries behind them.\<close>

lemma same_swarm_now: "same_swarm s (s\<lparr>now := t\<rparr>)"
  by (simp add: same_swarm_def)

lemma sim_retry_step:
  assumes "reach (swarm_started sim_contiki s0) (swarm_step sim_contiki) s" "swarm_state s = NANOTORRENT_SWARM_JOINING"
    and "swarm_pc s = SwarmWaitJoined" "rt_num_retries (announce_retry s) < 5" "info_hash s = replicate 20 1"
  shows "\<exists>s'. reach (swarm_started sim_contiki s0) (swarm_step sim_contiki) s' \<and> swarm_state s' = NANOTORRENT_SWARM_JOINING \<and>
    swarm_pc s' = SwarmWaitJoined \<and> rt_num_retries (announce_retry s') = rt_num_retries (announce_retry s) + 1 \<and>
    info_hash s' = replicate 20 1"
proof -
  let ?u = "s\<lparr>now := fst (rt_timer (announce_retry s)) + snd (rt_timer (announce_retry s))\<rparr>"
  have u: "reach (swarm_started sim_contiki s0) (swarm_step sim_contiki) ?u"
    using reach_step [OF assms(1) others [OF same_swarm_now]] .
  have "announcing s"
    using swarm_reach_inv [OF sim_kernel assms(1)] by (simp add: swarm_inv_def swarm_core_def)
  then have r: "rt_max_retries (announce_retry s) = 5" "rt_again_callback (announce_retry s) = nanotorrent_swarm_announce_retry_again"
    using assms(2) by (simp_all add: announcing_def calls_announce_def NANOTORRENT_MAX_ANNOUNCE_RETRIES_def)
  have "\<exists>s'. nanotorrent_swarm_process sim_contiki PROCESS_EVENT_TIMER ?u = Some s' \<and> swarm_state s' = NANOTORRENT_SWARM_JOINING \<and>
      swarm_pc s' = SwarmWaitJoined \<and> rt_num_retries (announce_retry s') = rt_num_retries (announce_retry s) + 1 \<and>
      info_hash s' = replicate 20 1"
    using assms r less_imp_le [OF assms(4)]
    by (simp add: nanotorrent_swarm_process_def nanotorrent_retry_check_def sim_simps swarm_join_loop_def
        nanotorrent_swarm_is_joined_def process_announce_retry_def nanotorrent_retry_process_def nanotorrent_retry_next_def Let_def
        announce_send_eq announce_action_def)
  then show ?thesis
    using reach_step [OF u event] by blast
qed

lemma sim_tries:
  "k < 5 \<Longrightarrow> \<exists>s. reach (swarm_started sim_contiki demo_swarm) (swarm_step sim_contiki) s \<and> swarm_state s = NANOTORRENT_SWARM_JOINING \<and>
    swarm_pc s = SwarmWaitJoined \<and> rt_num_retries (announce_retry s) = of_nat k + 1 \<and> info_hash s = replicate 20 1"
proof (induction k)
  case 0
  then show ?case
    using demo_swarm_started by auto
next
  case (Suc k)
  then obtain s where s: "reach (swarm_started sim_contiki demo_swarm) (swarm_step sim_contiki) s"
    "swarm_state s = NANOTORRENT_SWARM_JOINING" "swarm_pc s = SwarmWaitJoined" "rt_num_retries (announce_retry s) = of_nat k + 1"
    "info_hash s = replicate 20 1"
    by auto
  have "k \<in> {0, 1, 2, 3}"
    using Suc.prems by auto
  then have "(of_nat k + 1 :: u8) < 5"
    by auto
  with s(4) have "rt_num_retries (announce_retry s) < 5"
    by simp
  from sim_retry_step [OF s(1-3) this s(5)] s(4) show ?case
    by (auto simp: add.commute)
qed

theorem swarm_failed_join_is_silent_witness:
  "\<exists>(s :: (sim_file, sim_memb, sim_timer) nanotorrent_swarm) s'. swarm_state s = NANOTORRENT_SWARM_JOINING \<and>
    nanotorrent_swarm_process sim_contiki PROCESS_EVENT_TIMER s = Some s' \<and> swarm_state s' = NANOTORRENT_SWARM_LEFT \<and> outputs s' = outputs s"
proof -
  obtain s where s: "reach (swarm_started sim_contiki demo_swarm) (swarm_step sim_contiki) s"
    "swarm_state s = NANOTORRENT_SWARM_JOINING" "swarm_pc s = SwarmWaitJoined" "rt_num_retries (announce_retry s) = 5"
    using sim_tries [of 4] by auto
  let ?u = "s\<lparr>now := fst (rt_timer (announce_retry s)) + snd (rt_timer (announce_retry s))\<rparr>"
  have u: "reach (swarm_started sim_contiki demo_swarm) (swarm_step sim_contiki) ?u"
    using reach_step [OF s(1) others [OF same_swarm_now]] .
  have "etimer_expired sim_contiki (now ?u) (rt_timer (announce_retry ?u))"
    by (simp add: sim_simps)
  then obtain s' where "nanotorrent_swarm_process sim_contiki PROCESS_EVENT_TIMER ?u = Some s'"
      "swarm_state s' = NANOTORRENT_SWARM_LEFT" "outputs s' = outputs ?u"
    using swarm_failed_join_is_silent [OF sim_kernel u, of PROCESS_EVENT_TIMER] s(2-4) by auto
  then show ?thesis
    using s(2) by (intro exI [of _ ?u] exI [of _ s']) simp
qed

text \<open>
  C34: a successful join does not end the announce. The reply stops the timer but not the counters of the retry, so what
  the process does next depends on whether the operating system takes a stopped timer for expired. If it does not, the
  process waits for ever and never refreshes. If it does, the process leaves the swarm at once when the reply
  answered the fifth try, and otherwise announces itself again although nothing is due.
\<close>

theorem swarm_after_join:
  assumes "kernel_ok K" "reach (swarm_started K s0) (swarm_step K) s"
    and "swarm_state s = NANOTORRENT_SWARM_JOINING" "swarm_pc s = SwarmWaitJoined"
    and "reply_ok mem" "take 20 mem = info_hash s" "nanotorrent_swarm_handle_reply K mem s = Some s1"
    and "ev \<noteq> PROCESS_EVENT_EXIT" "nanotorrent_swarm_process K ev (s1\<lparr>now := t\<rparr>) = Some s2"
  shows "swarm_state s1 = NANOTORRENT_SWARM_JOINED \<and>
    (if \<not> etimer_expired K t (etimer_stop K (rt_timer (announce_retry s))) then s2 = s1\<lparr>now := t\<rparr>
     else if rt_num_retries (announce_retry s) = 5 then swarm_state s2 = NANOTORRENT_SWARM_LEFT
     else \<exists>outs. outputs s2 = outputs s1 @ announce_action NANOTRACKER_ANNOUNCE_REFRESH s # outs)"
proof -
  have k: "memb_ok K" and c: "swarm_core K s"
    using assms(1) swarm_reach_inv [OF assms(1,2)] by (simp_all add: kernel_ok_def swarm_inv_def)
  have an: "rt_num_retries (announce_retry s) \<le> 5" "rt_max_retries (announce_retry s) = 5" "length (info_hash s) = 20"
    "rt_again_callback (announce_retry s) = nanotorrent_swarm_announce_retry_again"
    "rt_stop_callback (announce_retry s) = nanotorrent_swarm_announce_retry_stop"
    using c assms(3) by (simp_all add: swarm_core_def announcing_def calls_announce_def NANOTORRENT_MAX_ANNOUNCE_RETRIES_def)
  from handle_reply_outcome [OF assms(1) c assms(5)] assms(3,4,6,7) have
    s1: "swarm_core K s1" "same_peer s s1" "swarm_pc s1 = SwarmWaitJoined" "swarm_state s1 = NANOTORRENT_SWARM_JOINED"
      "announce_retry s1 = nanotorrent_retry_stop K (announce_retry s)"
    by (auto split: if_splits)
  have ih: "info_hash s1 = info_hash s"
    using s1(2) by (simp add: same_peer_def same_net_def)
  have ev: "announce_retry_event s1 = NANOTRACKER_ANNOUNCE_REFRESH"
    using s1(1,4) by (simp add: swarm_core_def announcing_def)
  let ?u = "s1\<lparr>now := t\<rparr>"
  have chk: "nanotorrent_retry_check K t (announce_retry s1) \<longleftrightarrow> etimer_expired K t (etimer_stop K (rt_timer (announce_retry s)))"
    using s1(5) an(1,2) by (simp add: nanotorrent_retry_check_def nanotorrent_retry_stop_def)
  show ?thesis
  proof (cases "etimer_expired K t (etimer_stop K (rt_timer (announce_retry s)))")
    case False
    then show ?thesis
      using assms(8,9) s1(3,4) chk by (simp add: nanotorrent_swarm_process_def)
  next
    case True
    then have r: "swarm_refresh_loop K ?u = Some s2"
      and n: "nanotorrent_retry_process K t (announce_retry s1) = nanotorrent_retry_next K t (announce_retry s1)"
      using assms(8,9) s1(3,4) chk
      by (simp_all add: nanotorrent_swarm_process_def swarm_join_loop_def nanotorrent_swarm_is_joined_def nanotorrent_retry_process_def)
    show ?thesis
    proof (cases "rt_num_retries (announce_retry s) = 5")
      case five: True
      then obtain q where "nanotorrent_retry_next K t (announce_retry s1) = (q, Some (nanotorrent_swarm_announce_retry_stop, rt_data q))"
        using s1(5) an by (simp add: nanotorrent_retry_next_def nanotorrent_retry_stop_def Let_def)
      then have p: "process_announce_retry K ?u = Some (nanotorrent_swarm_force_leave K (?u\<lparr>announce_retry := q\<rparr>))"
        using n by (simp add: process_announce_retry_def)
      have "swarm_state (nanotorrent_swarm_force_leave K x) = NANOTORRENT_SWARM_LEFT" for x :: "('a, 'b, 'c, 'd) nanotorrent_swarm_scheme"
        by (simp add: nanotorrent_swarm_force_leave_def Let_def nanotorrent_swarm_post_event_def)
      then have "swarm_state s2 = NANOTORRENT_SWARM_LEFT"
        using r p s1(4)
        by (auto simp: swarm_refresh_loop_def nanotorrent_swarm_is_joined_def nanotorrent_swarm_refresh_def split: if_splits)
      then show ?thesis
        using five s1(4) True by simp
    next
      case less: False
      then have "rt_num_retries (announce_retry s1) < rt_max_retries (announce_retry s1)"
        using s1(5) an(1,2) by (simp add: nanotorrent_retry_stop_def order.not_eq_order_implies_strict)
      then obtain q where q: "nanotorrent_retry_next K t (announce_retry s1) = (q, Some (nanotorrent_swarm_announce_retry_again, rt_data q))"
          "rt_again_callback q = nanotorrent_swarm_announce_retry_again"
        using s1(5) an(4) by (simp add: nanotorrent_retry_next_def nanotorrent_retry_stop_def Let_def)
      let ?v = "emit (announce_action NANOTRACKER_ANNOUNCE_REFRESH s) (?u\<lparr>announce_retry := q\<rparr>)"
      let ?w = "?v\<lparr>refresh := etimer_restart K (now ?v) (refresh ?v)\<rparr>"
      have p: "process_announce_retry K ?u = Some ?v"
        using n q(1) an(3) ih ev by (simp add: process_announce_retry_def announce_send_eq announce_action_def)
      have "length (info_hash ?w) = 20" "rt_again_callback (announce_retry ?w) = nanotorrent_swarm_announce_retry_again"
        using an(3) ih q(2) by simp_all
      from announce_start_outcome [OF this, of K NANOTRACKER_ANNOUNCE_REFRESH] obtain x where
        x: "nanotorrent_swarm_announce_start K NANOTRACKER_ANNOUNCE_REFRESH ?w = Some (emit (announce_action NANOTRACKER_ANNOUNCE_REFRESH ?w)
          (?w\<lparr>announce_retry_event := NANOTRACKER_ANNOUNCE_REFRESH, announce_retry := x\<rparr>))"
        by blast
      have "\<exists>outs. outputs s2 = outputs s1 @ announce_action NANOTRACKER_ANNOUNCE_REFRESH s # outs"
        using r p x s1(4)
        by (cases "etimer_expired K (now ?v) (refresh ?v)")
          (auto simp: swarm_refresh_loop_def nanotorrent_swarm_is_joined_def nanotorrent_swarm_refresh_def)
      then show ?thesis
        using less s1(4) True by simp
    qed
  qed
qed

theorem swarm_after_join_witness:
  "\<exists>s s1 s2. swarm_state s = NANOTORRENT_SWARM_JOINING \<and> nanotorrent_swarm_handle_reply sim_contiki demo_reply s = Some s1 \<and>
    swarm_state s1 = NANOTORRENT_SWARM_JOINED \<and> nanotorrent_swarm_process sim_contiki PROCESS_EVENT_TIMER s1 = Some s2 \<and>
    swarm_state (s2 :: (sim_file, sim_memb, sim_timer) nanotorrent_swarm) = NANOTORRENT_SWARM_LEFT"
proof -
  obtain s where s: "reach (swarm_started sim_contiki demo_swarm) (swarm_step sim_contiki) s"
    "swarm_state s = NANOTORRENT_SWARM_JOINING" "swarm_pc s = SwarmWaitJoined" "rt_num_retries (announce_retry s) = 5"
    "info_hash s = replicate 20 1"
    using sim_tries [of 4] by auto
  have k: "memb_ok sim_contiki"
    by (rule sim_memb_ok)
  obtain s1 where s1: "nanotorrent_swarm_handle_reply sim_contiki demo_reply s = Some s1" "swarm_inv sim_contiki s1"
    using handle_reply_outcome [OF sim_kernel _ demo_reply_ok(1), of s] swarm_reach_inv [OF sim_kernel s(1)]
      swarm_step_inv [OF sim_kernel reply [OF demo_reply_ok(1)], of s] by (auto simp: swarm_inv_def)
  obtain s2 where s2: "nanotorrent_swarm_process sim_contiki PROCESS_EVENT_TIMER s1 = Some s2"
    using swarm_process_outcome [OF k s1(2), of PROCESS_EVENT_TIMER] by blast
  have "s1\<lparr>now := now s1\<rparr> = s1"
    by simp
  then show ?thesis
    using swarm_after_join [OF sim_kernel s(1-3) demo_reply_ok(1) _ s1(1), of PROCESS_EVENT_TIMER "now s1" s2] s s1 s2 demo_reply_ok(2)
    by (intro exI [of _ s] exI [of _ s1] exI [of _ s2]) (simp add: sim_simps)
qed

end
