(* ===== verification/Node_Props.thy ===== *)
theory Node_Props
  imports Node Swarm_Props
begin

text \<open>
  The properties of the whole program: every reachable state of the main process, the peer component and the
  swarm component together, from \<^verbatim>\<open>nanotorrent_start\<close> on.
\<close>

section \<open>States for the witnesses\<close>

definition demo_node :: "(sim_file, sim_memb, sim_timer) nanotorrent" where
  "demo_node = nanotorrent_swarm.extend demo_swarm (nanotorrent.fields (0, 0) False MainNotStarted)"

definition demo_desc :: nanotorrent_torrent_desc where
  "demo_desc = \<lparr>tracker_ip = replicate 16 2, tracker_port = 33333, desc_info = demo_torrent\<rparr>"

lemma demo_node_fields:
  "pending_pieces demo_node = 0" "piece_counts demo_node = replicate 32 0" "peers_in demo_node = (0, 5, [])"
  "peers_out demo_node = (5, 5, [])" "peer_memb demo_node = (20, 5, [])" "swarm_pc demo_node = SwarmNotStarted"
  "main_pc demo_node = MainNotStarted" "files demo_node = (replicate 700 7, 0)" "now demo_node = 0"
  by (simp_all add: demo_node_def demo_swarm_def peer_state.defs nanotorrent_swarm.defs nanotorrent.defs)
    (simp_all add: demo_start_def demo_peer_state_def)

lemma demo_powered: "powered sim_contiki demo_node"
  by (simp add: powered_def demo_node_fields NANOTORRENT_MAX_PIECES_def)
    (simp add: sim_contiki_def NANOTORRENT_MAX_IN_PEERS_def NANOTORRENT_MAX_OUT_PEERS_def NANOTORRENT_MAX_SWARM_PEERS_def)

lemma demo_desc_info [simp]: "desc_info demo_desc = demo_torrent"
  by (simp add: demo_desc_def)

lemma demo_startable: "startable sim_contiki demo_desc ''movie'' demo_node"
  using demo_torrent_wf by (simp add: startable_def pieces_fit_def) (simp add: sim_contiki_def)

lemma demo_data: "645 \<le> length (replicate 645 (0 :: u8))" "length (next_block used_context) = 64"
  by simp_all

lemma node_startedI:
  "powered K s0 \<Longrightarrow> startable K d name s0 \<Longrightarrow> length (next_block ctx) = 64 \<Longrightarrow> 645 \<le> length data \<Longrightarrow>
   nanotorrent_start ctx data d name s0 = Some s1 \<Longrightarrow> nanotorrent_process K ctx PROCESS_EVENT_INIT s1 = Some s2 \<Longrightarrow>
   nanotorrent_peer_process K PROCESS_EVENT_INIT s2 = Some s3 \<Longrightarrow> nanotorrent_swarm_process K PROCESS_EVENT_INIT s3 = Some s \<Longrightarrow>
   node_started K ctx d name s0 s"
  unfolding node_started_def by blast

lemma sim_open: "cfs_open sim_contiki n f = (0, (fst f, 0))" "cfs_content sim_contiki f fd = fst f"
  by (simp_all add: sim_contiki_def)

lemma demo_node_started:
  "\<exists>s. reach (node_started sim_contiki used_context demo_desc ''movie'' demo_node) (node_step sim_contiki used_context) s \<and>
    main_pc s = MainWaitJoining \<and> desc s = demo_desc \<and> have_exact sim_contiki s \<and> own_content sim_contiki s = replicate 700 7 \<and>
    swarm_state s = NANOTORRENT_SWARM_JOINING"
proof -
  from node_start_outcome [OF sim_kernel demo_powered demo_startable demo_data(2,1)] obtain s1 s2 s3 s where
    r: "nanotorrent_start used_context (replicate 645 0) demo_desc ''movie'' demo_node = Some s1"
      "nanotorrent_process sim_contiki used_context PROCESS_EVENT_INIT s1 = Some s2"
      "nanotorrent_peer_process sim_contiki PROCESS_EVENT_INIT s2 = Some s3"
      "nanotorrent_swarm_process sim_contiki PROCESS_EVENT_INIT s3 = Some s" "main_pc s = MainWaitJoining" "desc s = demo_desc"
      "cfs_reliable sim_contiki \<longrightarrow> have_exact sim_contiki s"
      "own_content sim_contiki s = (case cfs_open sim_contiki (take 15 ''movie'') (files demo_node) of (fd, f) \<Rightarrow> cfs_content sim_contiki f fd)"
      "swarm_fresh sim_contiki s3"
    by blast
  have "swarm_state s = NANOTORRENT_SWARM_JOINING"
    using swarm_process_start [OF _ r(9), of PROCESS_EVENT_INIT] r(4) sim_kernel sim_ready by (simp add: kernel_ok_def)
  moreover note st = node_startedI [OF demo_powered demo_startable demo_data(2,1) r(1-4)]
  moreover have "own_content sim_contiki s = replicate 700 7"
    by (simp add: r(8) demo_node_fields sim_open)
  ultimately show ?thesis
    using reach_start [where start = "node_started sim_contiki used_context demo_desc ''movie'' demo_node", OF st] r(5-7) sim_cfs_reliable
    by (intro exI [of _ s]) simp
qed

lemma demo_piece_0: "piece_matches demo_torrent 0 (replicate 700 7)"
  by (simp add: piece_matches_def piece_bytes_def piece_off_def piece_len_def)

lemma demo_node_have:
  "\<exists>s. reach (node_started sim_contiki used_context demo_desc ''movie'' demo_node) (node_step sim_contiki used_context) s \<and>
    nanotorrent_bitset_get (nanotorrent_piece_have s) 0 \<and> the_info s = demo_torrent"
proof -
  obtain s where s: "reach (node_started sim_contiki used_context demo_desc ''movie'' demo_node) (node_step sim_contiki used_context) s"
    "desc s = demo_desc" "have_exact sim_contiki s" "own_content sim_contiki s = replicate 700 7"
    using demo_node_started by blast
  then have "nanotorrent_bitset_get (nanotorrent_piece_have s) 0"
    using demo_piece_0 by (simp add: have_exact_def bits_get nanotorrent_piece_have_def)
  then show ?thesis
    using s(1,2) by (intro exI [of _ s]) simp
qed

section \<open>Starting\<close>

text \<open>
  C5: starting succeeds and finds the pieces that are there. After power-on, with a well-formed descriptor and a file that can be opened and
  read, \<^verbatim>\<open>nanotorrent_start\<close> and the start of the three processes run to their waits; then exactly
  those pieces are complete whose bytes in the file have the digest of the descriptor, the swarm is being joined or waits for
  an address, and the file is as it was. The file system does not fail, and the torrent has at most two fewer pieces than an
  \<^verbatim>\<open>int\<close> has bits.
\<close>

theorem start_finds_pieces:
  assumes "sound_kernel K" "powered K s0" "startable K d name s0" "length (next_block ctx) = 64" "645 \<le> length data"
  shows "\<exists>s1 s2 s3 s. nanotorrent_start ctx data d name s0 = Some s1 \<and> nanotorrent_process K ctx PROCESS_EVENT_INIT s1 = Some s2 \<and>
    nanotorrent_peer_process K PROCESS_EVENT_INIT s2 = Some s3 \<and> nanotorrent_swarm_process K PROCESS_EVENT_INIT s3 = Some s \<and>
    own_content K s = (case cfs_open K (take 15 name) (files s0) of (fd, f) \<Rightarrow> cfs_content K f fd) \<and>
    (\<forall>i. nanotorrent_piece_is_complete i s \<longleftrightarrow>
      unat i < unat (num_pieces (desc_info d)) \<and> piece_matches (desc_info d) (unat i) (own_content K s)) \<and>
    (swarm_state s = NANOTORRENT_SWARM_INIT \<or> swarm_state s = NANOTORRENT_SWARM_JOINING)"
proof -
  have k: "kernel_ok K" "cfs_reliable K" "memb_ok K"
    using assms(1) by (simp_all add: sound_kernel_def kernel_ok_def)
  from node_start_outcome [OF k(1) assms(2-5)] obtain s1 s2 s3 s where
    r: "nanotorrent_start ctx data d name s0 = Some s1" "nanotorrent_process K ctx PROCESS_EVENT_INIT s1 = Some s2"
      "nanotorrent_peer_process K PROCESS_EVENT_INIT s2 = Some s3" "nanotorrent_swarm_process K PROCESS_EVENT_INIT s3 = Some s"
      "desc s = d" "cfs_reliable K \<longrightarrow> have_exact K s" "swarm_fresh K s3"
      "own_content K s = (case cfs_open K (take 15 name) (files s0) of (fd, f) \<Rightarrow> cfs_content K f fd)"
    by blast
  have "swarm_state s = NANOTORRENT_SWARM_INIT \<or> swarm_state s = NANOTORRENT_SWARM_JOINING"
    using swarm_process_start [OF k(3) r(7), of PROCESS_EVENT_INIT] r(4) by auto
  moreover have "nanotorrent_piece_is_complete i s \<longleftrightarrow>
      unat i < unat (num_pieces (desc_info d)) \<and> piece_matches (desc_info d) (unat i) (own_content K s)" for i
    using r(5,6) k(2) by (auto simp: is_complete_iff valid_iff have_exact_def)
  ultimately show ?thesis
    using r by blast
qed

theorem start_finds_pieces_witness:
  "\<exists>s s3 :: (sim_file, sim_memb, sim_timer) nanotorrent. nanotorrent_swarm_process sim_contiki PROCESS_EVENT_INIT s3 = Some s \<and>
    own_content sim_contiki s = replicate 700 7 \<and> nanotorrent_piece_is_complete 0 s"
proof -
  show ?thesis
    using start_finds_pieces [OF sim_sound demo_powered demo_startable demo_data(2,1)]
    apply (elim exE conjE)
    subgoal for s1 s2 s3 s
      using demo_piece_0 by (intro exI [of _ s] exI [of _ s3]) (simp add: demo_node_fields sim_open)
    done
qed

section \<open>Safety\<close>

text \<open>
  C1: no handler faults, as long as the file system works and the network keeps to the protocol. Assume that no seek or read of the file fails and
  every write of some bytes writes at least one, that a packet sent has room for a header, and that the program was started with a
  well-formed descriptor of at most two fewer pieces than an \<^verbatim>\<open>int\<close> has bits. Then in every state that can be reached from \<^verbatim>\<open>nanotorrent_start\<close>, in whatever order the components run,
  by data replies that carry data, other datagrams of any kind, tracker replies that hold the addresses they announce, and events, until the main
  process is stopped: the main process handles every event but the exit event, the loop that connects with the swarm ends, the swarm process handles every
  event and every such reply of the tracker, the peer process handles every event but a second start, and every datagram in a network buffer of at least 28 bytes
  is handled, a data reply when it has its whole header. Handled means that no null pointer is dereferenced, no array is left and no loop is endless. What happens without the assumptions on writes, data replies and tracker
  replies is shown by \<open>failed_write_faults\<close>, \<open>empty_reply_faults\<close>, \<open>short_reply_overreads\<close> and \<open>swarm_short_reply_overreads\<close>.
\<close>

theorem node_never_faults:
  assumes "sound_kernel K" "reach (node_started K ctx d name s0) (node_step K ctx) s"
  shows "(\<forall>ev. ev \<noteq> PROCESS_EVENT_EXIT \<longrightarrow> nanotorrent_process K ctx ev s \<noteq> None) \<and>
    nanotorrent_connect_swarm K s \<noteq> None \<and>
    (\<forall>ev. nanotorrent_swarm_process K ev s \<noteq> None) \<and>
    (\<forall>mem. reply_ok mem \<longrightarrow> nanotorrent_swarm_handle_reply K mem s \<noteq> None) \<and>
    (\<forall>ev. ev \<noteq> PROCESS_EVENT_INIT \<longrightarrow> nanotorrent_peer_process K ev s \<noteq> None) \<and>
    (\<forall>hash src dest mem datalen. length (next_block hash) = 64 \<and> datagram_ok mem datalen \<longrightarrow>
      nanotorrent_peer_handle_message K hash src dest mem datalen s \<noteq> None)"
proof -
  have k: "kernel_ok K" "payload_ok K" "memb_ok K"
    using assms(1) by (simp_all add: sound_kernel_def kernel_ok_def)
  note i = node_reach_inv [OF assms]
  have p: "peer_inv K s" "armed s" "swarm_inv K s" "swarm_core K s"
    using i(1) by (simp_all add: node_inv_def swarm_inv_def)
  have "nanotorrent_process K ctx ev s \<noteq> None" if "ev \<noteq> PROCESS_EVENT_EXIT" for ev
    using main_process_outcome [OF k(1) i that, of ctx] by auto
  moreover have "nanotorrent_connect_swarm K s \<noteq> None"
    using connect_swarm_inv [OF k(1) i(1)] by auto
  moreover have "nanotorrent_swarm_process K ev s \<noteq> None" for ev
    using swarm_process_outcome [OF k(3) p(3), of ev] by auto
  moreover have "nanotorrent_swarm_handle_reply K mem s \<noteq> None" if "reply_ok mem" for mem
    using handle_reply_outcome [OF k(1) p(4) that] by auto
  moreover have "nanotorrent_peer_process K ev s \<noteq> None" if "ev \<noteq> PROCESS_EVENT_INIT" for ev
    using peer_process_outcome [OF k(1), of ev s] p that by auto
  moreover have "nanotorrent_peer_handle_message K hash src dest mem datalen s \<noteq> None"
    if "length (next_block hash) = 64" "datagram_ok mem datalen" for hash src dest mem datalen
    using handle_message_outcome [OF k(1,2) p(1,2) that, of src dest] by auto
  ultimately show ?thesis by blast
qed

theorem node_never_faults_witness:
  "\<exists>s :: (sim_file, sim_memb, sim_timer) nanotorrent. main_pc s = MainWaitJoining \<and> nanotorrent_connect_swarm sim_contiki s \<noteq> None"
  using demo_node_started node_never_faults [OF sim_sound] by blast

text \<open>
  C2: the program never claims data it has not verified, and never loses data it has. In every reachable state each piece marked
  complete is a piece of the torrent and the file holds at its offset bytes with the digest the descriptor gives for
  it; and no step of any component clears a complete piece or changes one of its bytes. The states and the steps are those
  of \<open>node_never_faults\<close>: a file system that does not fail, data replies that carry data, tracker replies that hold the addresses they announce.
\<close>

theorem node_data_integrity:
  assumes "sound_kernel K" "reach (node_started K ctx d name s0) (node_step K ctx) s" "nanotorrent_bitset_get (nanotorrent_piece_have s) i"
  shows "i < unat (num_pieces (the_info s)) \<and>
    (\<exists>n \<le> piece_len (the_info s) i.
       sha1_spec (take n (drop (piece_off (the_info s) i) (cfs_content K (files s) (own_file s)))) = piece_hashes (the_info s) ! i) \<and>
    (\<forall>s'. node_step K ctx s s' \<longrightarrow> nanotorrent_bitset_get (nanotorrent_piece_have s') i \<and>
      (\<forall>k < piece_len (the_info s) i. piece_off (the_info s) i + k < length (own_content K s) \<longrightarrow>
        own_content K s' ! (piece_off (the_info s) i + k) = own_content K s ! (piece_off (the_info s) i + k)))"
proof -
  note i = node_reach_inv [OF assms(1,2)]
  have "have_ok K s"
    using i(1) by (simp add: node_inv_def peer_inv_def)
  moreover have "progress K s s'" if "node_step K ctx s s'" for s'
    using node_step_inv [OF assms(1) that] i by (simp add: running_def)
  ultimately show ?thesis
    using assms(3)
    by (auto simp: have_ok_def nanotorrent_piece_have_def bits_get piece_verified_def own_content_def progress_def)
qed

theorem node_data_integrity_witness:
  "\<exists>s :: (sim_file, sim_memb, sim_timer) nanotorrent. \<exists>n \<le> 256. nanotorrent_bitset_get (nanotorrent_piece_have s) 0 \<and>
    sha1_spec (take n (cfs_content sim_contiki (files s) (own_file s))) = sha1_spec (replicate 256 7)"
proof -
  obtain s where s: "reach (node_started sim_contiki used_context demo_desc ''movie'' demo_node) (node_step sim_contiki used_context) s"
    "nanotorrent_bitset_get (nanotorrent_piece_have s) 0" "the_info s = demo_torrent"
    using demo_node_have by blast
  then show ?thesis
    using node_data_integrity [OF sim_sound s(1,2)] by (intro exI [of _ s]) (auto simp: piece_len_def piece_off_def)
qed

section \<open>Connecting with the swarm\<close>

text \<open>
  C8: connecting with the swarm ends, and leaves peers aside only when it has to. In every reachable state the loop
  connects with the first \<open>n\<close> of the known peers, for some \<open>n\<close>, and takes exactly these off the list; it closes no connection
  and opens no other; and when some peer remains, all five connections the program may open are in use and there is
  no connection with the first of those that remain.
\<close>

theorem connect_swarm_connects:
  assumes "sound_kernel K" "reach (node_started K ctx d name s0) (node_step K ctx) s"
  shows "\<exists>s' n. nanotorrent_connect_swarm K s = Some s' \<and> n \<le> length (known s) \<and> known s' = drop n (known s) \<and>
    connected_to s' = connected_to s \<union> set (take n (known s)) \<and>
    (n < length (known s) \<longrightarrow> card (memb_allocated K (peers_out s')) = 5 \<and> hd (known s') \<notin> connected_to s')"
proof -
  have i: "peer_inv K s" "armed s" "swarm_core K s"
    using node_reach_inv [OF assms] by (simp_all add: node_inv_def swarm_inv_def)
  have "kernel_ok K"
    using assms(1) by (simp add: sound_kernel_def)
  from connect_swarm_outcome [OF this i] obtain s' n where
    "nanotorrent_connect_swarm K s = Some s'" "n \<le> length (known s)" "known s' = drop n (known s)"
    "connected_to s' = connected_to s \<union> set (take n (known s))"
    "n < length (known s) \<longrightarrow> card (memb_allocated K (peers_out s')) = NANOTORRENT_MAX_OUT_PEERS \<and> hd (known s') \<notin> connected_to s'"
    by blast
  then show ?thesis
    by (intro exI [of _ s'] exI [of _ n]) (simp add: NANOTORRENT_MAX_OUT_PEERS_def)
qed

text \<open>A reachable state of the concrete system in which one peer is known.\<close>

lemma demo_node_known:
  "\<exists>s. reach (node_started sim_contiki used_context demo_desc ''movie'' demo_node) (node_step sim_contiki used_context) s \<and>
    known s = [\<lparr>peer_ip = replicate 16 9\<rparr>] \<and> main_pc s = MainWaitJoining \<and> swarm_state s = NANOTORRENT_SWARM_JOINED"
proof -
  obtain s where s: "reach (node_started sim_contiki used_context demo_desc ''movie'' demo_node) (node_step sim_contiki used_context) s"
    and pc: "main_pc s = MainWaitJoining" "swarm_state s = NANOTORRENT_SWARM_JOINING"
    using demo_node_started by blast
  have c: "swarm_core sim_contiki s"
    using node_reach_inv [OF sim_sound s] by (simp add: node_inv_def swarm_inv_def)
  then have l: "length (info_hash s) = 20"
    by (simp add: swarm_core_def)
  let ?mem = "info_hash s @ [1] @ replicate 16 9"
  have m: "reply_ok ?mem" "take 20 ?mem = info_hash s" "?mem ! 20 = 1" "drop 21 ?mem = replicate 16 9"
    using l by (simp_all add: reply_ok_def nth_append)
  from handle_reply_outcome [OF sim_kernel c m(1)] m(2) obtain s' where
    s': "nanotorrent_swarm_handle_reply sim_contiki ?mem s = Some s'"
      "map (swarm_peer_info s') (swarm_peers s') = rev (map (reply_peer ?mem 21) [0..<min (unat (?mem ! 20)) NANOTORRENT_MAX_SWARM_PEERS])"
      "swarm_state s' = (if swarm_state s = NANOTORRENT_SWARM_JOINING then NANOTORRENT_SWARM_JOINED else swarm_state s)" "same_peer s s'"
    by (auto split: if_splits)
  have "known s' = [\<lparr>peer_ip = replicate 16 9\<rparr>]"
    using s'(2) m(3,4) by (simp add: known_def reply_peer_def NANOTORRENT_MAX_SWARM_PEERS_def)
  moreover have "main_pc s' = MainWaitJoining"
    using s'(4) pc(1) by (cases s; cases s') (simp add: same_peer_def)
  ultimately show ?thesis
    using reach_step [OF s tracker_reply [OF m(1) s'(1)]] s'(3) pc(2) by (intro exI [of _ s']) simp
qed

theorem connect_swarm_connects_witness:
  "\<exists>s s' :: (sim_file, sim_memb, sim_timer) nanotorrent. known s = [\<lparr>peer_ip = replicate 16 9\<rparr>] \<and>
    nanotorrent_connect_swarm sim_contiki s = Some s' \<and>
    (known s' = [] \<and> \<lparr>peer_ip = replicate 16 9\<rparr> \<in> connected_to s' \<or> card (memb_allocated sim_contiki (peers_out s')) = 5)"
proof -
  obtain s where s: "reach (node_started sim_contiki used_context demo_desc ''movie'' demo_node) (node_step sim_contiki used_context) s"
    "known s = [\<lparr>peer_ip = replicate 16 9\<rparr>]"
    using demo_node_known by blast
  from connect_swarm_connects [OF sim_sound s(1)] obtain s' n where
    c: "nanotorrent_connect_swarm sim_contiki s = Some s'" "n \<le> length (known s)" "known s' = drop n (known s)"
      "connected_to s' = connected_to s \<union> set (take n (known s))"
      "n < length (known s) \<longrightarrow> card (memb_allocated sim_contiki (peers_out s')) = 5 \<and> hd (known s') \<notin> connected_to s'"
    by (elim exE conjE) (rule that)
  show ?thesis
  proof (intro exI conjI)
    show "known s = [\<lparr>peer_ip = replicate 16 9\<rparr>]" "nanotorrent_connect_swarm sim_contiki s = Some s'"
      by (rule s(2), rule c(1))
    show "known s' = [] \<and> \<lparr>peer_ip = replicate 16 9\<rparr> \<in> connected_to s' \<or> card (memb_allocated sim_contiki (peers_out s')) = 5"
      using c(2-5) unfolding s(2) by (cases n) simp_all
  qed
qed

section \<open>The end of the main process\<close>

lemma same_store_seed: "same_store s s' \<Longrightarrow> nanotorrent_piece_is_seed w s' = nanotorrent_piece_is_seed w s"
  by (simp add: same_store_def nanotorrent_piece_is_seed_def nanotorrent_piece_bitset_all_def)

text \<open>
  C27: when exactly the main process ends. In every reachable state, with a file system that does not fail, an event other than the exit event ends it
  in these cases and in no others: it waits for the swarm to start joining, and a swarm event finds the swarm in any other state than being
  joined; or it has got further, and a swarm event finds the swarm not joined, or an event that it waits for finds the file complete and the
  timer for seeding expired. So, once it has seen the swarm being joined, it gives an incomplete file up on a swarm event only, and only when the
  swarm is not joined. The first case is wider than it is meant to be: a swarm that has been joined before the main process has
  seen it being joined ends it as well. The witness is such a state: the swarm is joined, one peer is known, and the process ends.
\<close>

theorem main_ends_only:
  assumes "sound_kernel K" "reach (node_started K ctx d name s0) (node_step K ctx) s" "ev \<noteq> PROCESS_EVENT_EXIT"
    and "main_pc s \<noteq> MainEnded" "nanotorrent_process K ctx ev s = Some s'"
  shows "main_pc s' = MainEnded \<longleftrightarrow>
    (if main_pc s = MainWaitJoining then ev = swarm_event \<and> swarm_state s \<noteq> NANOTORRENT_SWARM_JOINING
     else ev = swarm_event \<and> swarm_state s \<noteq> NANOTORRENT_SWARM_JOINED \<or>
       (if main_pc s = MainWaitJoined then ev = swarm_event else nanotorrent_check_event K ev s) \<and>
       nanotorrent_piece_is_seed (int_bits K) s \<and> etimer_expired K (now s) (seed_timer s'))"
proof -
  have k: "kernel_ok K"
    using assms(1) by (simp add: sound_kernel_def)
  note i = node_reach_inv [OF assms(1,2)]
  show ?thesis
  proof (cases "main_pc s")
    case MainWaitJoining
    then show ?thesis
      using assms(3,5) by (auto simp: nanotorrent_process_def nanotorrent_swarm_is_joining_def split: if_splits)
  next
    case MainWaitJoined
    obtain t where t: "nanotorrent_connect_swarm K s = Some t" "node_inv K t" "same_store s t" "swarm_state t = swarm_state s" "now t = now s"
      using connect_swarm_inv [OF k i(1)] by blast
    show ?thesis
      using MainWaitJoined assms(3,5) t(1,4,5) exchange_loop_outcome [OF k t(2), of ev] same_store_seed [OF t(3), of "int_bits K"]
      by (auto simp: nanotorrent_process_def nanotorrent_swarm_is_joined_def split: if_splits)
  next
    case MainWaitEvent
    then show ?thesis
      using assms(3,5) exchange_loop_outcome [OF k i(1), of ev]
      by (auto simp: nanotorrent_process_def nanotorrent_check_event_def split: if_splits)
  qed (use assms(4) i(2) in simp_all)
qed

theorem main_ends_only_witness:
  "\<exists>s s' :: (sim_file, sim_memb, sim_timer) nanotorrent. main_pc s = MainWaitJoining \<and> swarm_state s = NANOTORRENT_SWARM_JOINED \<and>
    known s \<noteq> [] \<and> nanotorrent_process sim_contiki used_context swarm_event s = Some s' \<and> main_pc s' = MainEnded"
proof -
  obtain s where s: "reach (node_started sim_contiki used_context demo_desc ''movie'' demo_node) (node_step sim_contiki used_context) s"
    "main_pc s = MainWaitJoining" "swarm_state s = NANOTORRENT_SWARM_JOINED" "known s = [\<lparr>peer_ip = replicate 16 9\<rparr>]"
    using demo_node_known by blast
  obtain s' where p: "nanotorrent_process sim_contiki used_context swarm_event s = Some s'"
    using main_process_outcome [OF sim_kernel node_reach_inv [OF sim_sound s(1)], of swarm_event] by auto
  have "main_pc s' = MainEnded"
    using main_ends_only [OF sim_sound s(1) _ _ p] s(2,3) by simp
  then show ?thesis
    using s(2-4) p by (intro exI [of _ s] exI [of _ s']) simp
qed

text \<open>
  C28: a complete peer seeds for the configured time and no longer. While pieces are missing the main process goes on; when the file is
  complete it sets the seed timer once, goes on, and from then on it goes on until exactly 300 seconds later, when its timer is
  also an event that wakes it.
\<close>

theorem seeds_for_seed_time:
  assumes "etimer_ok K" "0 < clock_second K" "300 * clock_second K < 2 ^ clock_bits K"
    and "\<not> seed_timer_set s" "nanotorrent_keep_going K s = (go, s')" "now s \<le> t"
  shows "go \<and> (if \<not> nanotorrent_piece_is_seed (int_bits K) s then s' = s
    else seed_timer_set s' \<and> (fst (nanotorrent_keep_going K (s'\<lparr>now := t\<rparr>)) \<longleftrightarrow> t < now s + 300 * clock_second K) \<and>
      snd (nanotorrent_keep_going K (s'\<lparr>now := t\<rparr>)) = s'\<lparr>now := t\<rparr> \<and>
      (nanotorrent_check_event K PROCESS_EVENT_TIMER (s'\<lparr>now := t\<rparr>) \<longleftrightarrow> now s + 300 * clock_second K \<le> t))"
proof (cases "nanotorrent_piece_is_seed (int_bits K) s")
  case False
  then show ?thesis
    using assms(5) by (simp add: nanotorrent_keep_going_def)
next
  case True
  have c: "clock_time K (NANOTORRENT_SEED_TIME K) = 300 * clock_second K"
    using assms(3) by (simp add: clock_time_def NANOTORRENT_SEED_TIME_def)
  have ex: "etimer_expired K u (etimer_set K (now s) (300 * clock_second K) (seed_timer s)) \<longleftrightarrow> now s + 300 * clock_second K \<le> u"
    if "now s \<le> u" for u
    using assms(1) that by (simp add: etimer_ok_def)
  have g: "go" "s' = s\<lparr>seed_timer := etimer_set K (now s) (300 * clock_second K) (seed_timer s), seed_timer_set := True\<rparr>"
    using assms(2,4,5) True ex [of "now s"] by (auto simp: nanotorrent_keep_going_def Let_def c split: if_splits)
  have "nanotorrent_piece_is_seed (int_bits K) (s'\<lparr>now := t\<rparr>)"
    using True same_store_seed [of s "s'\<lparr>now := t\<rparr>" "int_bits K"] by (simp add: g(2) same_store_def)
  then show ?thesis
    using True g ex [OF assms(6)] by (simp add: nanotorrent_keep_going_def nanotorrent_check_event_def not_le Let_def)
qed

theorem seeds_for_seed_time_witness:
  "\<exists>s s' :: (sim_file, sim_memb, sim_timer) nanotorrent. nanotorrent_keep_going sim_contiki s = (True, s') \<and>
    \<not> fst (nanotorrent_keep_going sim_contiki (s'\<lparr>now := 38400\<rparr>)) \<and> fst (nanotorrent_keep_going sim_contiki (s'\<lparr>now := 38399\<rparr>))"
proof -
  let ?s = "demo_node\<lparr>own_have := 7\<rparr>"
  obtain go s' where g: "nanotorrent_keep_going sim_contiki ?s = (go, s')"
    by (cases "nanotorrent_keep_going sim_contiki ?s")
  have "desc_info (desc ?s) = demo_torrent"
    by (simp add: demo_node_def demo_swarm_def peer_state.defs nanotorrent_swarm.defs nanotorrent.defs)
  moreover have "pieces_fit (int_bits sim_contiki) demo_torrent"
    by (simp add: pieces_fit_def sim_simps)
  ultimately have seed: "nanotorrent_piece_is_seed (int_bits sim_contiki) ?s"
    by (subst is_seed_iff) (auto simp: bits_7)
  have "\<not> seed_timer_set ?s" "now ?s = 0"
    by (simp_all add: demo_node_fields) (simp add: demo_node_def nanotorrent_swarm.defs nanotorrent.defs)
  then show ?thesis
    using seeds_for_seed_time [OF sim_etimer_ok _ _ _ g, of 38400] seeds_for_seed_time [OF sim_etimer_ok _ _ _ g, of 38399] seed g
    by (intro exI [of _ ?s] exI [of _ s']) (simp add: sim_simps)
qed

end
