(* ===== verification/Tools.thy ===== *)
theory Tools
  imports Torrent
begin

text \<open>
  The two command line programs of the peer: \<^verbatim>\<open>peer/nanogen.c\<close> makes the descriptor of a file, \<^verbatim>\<open>peer/nanoread.c\<close> prints a
  descriptor. They run on a POSIX host, where the file calls of Contiki are those of the host: the record
  \<open>posix\<close> and the record \<open>contiki\<close> work on the same state. The host, the command line parser of the C library (argp) and the
  conversion of addresses are arguments of the programs; what is documented of them is stated as the predicates
  \<open>posix_ok\<close>, \<open>posix_reliable\<close> and \<open>argp_ok\<close>.
\<close>

section \<open>Strings and numbers of the C library\<close>

text \<open>The string in a buffer ends at its first NUL.\<close>

definition cstring :: "string \<Rightarrow> string" where
  "cstring buffer = takeWhile (\<lambda>c. c \<noteq> CHR 0x00) buffer"

definition newline :: string where
  "newline = [CHR 0x0A]"

definition tab :: string where
  "tab = [CHR 0x09]"

fun decimal :: "nat \<Rightarrow> string" where
  "decimal n = (if n < 10 then [''0123456789'' ! n] else decimal (n div 10) @ [''0123456789'' ! (n mod 10)])"

declare decimal.simps [simp del]

text \<open>The conversion \<^verbatim>\<open>%02d\<close> of a number that is not negative.\<close>

definition decimal_2 :: "nat \<Rightarrow> string" where
  "decimal_2 n = (if n < 10 then ''0'' @ decimal n else decimal n)"

definition is_digit :: "char \<Rightarrow> bool" where
  "is_digit c \<longleftrightarrow> 48 \<le> (of_char c :: nat) \<and> (of_char c :: nat) \<le> 57"

definition is_space :: "char \<Rightarrow> bool" where
  "is_space c \<longleftrightarrow> (of_char c :: nat) = 32 \<or> 9 \<le> (of_char c :: nat) \<and> (of_char c :: nat) \<le> 13"

fun atoi_digits :: "string \<Rightarrow> int \<Rightarrow> int" where
  "atoi_digits [] n = n"
| "atoi_digits (c # cs) n = (if is_digit c then atoi_digits cs (10 * n + (of_char c - 48)) else n)"

text \<open>\<^verbatim>\<open>atoi\<close>: the value has no meaning when it does not fit into an \<^verbatim>\<open>int\<close> of 32 bits.\<close>

definition atoi :: "string \<Rightarrow> int option" where
  "atoi s =
    (let s = dropWhile is_space s;
         v = (if take 1 s = ''-'' then - atoi_digits (drop 1 s) 0
              else if take 1 s = ''+'' then atoi_digits (drop 1 s) 0
              else atoi_digits s 0)
     in if - (2 ^ 31) \<le> v \<and> v < 2 ^ 31 then Some v else None)"

text \<open>The macro \<^verbatim>\<open>ERROR\<close> of \<^verbatim>\<open>common.h\<close>, with the values of \<^verbatim>\<open>__FILE__\<close>, \<^verbatim>\<open>__LINE__\<close> and \<^verbatim>\<open>__FUNCTION__\<close>.\<close>

definition ERROR :: "string \<Rightarrow> nat \<Rightarrow> string \<Rightarrow> string \<Rightarrow> string" where
  "ERROR file line func msg =
    ''('' @ file @ '':'' @ decimal line @ '', '' @ func @ '')'' @ newline @ ''  ERROR: '' @ msg @ newline"

section \<open>Command lines\<close>

text \<open>
  The parser calls back for every option, for every argument with its number, and at the end with the number of
  arguments. \<^verbatim>\<open>argp_usage\<close> prints a message and ends the program; so does an option the callback does not know. The
  outcome of a parser is \<open>Some None\<close> when it has ended the program, \<open>None\<close> when the callback has no result.
\<close>

datatype argp_key = ArgpOption char | ARGP_KEY_ARG | ARGP_KEY_END | ArgpOther nat

datatype 'a argp_result = ArgpParsed 'a | ArgpUsage | ARGP_ERR_UNKNOWN

type_synonym 'a parse_opt = "argp_key \<Rightarrow> string \<Rightarrow> nat \<Rightarrow> 'a \<Rightarrow> 'a argp_result option"

type_synonym 'a argp_parse = "char list \<Rightarrow> 'a parse_opt \<Rightarrow> string list \<Rightarrow> 'a \<Rightarrow> 'a option option"

fun argp_calls :: "'a parse_opt \<Rightarrow> (argp_key \<times> string \<times> nat) list \<Rightarrow> 'a \<Rightarrow> 'a option option" where
  "argp_calls p [] a = Some (Some a)"
| "argp_calls p ((key, arg, n) # calls) a = do {
     r \<leftarrow> p key arg n a;
     (case r of
        ArgpParsed a \<Rightarrow> argp_calls p calls a
      | ArgpUsage \<Rightarrow> Some None
      | ARGP_ERR_UNKNOWN \<Rightarrow> (case key of ArgpOption c \<Rightarrow> Some None | _ \<Rightarrow> argp_calls p calls a)) }"

text \<open>A command line of options with a value, written \<^verbatim>\<open>-c VALUE\<close>, and of arguments.\<close>

datatype cmd_item = CmdOption char string | CmdArg string

fun cmd_words :: "cmd_item list \<Rightarrow> string list" where
  "cmd_words [] = []"
| "cmd_words (CmdOption c v # items) = [CHR ''-'', c] # v # cmd_words items"
| "cmd_words (CmdArg s # items) = s # cmd_words items"

fun cmd_options :: "cmd_item list \<Rightarrow> (char \<times> string) list" where
  "cmd_options [] = []"
| "cmd_options (CmdOption c v # items) = (c, v) # cmd_options items"
| "cmd_options (CmdArg s # items) = cmd_options items"

fun cmd_args :: "cmd_item list \<Rightarrow> string list" where
  "cmd_args [] = []"
| "cmd_args (CmdOption c v # items) = cmd_args items"
| "cmd_args (CmdArg s # items) = s # cmd_args items"

definition cmd_ok :: "char list \<Rightarrow> cmd_item list \<Rightarrow> bool" where
  "cmd_ok options items \<longleftrightarrow> (\<forall>s \<in> set (cmd_args items). take 1 s \<noteq> ''-'') \<and>
     (\<forall>(c, v) \<in> set (cmd_options items). c \<in> set options)"

text \<open>Options come first, then the numbered arguments, then the end.\<close>

definition cmd_calls :: "cmd_item list \<Rightarrow> (argp_key \<times> string \<times> nat) list" where
  "cmd_calls items = map (\<lambda>(c, v). (ArgpOption c, v, 0)) (cmd_options items) @
     map (\<lambda>(n, s). (ARGP_KEY_ARG, s, n)) (enumerate 0 (cmd_args items)) @
     [(ARGP_KEY_END, '''', length (cmd_args items))]"

definition is_other :: "argp_key \<times> string \<times> nat \<Rightarrow> bool" where
  "is_other c = (case fst c of ArgpOther n \<Rightarrow> True | _ \<Rightarrow> False)"

text \<open>Calls with other keys (the start and the end of the parser itself, for instance) may come in between.\<close>

definition argp_ok :: "'a argp_parse \<Rightarrow> bool" where
  "argp_ok parse \<longleftrightarrow> (\<forall>options p items a. cmd_ok options items \<longrightarrow>
     (\<exists>calls. filter (\<lambda>c. \<not> is_other c) calls = cmd_calls items \<and>
        parse options p (cmd_words items) a = argp_calls p calls a))"

section \<open>The host\<close>

text \<open>
  \<open>file_at\<close> observes the contents of the file of a name, \<open>temp_file\<close> the name a descriptor was created for by
  \<^verbatim>\<open>mkstemp\<close>.
\<close>

record 'f posix =
  posix_open :: "string \<Rightarrow> 'f \<Rightarrow> int \<times> 'f"
  posix_read :: "int \<Rightarrow> nat \<Rightarrow> 'f \<Rightarrow> int \<times> u8 list \<times> 'f"
  posix_write :: "int \<Rightarrow> u8 list \<Rightarrow> 'f \<Rightarrow> int \<times> 'f"
  posix_close :: "int \<Rightarrow> 'f \<Rightarrow> 'f"
  posix_mkstemp :: "string \<Rightarrow> 'f \<Rightarrow> int \<times> string \<times> 'f"
  posix_rename :: "string \<Rightarrow> string \<Rightarrow> 'f \<Rightarrow> int \<times> 'f"
  file_at :: "'f \<Rightarrow> string \<Rightarrow> u8 list option"
  temp_file :: "'f \<Rightarrow> int \<Rightarrow> string option"

text \<open>
  A program ends with a status, or with the message of the command line parser.
\<close>

datatype exit = ExitUsage | ExitStatus int

text \<open>The local variables of the programs, which hold arbitrary values before they are set.\<close>

record tool_stack =
  stack_context :: sha1_context
  stack_desc :: nanotorrent_torrent_desc
  stack_buffer :: "u8 list"
  stack_data :: "u8 list"
  stack_hash_string :: string
  stack_name :: string

section \<open>nanogen\<close>

definition NANOGEN_DEFAULT_PIECE_SIZE :: int where
  "NANOGEN_DEFAULT_PIECE_SIZE = 256"

definition nanogen_options :: "char list" where
  "nanogen_options = [CHR ''o'', CHR ''p'']"

record nanogen_arguments =
  arg_src_file :: "string option"
  arg_tracker_ip :: "string option"
  arg_tracker_port :: int
  arg_dest_file :: "string option"
  arg_piece_size :: int

definition nanogen_parse_opt :: "nanogen_arguments parse_opt" where
  "nanogen_parse_opt key arg arg_num arguments =
    (case key of
       ArgpOption c \<Rightarrow>
         if c = CHR ''o'' then Some (ArgpParsed (arguments\<lparr>arg_dest_file := Some arg\<rparr>))
         else if c = CHR ''p'' then map_option (\<lambda>n. ArgpParsed (arguments\<lparr>arg_piece_size := n\<rparr>)) (atoi arg)
         else Some ARGP_ERR_UNKNOWN
     | ARGP_KEY_ARG \<Rightarrow>
         if arg_num = 0 then Some (ArgpParsed (arguments\<lparr>arg_src_file := Some arg\<rparr>))
         else if arg_num = 1 then Some (ArgpParsed (arguments\<lparr>arg_tracker_ip := Some arg\<rparr>))
         else if arg_num = 2 then map_option (\<lambda>n. ArgpParsed (arguments\<lparr>arg_tracker_port := n\<rparr>)) (atoi arg)
         else Some ArgpUsage
     | ARGP_KEY_END \<Rightarrow> if arg_num < 3 then Some ArgpUsage else Some (ArgpParsed arguments)
     | ArgpOther n \<Rightarrow> Some ARGP_ERR_UNKNOWN)"

definition nanogen_default_arguments :: nanogen_arguments where
  "nanogen_default_arguments = \<lparr>arg_src_file = None, arg_tracker_ip = None, arg_tracker_port = 0, arg_dest_file = None,
     arg_piece_size = NANOGEN_DEFAULT_PIECE_SIZE\<rparr>"

text \<open>The name the output gets: the one of the option, or the info hash in hexadecimal with an ending.\<close>

definition nanogen_dest_name :: "tool_stack \<Rightarrow> nanotorrent_torrent_info \<Rightarrow> string option \<Rightarrow> string option" where
  "nanogen_dest_name st ti dest =
    (case dest of
       Some name \<Rightarrow> Some name
     | None \<Rightarrow> do {
         (_, info_hash) \<leftarrow> nanotorrent_torrent_info_hash (stack_context st) (stack_data st) ti;
         let info_hash_string = sha1_write (stack_hash_string st) info_hash;
         let dest_gen_name = memcpy_at (stack_name st) 0 (cstring info_hash_string @ [CHR 0x00]);
         let dest_gen_name = memcpy_at dest_gen_name (2 * SHA1_HASH_SIZE) (''.nanotorrent'' @ [CHR 0x00]);
         Some (cstring dest_gen_name) })"

text \<open>From the open source file to the end of the program.\<close>

definition nanogen_write :: "'f posix \<Rightarrow> tool_stack \<Rightarrow> nanotorrent_torrent_desc \<Rightarrow> string option \<Rightarrow> 'f \<Rightarrow>
    (exit \<times> 'f) option" where
  "nanogen_write P st d dest f = do {
     (buffer, desc_len) \<leftarrow> nanotorrent_pack_torrent_desc d (stack_buffer st, 0);
     let (out_file, out_name, f) = posix_mkstemp P ''nanogenXXXXXX'' f;
     if out_file < 0 then Some (ExitStatus (- 1), f)
     else
       (let (r, f) = posix_write P out_file (take desc_len buffer) f in
        if r \<noteq> int desc_len then Some (ExitStatus (- 1), posix_close P out_file f)
        else do {
          dest_name \<leftarrow> nanogen_dest_name st (desc_info d) dest;
          let (r, f) = posix_rename P out_name dest_name f;
          Some (ExitStatus 0, posix_close P out_file f) }) }"

definition nanogen_main :: "nanogen_arguments argp_parse \<Rightarrow> ('f, 'm, 't) contiki \<Rightarrow> 'f posix \<Rightarrow>
    (string \<Rightarrow> ip6addr \<Rightarrow> bool \<times> ip6addr) \<Rightarrow> tool_stack \<Rightarrow> string list \<Rightarrow> 'f \<Rightarrow> (exit \<times> 'f) option" where
  "nanogen_main argp_parse K P uiplib_ip6addrconv st argv f = do {
     r \<leftarrow> argp_parse nanogen_options nanogen_parse_opt argv nanogen_default_arguments;
     (case r of
        None \<Rightarrow> Some (ExitUsage, f)
      | Some arguments \<Rightarrow> do {
          src_name \<leftarrow> arg_src_file arguments;
          let (src_file, f) = posix_open P src_name f;
          if src_file < 0 then Some (ExitStatus (- 1), f)
          else do {
            ip \<leftarrow> arg_tracker_ip arguments;
            let d = stack_desc st;
            let d = d\<lparr>tracker_ip := snd (uiplib_ip6addrconv ip (tracker_ip d))\<rparr>;
            let d = d\<lparr>tracker_port := of_int (arg_tracker_port arguments)\<rparr>;
            (ok, ti, f) \<leftarrow> nanotorrent_torrent_info_create K (stack_context st) (desc_info d) src_file
              (of_int (arg_piece_size arguments)) f;
            let d = d\<lparr>desc_info := ti\<rparr>;
            let f = posix_close P src_file f;
            if \<not> ok then Some (ExitStatus (- 1), f)
            else nanogen_write P st d (arg_dest_file arguments) f } }) }"

section \<open>nanoread\<close>

record nanoread_arguments =
  read_src_file :: "string option"

definition nanoread_parse_opt :: "nanoread_arguments parse_opt" where
  "nanoread_parse_opt key arg arg_num arguments =
    (case key of
       ARGP_KEY_ARG \<Rightarrow>
         if arg_num = 0 then Some (ArgpParsed (arguments\<lparr>read_src_file := Some arg\<rparr>))
         else Some ArgpUsage
     | ARGP_KEY_END \<Rightarrow> if arg_num < 1 then Some ArgpUsage else Some (ArgpParsed arguments)
     | _ \<Rightarrow> Some ARGP_ERR_UNKNOWN)"

fun nanoread_pieces :: "sha1_digest_t list \<Rightarrow> nat \<Rightarrow> nat \<Rightarrow> string option" where
  "nanoread_pieces hs i 0 = Some []"
| "nanoread_pieces hs i (Suc n) =
    (if i < length hs
     then map_option (\<lambda>out. decimal_2 i @ '' | '' @ sha1_print (hs ! i) @ newline @ out) (nanoread_pieces hs (Suc i) n)
     else None)"

definition nanoread_print :: "(ip6addr \<Rightarrow> string) \<Rightarrow> string \<Rightarrow> nanotorrent_torrent_desc \<Rightarrow> string option" where
  "nanoread_print print6addr info_hash_string d =
    map_option (\<lambda>pieces.
      ''Info hash:'' @ tab @ cstring info_hash_string @ newline @
      ''Tracker:'' @ tab @ ''['' @ print6addr (tracker_ip d) @ '']:'' @ decimal (unat (tracker_port d)) @ newline @
      ''File size:'' @ tab @ decimal (unat (file_size (desc_info d))) @ '' B'' @ newline @
      ''Piece size:'' @ tab @ decimal (unat (piece_size (desc_info d))) @ '' B'' @ newline @
      ''Nb of pieces:'' @ tab @ decimal (unat (num_pieces (desc_info d))) @ newline @
      newline @ '' # | Piece SHA-1'' @ newline @ pieces)
    (nanoread_pieces (piece_hashes (desc_info d)) 0 (unat (num_pieces (desc_info d))))"

text \<open>The result is how the program ends and what it has printed.\<close>

definition nanoread_main :: "nanoread_arguments argp_parse \<Rightarrow> 'f posix \<Rightarrow> (ip6addr \<Rightarrow> string) \<Rightarrow> tool_stack \<Rightarrow>
    string list \<Rightarrow> 'f \<Rightarrow> (exit \<times> string \<times> 'f) option" where
  "nanoread_main argp_parse P print6addr st argv f = do {
     r \<leftarrow> argp_parse [] nanoread_parse_opt argv \<lparr>read_src_file = None\<rparr>;
     (case r of
        None \<Rightarrow> Some (ExitUsage, [], f)
      | Some arguments \<Rightarrow> do {
          src_name \<leftarrow> read_src_file arguments;
          let (src_file, f) = posix_open P src_name f;
          if src_file < 0 then Some (ExitStatus (- 1), ERROR ''nanoread.c'' 75 ''main'' ''Could not open source file'', f)
          else
            (let (buffer_len, bytes, f) = posix_read P src_file (length (stack_buffer st)) f in
             if buffer_len < 0 then
               Some (ExitStatus (- 1), ERROR ''nanoread.c'' 83 ''main'' ''Could not read source file'', posix_close P src_file f)
             else do {
               (d, _, desc_len) \<leftarrow> nanotorrent_unpack_torrent_desc (stack_desc st) (memcpy_at (stack_buffer st) 0 bytes, 0);
               if buffer_len \<noteq> int desc_len then
                 Some (ExitStatus (- 1), ERROR ''nanoread.c'' 92 ''main'' ''Malformed source file'', posix_close P src_file f)
               else do {
                 (_, info_hash) \<leftarrow> nanotorrent_torrent_info_hash (stack_context st) (stack_data st) (desc_info d);
                 out \<leftarrow> nanoread_print print6addr (sha1_write (stack_hash_string st) info_hash) d;
                 Some (ExitStatus 0, out, f) } }) }) }"

section \<open>Documented behaviour of the host\<close>

text \<open>
  Opening a file for reading gives a descriptor at its start, reading gives the next bytes, \<^verbatim>\<open>mkstemp\<close> creates an empty file
  under a new name, the first write to it stores the bytes it reports, renaming moves a file over any other (there are no
  hard links). Reading, seeking and closing leave all files alone, and a call that fails leaves them as they were.
\<close>

definition posix_open_ok :: "('f, 'm, 't) contiki \<Rightarrow> 'f posix \<Rightarrow> bool" where
  "posix_open_ok K P \<longleftrightarrow> (\<forall>name f fd f'. posix_open P name f = (fd, f') \<longrightarrow> file_at P f' = file_at P f \<and>
     (0 \<le> fd \<longrightarrow> file_at P f name = Some (cfs_content K f' fd) \<and> cfs_pos K f' fd = 0))"

definition posix_read_ok :: "('f, 'm, 't) contiki \<Rightarrow> 'f posix \<Rightarrow> bool" where
  "posix_read_ok K P \<longleftrightarrow> (\<forall>fd n f r bs f'. posix_read P fd n f = (r, bs, f') \<longrightarrow> file_at P f' = file_at P f \<and>
     (0 \<le> r \<longrightarrow> r = int (length bs) \<and> length bs \<le> n \<and>
        bs = take (length bs) (drop (cfs_pos K f fd) (cfs_content K f fd))))"

definition posix_passive :: "('f, 'm, 't) contiki \<Rightarrow> 'f posix \<Rightarrow> bool" where
  "posix_passive K P \<longleftrightarrow> (\<forall>fd off w f. file_at P (snd (cfs_seek K fd off w f)) = file_at P f) \<and>
     (\<forall>fd n f. file_at P (snd (snd (cfs_read K fd n f))) = file_at P f) \<and>
     (\<forall>fd f. file_at P (posix_close P fd f) = file_at P f)"

definition posix_mkstemp_ok :: "('f, 'm, 't) contiki \<Rightarrow> 'f posix \<Rightarrow> bool" where
  "posix_mkstemp_ok K P \<longleftrightarrow> (\<forall>template f fd name f'. posix_mkstemp P template f = (fd, name, f') \<longrightarrow>
     (if fd < 0 then file_at P f' = file_at P f
      else file_at P f name = None \<and> file_at P f' = (file_at P f)(name \<mapsto> []) \<and> temp_file P f' fd = Some name \<and>
        cfs_pos K f' fd = 0))"

definition posix_write_ok :: "('f, 'm, 't) contiki \<Rightarrow> 'f posix \<Rightarrow> bool" where
  "posix_write_ok K P \<longleftrightarrow> (\<forall>fd bs f r f' name. posix_write P fd bs f = (r, f') \<longrightarrow>
     temp_file P f fd = Some name \<longrightarrow> file_at P f name = Some [] \<longrightarrow> cfs_pos K f fd = 0 \<longrightarrow>
     r \<le> int (length bs) \<and> file_at P f' = (file_at P f)(name \<mapsto> take (nat r) bs))"

definition posix_rename_ok :: "'f posix \<Rightarrow> bool" where
  "posix_rename_ok P \<longleftrightarrow> (\<forall>old new f r f'. posix_rename P old new f = (r, f') \<longrightarrow>
     file_at P f' = (if r = 0 then (file_at P f)(old := None, new := file_at P f old) else file_at P f))"

definition posix_ok :: "('f, 'm, 't) contiki \<Rightarrow> 'f posix \<Rightarrow> bool" where
  "posix_ok K P \<longleftrightarrow> posix_open_ok K P \<and> posix_read_ok K P \<and> posix_passive K P \<and> posix_mkstemp_ok K P \<and>
     posix_write_ok K P \<and> posix_rename_ok P"

text \<open>A host on which the calls of the programs do not fail: existing files can be opened and renamed, reads and writes are complete.\<close>

definition posix_reliable :: "('f, 'm, 't) contiki \<Rightarrow> 'f posix \<Rightarrow> bool" where
  "posix_reliable K P \<longleftrightarrow>
     (\<forall>name f. file_at P f name \<noteq> None \<longrightarrow> 0 \<le> fst (posix_open P name f)) \<and>
     (\<forall>fd n f. fst (posix_read P fd n f) = int (min n (length (cfs_content K f fd) - cfs_pos K f fd))) \<and>
     (\<forall>template f. 0 \<le> fst (posix_mkstemp P template f)) \<and>
     (\<forall>fd bs f. temp_file P f fd \<noteq> None \<longrightarrow> fst (posix_write P fd bs f) = int (length bs)) \<and>
     (\<forall>old new f. file_at P f old \<noteq> None \<longrightarrow> fst (posix_rename P old new f) = 0)"

text \<open>The local variables have the sizes of their declarations.\<close>

definition stack_ok :: "tool_stack \<Rightarrow> bool" where
  "stack_ok st \<longleftrightarrow> length (next_block (stack_context st)) = 64 \<and> desc_ok (stack_desc st) \<and> length (stack_buffer st) = 1024 \<and>
     645 \<le> length (stack_data st) \<and> length (stack_hash_string st) = 41 \<and> length (stack_name st) = 128"

section \<open>A concrete host\<close>

text \<open>
  Files by name, and open descriptors as the name of their file, their position and whether they may be written. Names of
  temporary files are as long as needed to be new.
\<close>

record sim_host =
  host_files :: "(string \<times> u8 list) list"
  host_fds :: "int \<Rightarrow> string \<times> nat \<times> bool"
  host_next :: nat

definition host_file :: "sim_host \<Rightarrow> string \<Rightarrow> u8 list option" where
  "host_file h = map_of (host_files h)"

definition host_content :: "sim_host \<Rightarrow> int \<Rightarrow> u8 list" where
  "host_content h fd = (case host_file h (fst (host_fds h fd)) of None \<Rightarrow> [] | Some c \<Rightarrow> c)"

definition host_pos :: "sim_host \<Rightarrow> int \<Rightarrow> nat" where
  "host_pos h fd = fst (snd (host_fds h fd))"

definition host_temp :: "sim_host \<Rightarrow> int \<Rightarrow> string option" where
  "host_temp h fd = (case host_fds h fd of (name, p, writable) \<Rightarrow> if writable then Some name else None)"

definition host_move :: "int \<Rightarrow> nat \<Rightarrow> sim_host \<Rightarrow> sim_host" where
  "host_move fd p h = h\<lparr>host_fds := (host_fds h)(fd := (fst (host_fds h fd), p, snd (snd (host_fds h fd))))\<rparr>"

definition host_new_fd :: "string \<Rightarrow> bool \<Rightarrow> sim_host \<Rightarrow> int \<times> sim_host" where
  "host_new_fd name writable h = (int (host_next h),
     h\<lparr>host_fds := (host_fds h)(int (host_next h) := (name, 0, writable)), host_next := Suc (host_next h)\<rparr>)"

definition host_read :: "int \<Rightarrow> nat \<Rightarrow> sim_host \<Rightarrow> int \<times> u8 list \<times> sim_host" where
  "host_read fd n h =
    (let bs = take n (drop (host_pos h fd) (host_content h fd))
     in (int (length bs), bs, host_move fd (host_pos h fd + length bs) h))"

definition host_seek :: "int \<Rightarrow> int \<Rightarrow> whence \<Rightarrow> sim_host \<Rightarrow> int \<times> sim_host" where
  "host_seek fd off w h =
    (let p = (case w of CFS_SEEK_SET \<Rightarrow> off | CFS_SEEK_END \<Rightarrow> int (length (host_content h fd)) + off)
     in (p, host_move fd (nat p) h))"

definition host_write :: "int \<Rightarrow> u8 list \<Rightarrow> sim_host \<Rightarrow> int \<times> sim_host" where
  "host_write fd bs h =
    (case host_temp h fd of
       None \<Rightarrow> (- 1, h)
     | Some name \<Rightarrow> (int (length bs), host_move fd (host_pos h fd + length bs)
         (h\<lparr>host_files := (name, fst (snd (sim_write bs (host_content h fd, host_pos h fd)))) # host_files h\<rparr>)))"

definition host_open :: "string \<Rightarrow> sim_host \<Rightarrow> int \<times> sim_host" where
  "host_open name h = (case host_file h name of None \<Rightarrow> (- 1, h) | Some c \<Rightarrow> host_new_fd name False h)"

definition host_mkstemp :: "string \<Rightarrow> sim_host \<Rightarrow> int \<times> string \<times> sim_host" where
  "host_mkstemp template h =
    (let name = replicate (Suc (sum_list (map (length \<circ> fst) (host_files h)))) CHR ''X'';
         (fd, h) = host_new_fd name True h
     in (fd, name, h\<lparr>host_files := (name, []) # host_files h\<rparr>))"

definition host_rename :: "string \<Rightarrow> string \<Rightarrow> sim_host \<Rightarrow> int \<times> sim_host" where
  "host_rename old new h =
    (case host_file h old of
       None \<Rightarrow> (- 1, h)
     | Some c \<Rightarrow> (0, h\<lparr>host_files := (new, c) # filter (\<lambda>f. fst f \<noteq> old) (host_files h)\<rparr>))"

definition host_contiki :: "(sim_host, sim_memb, sim_timer) contiki" where
  "host_contiki = \<lparr>
     int_bits = 32, clock_second = 128, clock_bits = 32, udp_payload = 100,
     list_push = list_push sim_contiki, list_pop = list_pop sim_contiki, list_remove = list_remove sim_contiki,
     memb_init = memb_init sim_contiki, memb_alloc = memb_alloc sim_contiki, memb_free = memb_free sim_contiki,
     memb_inmemb = memb_inmemb sim_contiki, memb_allocated = memb_allocated sim_contiki, memb_capacity = memb_capacity sim_contiki,
     etimer_set = etimer_set sim_contiki, etimer_stop = etimer_stop sim_contiki, etimer_restart = etimer_restart sim_contiki,
     etimer_reset = etimer_reset sim_contiki, etimer_adjust = etimer_adjust sim_contiki, etimer_expired = etimer_expired sim_contiki,
     cfs_open = host_open, cfs_close = (\<lambda>fd h. h), cfs_seek = host_seek, cfs_read = host_read,
     cfs_write = (\<lambda>fd bs h. (- 1, h)), cfs_content = host_content, cfs_pos = host_pos,
     ip6addr_cmp = (=), is_addr_linklocal = is_addr_linklocal sim_contiki, is_addr_mcast = is_addr_mcast sim_contiki,
     linklocal_allnodes_mcast = linklocal_allnodes_mcast sim_contiki, ds6_has_global = (\<lambda>t. True),
     process_post_ok = (\<lambda>out. True) \<rparr>"

definition host_posix :: "sim_host posix" where
  "host_posix = \<lparr>posix_open = host_open, posix_read = host_read, posix_write = host_write, posix_close = (\<lambda>fd h. h),
     posix_mkstemp = host_mkstemp, posix_rename = host_rename, file_at = host_file, temp_file = host_temp\<rparr>"

lemma host_new_fd_simps [simp]:
  "host_file (snd (host_new_fd name w h)) = host_file h" "host_files (snd (host_new_fd name w h)) = host_files h"
  "host_fds (snd (host_new_fd name w h)) (fst (host_new_fd name w h)) = (name, 0, w)" "0 \<le> fst (host_new_fd name w h)"
  by (simp_all add: host_new_fd_def host_file_def)

lemma host_move_simps [simp]:
  "host_file (host_move fd p h) = host_file h" "host_content (host_move fd p h) = host_content h"
  "host_pos (host_move fd p h) fd = p" "host_files (host_move fd p h) = host_files h"
  by (simp_all add: host_move_def host_file_def host_content_def host_pos_def fun_eq_iff)

lemma host_cfs_ok: "cfs_ok host_contiki"
proof -
  have "cfs_seek_ok host_contiki"
    by (simp add: cfs_seek_ok_def host_contiki_def host_seek_def Let_def)
  moreover have "cfs_read_ok host_contiki"
    by (simp add: cfs_read_ok_def host_contiki_def host_read_def Let_def min_def)
  moreover have "cfs_write_ok host_contiki"
    by (simp add: cfs_write_ok_def host_contiki_def)
  ultimately show ?thesis
    by (simp add: cfs_ok_def)
qed

lemma host_cfs_reliable: "cfs_reliable host_contiki"
  by (simp add: cfs_reliable_def host_contiki_def host_seek_def host_read_def Let_def)

lemma host_new_name: "map_of fs (replicate (Suc (sum_list (map (length \<circ> fst) fs))) CHR ''X'') = (None :: 'a option)"
proof (rule ccontr)
  assume "map_of fs (replicate (Suc (sum_list (map (length \<circ> fst) fs))) CHR ''X'') \<noteq> None"
  then have "Suc (sum_list (map (length \<circ> fst) fs)) \<in> set (map (length \<circ> fst) fs)"
    by (force dest: map_of_SomeD)
  from member_le_sum_list [OF this] show False by simp
qed

lemma map_of_filter_key: "map_of (filter (\<lambda>f. fst f \<noteq> k) fs) = (map_of fs)(k := None)"
  by (induction fs) (auto simp: fun_eq_iff)

lemma host_posix_ok: "posix_ok host_contiki host_posix"
proof -
  have "posix_open_ok host_contiki host_posix"
    by (auto simp: posix_open_ok_def host_contiki_def host_posix_def host_open_def host_content_def host_pos_def
        host_new_fd_def host_file_def split: option.splits)
  moreover have "posix_read_ok host_contiki host_posix"
    by (simp add: posix_read_ok_def host_contiki_def host_posix_def host_read_def Let_def min_def)
  moreover have "posix_passive host_contiki host_posix"
    by (simp add: posix_passive_def host_contiki_def host_posix_def host_seek_def host_read_def Let_def)
  moreover have "posix_mkstemp_ok host_contiki host_posix"
    by (auto simp: posix_mkstemp_ok_def host_posix_def host_contiki_def host_pos_def host_mkstemp_def Let_def host_new_fd_def host_temp_def
        host_file_def host_new_name simp del: replicate.simps)
  moreover have "posix_write_ok host_contiki host_posix"
    by (auto simp: posix_write_ok_def host_posix_def host_contiki_def host_write_def host_content_def host_temp_def sim_write_def
        host_file_def fun_eq_iff split: prod.splits if_splits)
  moreover have "posix_rename_ok host_posix"
    by (auto simp: posix_rename_ok_def host_posix_def host_rename_def host_file_def map_of_filter_key split: option.splits)
  ultimately show ?thesis
    by (simp add: posix_ok_def)
qed

lemma host_posix_reliable: "posix_reliable host_contiki host_posix"
  by (simp add: posix_reliable_def host_contiki_def host_posix_def host_open_def host_read_def host_mkstemp_def host_write_def
      host_rename_def host_new_fd_def Let_def min.commute split: option.split prod.split)

end
