(* ===== verification/Tools_Props.thy ===== *)
theory Tools_Props
  imports Tools
begin

text \<open>
  The properties of \<^verbatim>\<open>nanogen\<close> and \<^verbatim>\<open>nanoread\<close>: the command line, what a run of \<^verbatim>\<open>nanogen\<close> does to the files of the host, which files
  \<^verbatim>\<open>nanoread\<close> accepts, and that it prints what \<^verbatim>\<open>nanogen\<close> has written.
\<close>

section \<open>The command line\<close>

fun scan :: "char list \<Rightarrow> string list \<Rightarrow> cmd_item list" where
  "scan options [] = []"
| "scan options [w] = [CmdArg w]"
| "scan options (w # v # ws) =
    (if length w = 2 \<and> hd w = CHR ''-'' \<and> w ! 1 \<in> set options then CmdOption (w ! 1) v # scan options ws
     else CmdArg w # scan options (v # ws))"

lemma scan_words: "cmd_ok options items \<Longrightarrow> scan options (cmd_words items) = items"
proof (induction items rule: cmd_words.induct)
  case (3 s items)
  have s: "\<not> (length s = 2 \<and> hd s = CHR ''-'' \<and> s ! 1 \<in> set options)"
    using 3(2) by (cases s) (auto simp: cmd_ok_def)
  have "scan options (cmd_words items) = items"
    using 3 by (simp add: cmd_ok_def)
  then show ?case
    using s by (cases "cmd_words items") auto
qed (auto simp: cmd_ok_def)

definition host_argp :: "'a argp_parse" where
  "host_argp options p argv = argp_calls p (cmd_calls (scan options argv))"

lemma host_argp_ok: "argp_ok host_argp"
proof -
  have "filter (\<lambda>c. \<not> is_other c) (cmd_calls items) = cmd_calls items" for items
    by (intro filter_True) (auto simp: cmd_calls_def is_other_def)
  then show ?thesis
    by (auto simp: argp_ok_def host_argp_def scan_words intro!: exI)
qed

lemma argp_calls_other:
  assumes "\<And>n arg k a. p (ArgpOther n) arg k a = Some ARGP_ERR_UNKNOWN"
  shows "argp_calls p calls a = argp_calls p (filter (\<lambda>c. \<not> is_other c) calls) a"
proof (induction calls arbitrary: a)
  case (Cons c calls)
  obtain key arg n where c: "c = (key, arg, n)"
    by (cases c)
  show ?case
  proof (cases "is_other c")
    case True
    then show ?thesis
      using Cons by (cases key) (simp_all add: c is_other_def assms)
  next
    case False
    show ?thesis
    proof (cases "p key arg n a")
      case None
      then show ?thesis
        using False by (simp add: c)
    next
      case (Some r)
      then show ?thesis
        using False Cons by (cases r; cases key) (simp_all add: c)
    qed
  qed
qed simp

lemma argp_okD:
  assumes "argp_ok parse" "cmd_ok options items" "\<And>n arg k a. p (ArgpOther n) arg k a = Some ARGP_ERR_UNKNOWN"
  shows "parse options p (cmd_words items) a = argp_calls p (cmd_calls items) a"
  using assms(1,2) argp_calls_other [of p, OF assms(3)] unfolding argp_ok_def by metis

definition set_option :: "char \<times> string \<Rightarrow> nanogen_arguments \<Rightarrow> nanogen_arguments" where
  "set_option = (\<lambda>(c, v) a. if c = CHR ''o'' then a\<lparr>arg_dest_file := Some v\<rparr> else a\<lparr>arg_piece_size := the (atoi v)\<rparr>)"

lemma nanogen_options_calls:
  assumes "\<forall>(c, v) \<in> set opts. c = CHR ''o'' \<or> c = CHR ''p'' \<and> atoi v \<noteq> None"
  shows "argp_calls nanogen_parse_opt (map (\<lambda>(c, v). (ArgpOption c, v, 0)) opts @ calls) a =
    argp_calls nanogen_parse_opt calls (fold set_option opts a)"
  using assms
  by (induction opts arbitrary: a) (auto simp: nanogen_parse_opt_def set_option_def)

lemma set_options_fields:
  assumes "\<forall>(c, v) \<in> set opts. c = CHR ''o'' \<or> c = CHR ''p'' \<and> atoi v \<noteq> None"
  shows "fold set_option opts a = a\<lparr>
    arg_dest_file := (case map_of (rev opts) CHR ''o'' of None \<Rightarrow> arg_dest_file a | Some v \<Rightarrow> Some v),
    arg_piece_size := (case map_of (rev opts) CHR ''p'' of None \<Rightarrow> arg_piece_size a | Some v \<Rightarrow> the (atoi v))\<rparr>"
  using assms
  by (induction opts arbitrary: a) (auto simp: set_option_def map_add_def split: option.splits)

text \<open>
  C29: the command line of \<^verbatim>\<open>nanogen\<close>, options with a value and arguments in any order: with exactly three arguments they are the source file, the
  tracker's address and its port, the last \<^verbatim>\<open>-o\<close> gives the destination and the last \<^verbatim>\<open>-p\<close> the piece size, which is 256 without one. With fewer or more
  arguments the program ends with a usage message.
\<close>

theorem nanogen_command_line:
  assumes "argp_ok parse" "cmd_ok nanogen_options items"
    and "\<forall>v. (CHR ''p'', v) \<in> set (cmd_options items) \<longrightarrow> atoi v \<noteq> None"
    and "2 < length (cmd_args items) \<longrightarrow> atoi (cmd_args items ! 2) \<noteq> None"
  shows "parse nanogen_options nanogen_parse_opt (cmd_words items) nanogen_default_arguments =
    Some (if length (cmd_args items) = 3 then Some \<lparr>
      arg_src_file = Some (cmd_args items ! 0), arg_tracker_ip = Some (cmd_args items ! 1),
      arg_tracker_port = the (atoi (cmd_args items ! 2)),
      arg_dest_file = map_of (rev (cmd_options items)) CHR ''o'',
      arg_piece_size = (case map_of (rev (cmd_options items)) CHR ''p'' of None \<Rightarrow> 256 | Some v \<Rightarrow> the (atoi v))\<rparr>
    else None)"
proof -
  have o: "\<forall>(c, v) \<in> set (cmd_options items). c = CHR ''o'' \<or> c = CHR ''p'' \<and> atoi v \<noteq> None"
    using assms(2,3) by (auto simp: cmd_ok_def nanogen_options_def)
  have "parse nanogen_options nanogen_parse_opt (cmd_words items) nanogen_default_arguments =
      argp_calls nanogen_parse_opt (cmd_calls items) nanogen_default_arguments"
    using assms(1,2) by (rule argp_okD) (simp add: nanogen_parse_opt_def)
  also have "\<dots> = argp_calls nanogen_parse_opt (map (\<lambda>(n, s). (ARGP_KEY_ARG, s, n)) (enumerate 0 (cmd_args items)) @
      [(ARGP_KEY_END, '''', length (cmd_args items))]) (fold set_option (cmd_options items) nanogen_default_arguments)"
    unfolding cmd_calls_def by (rule nanogen_options_calls [OF o])
  finally have e: "parse nanogen_options nanogen_parse_opt (cmd_words items) nanogen_default_arguments = \<dots>" .
  consider "cmd_args items = []" | x where "cmd_args items = [x]" | x y where "cmd_args items = [x, y]"
    | x y z where "cmd_args items = [x, y, z]" | x y z u us where "cmd_args items = x # y # z # u # us"
    by (metis neq_Nil_conv)
  then show ?thesis
    unfolding e set_options_fields [OF o] using assms(4)
    by cases (auto simp: nanogen_parse_opt_def nanogen_default_arguments_def NANOGEN_DEFAULT_PIECE_SIZE_def split: option.splits)
qed

section \<open>Names\<close>

lemma hex_byte_chars: "c \<in> set (hex_byte b) \<Longrightarrow> c \<in> set ''0123456789abcdef''"
proof -
  have "''0123456789abcdef'' ! (unat b div 16) \<in> set ''0123456789abcdef''"
      "''0123456789abcdef'' ! (unat b mod 16) \<in> set ''0123456789abcdef''"
    using unat_u8_less [of b] by (intro nth_mem; simp add: less_mult_imp_div_less)+
  then show "c \<in> set (hex_byte b) \<Longrightarrow> c \<in> set ''0123456789abcdef''"
    unfolding hex_byte_def hex_digit_def by (auto simp del: nth_Cons_numeral)
qed

lemma cstring_end: "CHR 0x00 \<notin> set s \<Longrightarrow> cstring (s @ CHR 0x00 # t) = s"
  unfolding cstring_def by (subst takeWhile_append2) auto

lemma sha1_print_chars:
  assumes "length d = 20"
  shows "set (sha1_print d) \<subseteq> set ''0123456789abcdef'' \<and> CHR 0x00 \<notin> set (sha1_print d) \<and> length (sha1_print d) = 40"
proof -
  have s: "set (sha1_print d) \<subseteq> set ''0123456789abcdef''"
    using hex_byte_chars assms by (fastforce simp: sha1_print_eq simp del: list.set)
  moreover have "length (sha1_print d) = 40"
    using assms by (simp add: sha1_print_eq length_concat comp_def sum_list_triv)
  ultimately show ?thesis
    by auto
qed

definition generated_name :: "nanotorrent_torrent_info \<Rightarrow> string" where
  "generated_name ti = concat (map hex_byte (sha1_spec (enc_info ti))) @ ''.nanotorrent''"

lemma dest_name_generated:
  assumes "stack_ok st" "info_ok ti"
  shows "nanogen_dest_name st ti dest = Some (case dest of Some name \<Rightarrow> name | None \<Rightarrow> generated_name ti)"
proof (cases dest)
  case None
  let ?d = "sha1_spec (enc_info ti)"
  have st: "length (next_block (stack_context st)) = 64" "645 \<le> length (stack_data st)" "length (stack_hash_string st) = 41"
      "length (stack_name st) = 128"
    using assms(1) by (simp_all add: stack_ok_def)
  have d: "length ?d = 20" by simp
  note pr = sha1_print_chars [OF d]
  have w: "sha1_write (stack_hash_string st) ?d = sha1_print ?d @ [CHR 0x00]"
    using sha1_write_eq [OF d st(3)] .
  have c: "cstring (sha1_print ?d @ [CHR 0x00]) = sha1_print ?d"
    using cstring_end pr by blast
  have n: "memcpy_at (memcpy_at (stack_name st) 0 (sha1_print ?d @ [CHR 0x00])) 40 (''.nanotorrent'' @ [CHR 0x00]) =
      (sha1_print ?d @ ''.nanotorrent'') @ CHR 0x00 # drop 53 (stack_name st)"
    using pr st(4) by (simp add: memcpy_at_def)
  have "cstring ((sha1_print ?d @ ''.nanotorrent'') @ CHR 0x00 # drop 53 (stack_name st)) = sha1_print ?d @ ''.nanotorrent''"
    by (rule cstring_end) (use pr in simp)
  moreover have "generated_name ti = sha1_print ?d @ ''.nanotorrent''"
    by (simp only: generated_name_def sha1_print_eq [OF d])
  moreover have "2 * SHA1_HASH_SIZE = 40"
    by (simp add: SHA1_HASH_SIZE_def)
  ultimately show ?thesis
    unfolding nanogen_dest_name_def info_hash_spec [OF assms(2) st(2,1)] None option.case bind.simps Let_def prod.case w c
    by (simp only: n)
qed (simp add: nanogen_dest_name_def)

section \<open>Files that stay as they are\<close>

lemma passiveD:
  assumes "posix_passive K P"
  shows "cfs_seek K fd off w f = (r, f') \<Longrightarrow> file_at P f' = file_at P f"
    "cfs_read K fd n f = (r, bs, f') \<Longrightarrow> file_at P f' = file_at P f"
    "file_at P (posix_close P fd f) = file_at P f"
  using assms unfolding posix_passive_def by (metis snd_conv)+

lemma digest_loop_passive:
  assumes "digest_loop K fd c len rem f = Some y" "posix_passive K P"
  shows "file_at P (snd (snd y)) = file_at P f"
proof -
  have "posix_passive K P \<longrightarrow> file_at P (snd (snd y)) = file_at P f"
    apply (rule digest_loop.raw_induct [OF _ assms(1)])
    apply (rule impI)
    subgoal premises prems for loop K fd c len rem f y
    proof -
      obtain r bs g where rd: "cfs_read K fd (min (unat rem) NANOTORRENT_PIECE_BUFFER_SIZE) f = (r, bs, g)"
        by (rule prod_cases3)
      obtain ok c1 where add: "sha1_add c bs = (ok, c1)"
        by (cases "sha1_add c bs")
      note g = passiveD(2) [OF prems(3) rd]
      show ?thesis
      proof (cases "0 < rem \<and> r \<noteq> 0 \<and> \<not> r < 0 \<and> ok")
        case True
        then have "loop K fd c1 (len + word_of_int r) (rem - word_of_int r) g = Some y"
          using prems(2) rd add by simp
        from mp [OF prems(1) [OF this] prems(3)] g show ?thesis by simp
      next
        case False
        then show ?thesis
          using prems(2) rd add g by (auto split: if_splits)
      qed
    qed
    done
  with assms(2) show ?thesis by simp
qed

lemma create_loop_passive:
  assumes "posix_passive K P" "create_loop K fd ps c i ti f = Some (ok, ti', f')"
  shows "file_at P f' = file_at P f"
  using assms(2)
proof (induction "NANOTORRENT_MAX_PIECES - i" arbitrary: c i ti f rule: less_induct)
  case less
  show ?case
  proof (cases "nanotorrent_piece_digest K (sha1_reset c) fd ps f")
    case None
    then show ?thesis
      using less.prems by (subst (asm) create_loop.simps) simp
  next
    case (Some y)
    obtain r c1 g where y: "y = (r, c1, g)" by (rule prod_cases3)
    have g: "file_at P g = file_at P f"
      using digest_loop_passive [OF _ assms(1)] Some y by (fastforce simp: nanotorrent_piece_digest_def)
    obtain ok' digest c2 where res: "sha1_result c1 = (ok', digest, c2)" by (rule prod_cases3)
    show ?thesis
    proof (cases "Suc i < NANOTORRENT_MAX_PIECES \<and> r \<noteq> 0")
      case True
      then show ?thesis
        using less.prems g less.hyps [of "Suc i"]
        by (subst (asm) create_loop.simps) (auto simp: Some y res create_end_def Let_def split: if_splits)
    next
      case False
      then show ?thesis
        using less.prems g by (subst (asm) create_loop.simps) (auto simp: Some y res create_end_def Let_def split: if_splits)
    qed
  qed
qed

lemma info_create_passive:
  assumes "posix_passive K P" "nanotorrent_torrent_info_create K c ti fd ps f = Some (ok, ti', f')"
  shows "file_at P f' = file_at P f"
proof -
  obtain r1 f1 where s1: "cfs_seek K fd 0 CFS_SEEK_END f = (r1, f1)"
    by (cases "cfs_seek K fd 0 CFS_SEEK_END f")
  obtain r2 f2 where s2: "cfs_seek K fd 0 CFS_SEEK_SET f1 = (r2, f2)"
    by (cases "cfs_seek K fd 0 CFS_SEEK_SET f1")
  have "file_at P f' = file_at P f2"
    using create_loop_passive [OF assms(1)] assms(2) s1 s2 by (fastforce simp: nanotorrent_torrent_info_create_def)
  then show ?thesis
    using passiveD(1) [OF assms(1) s1] passiveD(1) [OF assms(1) s2] by simp
qed


section \<open>nanogen\<close>

lemma create_loop_total:
  assumes "cfs_ok K" "length (next_block c) = 64" "i < NANOTORRENT_MAX_PIECES" "hash_array (piece_hashes ti)"
  shows "\<exists>ok ti' f'. create_loop K fd ps c i ti f = Some (ok, ti', f') \<and> hash_array (piece_hashes ti') \<and>
    (ok \<longrightarrow> unat (num_pieces ti') \<le> NANOTORRENT_MAX_PIECES)"
  using assms(2-)
proof (induction "NANOTORRENT_MAX_PIECES - i" arbitrary: c i ti f rule: less_induct)
  case less
  obtain r c1 f1 where d: "nanotorrent_piece_digest K (sha1_reset c) fd ps f = Some (r, c1, f1)"
    and out: "digest_outcome K fd [] (unat ps) 0 f (r, c1, f1)"
    using digest_outcome_total [OF assms(1) less.prems(1), of fd ps f] by auto
  have i32: "i < length (piece_hashes ti)" "i < 32"
    using less.prems(2,3) by (simp_all add: hash_array_def NANOTORRENT_MAX_PIECES_def)
  have small: "unat (of_nat (Suc i) :: u8) \<le> 32" "unat (of_nat i :: u8) \<le> 32"
    using i32(2) by (simp_all only: unat_of_nat) simp_all
  show ?case
  proof (cases "r < 0")
    case True
    then show ?thesis
      using less.prems(3) d by (subst create_loop.simps) auto
  next
    case False
    then obtain bs where bs: "avr_repr c1 bs"
      using out by (auto simp: digest_outcome_def Let_def)
    obtain digest c2 where res: "sha1_result c1 = (True, digest, c2)"
      using avr.result_ok [OF bs] by (cases "sha1_result c1") auto
    have dig: "length digest = 20"
      using avr.result_spec [OF bs] res by simp
    have c2: "length (next_block c2) = 64"
      using res avr_repr_block [OF bs] by (auto simp: sha1_result_def Let_def)
    define ti1 where "ti1 = ti\<lparr>piece_hashes := (piece_hashes ti)[i := digest]\<rparr>"
    have ha: "hash_array (piece_hashes ti1)"
      using less.prems(3) dig by (simp add: ti1_def hash_array_update)
    show ?thesis
    proof (cases "r \<noteq> 0 \<and> Suc i < NANOTORRENT_MAX_PIECES")
      case True
      have "create_loop K fd ps c i ti f = create_loop K fd ps c2 (Suc i) ti1 f1"
        using d False res True i32 by (subst create_loop.simps) (simp add: ti1_def)
      moreover have "NANOTORRENT_MAX_PIECES - Suc i < NANOTORRENT_MAX_PIECES - i"
        using diff_less_mono2 [OF lessI less.prems(2)] .
      ultimately show ?thesis
        using less.hyps [of "Suc i" c2 ti1 f1] True c2 ha by simp
    next
      case last: False
      then have "create_loop K fd ps c i ti f =
          Some (if i = 0 \<or> 0 < r then create_end (Suc i) r ti1 f1 else create_end i r ti f1)"
        using d False res i32 by (subst create_loop.simps) (auto simp: ti1_def [symmetric])
      then show ?thesis
        using small ha less.prems(3) by (auto simp: create_end_def NANOTORRENT_MAX_PIECES_def split: if_splits)
    qed
  qed
qed

lemma info_create_total:
  assumes "cfs_ok K" "length (next_block c) = 64" "hash_array (piece_hashes ti)"
  shows "\<exists>ok ti' f'. nanotorrent_torrent_info_create K c ti fd ps f = Some (ok, ti', f') \<and> (ok \<longrightarrow> info_ok ti')"
proof -
  have z: "0 < NANOTORRENT_MAX_PIECES" by (simp add: NANOTORRENT_MAX_PIECES_def)
  obtain t g where "nanotorrent_torrent_info_create K c ti fd ps f = create_loop K fd ps c 0 t g" "piece_hashes t = piece_hashes ti"
    by (cases "cfs_seek K fd 0 CFS_SEEK_END f"; cases "cfs_seek K fd 0 CFS_SEEK_SET (snd (cfs_seek K fd 0 CFS_SEEK_END f))")
      (simp add: nanotorrent_torrent_info_create_def)
  then show ?thesis
    using create_loop_total [OF assms(1,2) z, of t fd ps g] assms(3) by (auto simp: info_ok_def)
qed

lemma posix_okD:
  assumes "posix_ok K P"
  shows "posix_open P name f = (fd, f') \<Longrightarrow> file_at P f' = file_at P f"
    "posix_open P name f = (fd, f') \<Longrightarrow> 0 \<le> fd \<Longrightarrow> file_at P f name = Some (cfs_content K f' fd) \<and> cfs_pos K f' fd = 0"
    "posix_mkstemp P t f = (fd, new, f') \<Longrightarrow> fd < 0 \<Longrightarrow> file_at P f' = file_at P f"
    "posix_mkstemp P t f = (fd, new, f') \<Longrightarrow> 0 \<le> fd \<Longrightarrow> file_at P f new = None \<and> file_at P f' = (file_at P f)(new \<mapsto> []) \<and>
       temp_file P f' fd = Some new \<and> cfs_pos K f' fd = 0"
    "posix_write P fd bs f = (r, f') \<Longrightarrow> temp_file P f fd = Some new \<Longrightarrow> file_at P f new = Some [] \<Longrightarrow> cfs_pos K f fd = 0 \<Longrightarrow>
       file_at P f' = (file_at P f)(new \<mapsto> take (nat r) bs)"
    "posix_rename P old new f = (r, f') \<Longrightarrow>
       file_at P f' = (if r = 0 then (file_at P f)(old := None, new := file_at P f old) else file_at P f)"
    "posix_passive K P"
proof -
  have ok: "posix_open_ok K P" "posix_mkstemp_ok K P" "posix_write_ok K P" "posix_rename_ok P"
    using assms by (simp_all add: posix_ok_def)
  show "posix_open P name f = (fd, f') \<Longrightarrow> file_at P f' = file_at P f"
    "posix_open P name f = (fd, f') \<Longrightarrow> 0 \<le> fd \<Longrightarrow> file_at P f name = Some (cfs_content K f' fd) \<and> cfs_pos K f' fd = 0"
    using ok(1) unfolding posix_open_ok_def by blast+
  show "posix_mkstemp P t f = (fd, new, f') \<Longrightarrow> fd < 0 \<Longrightarrow> file_at P f' = file_at P f"
    "posix_mkstemp P t f = (fd, new, f') \<Longrightarrow> 0 \<le> fd \<Longrightarrow> file_at P f new = None \<and> file_at P f' = (file_at P f)(new \<mapsto> []) \<and>
       temp_file P f' fd = Some new \<and> cfs_pos K f' fd = 0"
    using ok(2) unfolding posix_mkstemp_ok_def by (metis not_less)+
  show "posix_write P fd bs f = (r, f') \<Longrightarrow> temp_file P f fd = Some new \<Longrightarrow> file_at P f new = Some [] \<Longrightarrow> cfs_pos K f fd = 0 \<Longrightarrow>
       file_at P f' = (file_at P f)(new \<mapsto> take (nat r) bs)"
    using ok(3) unfolding posix_write_ok_def by blast
  show "posix_rename P old new f = (r, f') \<Longrightarrow>
       file_at P f' = (if r = 0 then (file_at P f)(old := None, new := file_at P f old) else file_at P f)"
    using ok(4) unfolding posix_rename_ok_def by blast
  show "posix_passive K P"
    using assms by (simp add: posix_ok_def)
qed

text \<open>What writing the descriptor does to the files, whatever calls fail: an existing file is replaced as a whole or kept.\<close>

definition replaced :: "(string \<Rightarrow> u8 list option) \<Rightarrow> string \<Rightarrow> u8 list \<Rightarrow> (string \<Rightarrow> u8 list option) \<Rightarrow> bool" where
  "replaced fs name bs fs' \<longleftrightarrow> (\<forall>n. fs n \<noteq> None \<longrightarrow> fs' n = fs n \<or> n = name \<and> fs' n = Some bs)"

lemma nanogen_write_outcome:
  fixes dest :: "string option"
  assumes "posix_ok K P" "stack_ok st" "desc_ok d"
  defines "name \<equiv> (case dest of Some n \<Rightarrow> n | None \<Rightarrow> generated_name (desc_info d))"
  shows "\<exists>status f'. nanogen_write P st d dest f = Some (ExitStatus status, f') \<and>
    replaced (file_at P f) name (enc_desc d) (file_at P f') \<and>
    (posix_reliable K P \<longrightarrow> status = 0 \<and> file_at P f' = (file_at P f)(name \<mapsto> enc_desc d))"
proof -
  note ok = posix_okD [OF assms(1)]
  have l: "length (enc_desc d) \<le> 1024"
    using assms(3) length_enc_desc [OF assms(3)] by (simp add: desc_ok_def info_ok_def NANOTORRENT_MAX_PIECES_def)
  obtain buffer where pack: "nanotorrent_pack_torrent_desc d (stack_buffer st, 0) = Some (buffer, length (enc_desc d))"
      "take (length (enc_desc d)) buffer = enc_desc d"
    using desc.pack_Some [OF assms(3), of 0 "stack_buffer st"] assms(2) l by (simp add: stack_ok_def memcpy_at_def)
  obtain fd new f1 where m: "posix_mkstemp P ''nanogenXXXXXX'' f = (fd, new, f1)"
    by (rule prod_cases3)
  show ?thesis
  proof (cases "fd < 0")
    case True
    have "\<not> posix_reliable K P"
      using True m unfolding posix_reliable_def by (metis fst_conv not_le)
    then show ?thesis
      using True ok(3) [OF m] by (simp add: nanogen_write_def pack m replaced_def)
  next
    case fd: False
    note t = ok(4) [OF m]
    obtain r f2 where w: "posix_write P fd (enc_desc d) f1 = (r, f2)"
      by (cases "posix_write P fd (enc_desc d) f1")
    have f2: "file_at P f2 = (file_at P f)(new \<mapsto> take (nat r) (enc_desc d))"
      using ok(5) [OF w, of new] t fd by simp
    show ?thesis
    proof (cases "r = int (length (enc_desc d))")
      case False
      have "\<not> posix_reliable K P"
        using False w t fd unfolding posix_reliable_def by (metis fst_conv not_less option.distinct(1))
      then show ?thesis
        using False fd t f2 passiveD(3) [OF ok(7)] by (auto simp: nanogen_write_def pack m w replaced_def)
    next
      case r: True
      have i: "info_ok (desc_info d)"
        using assms(3) by (simp add: desc_ok_def)
      obtain r3 f3 where rn: "posix_rename P new name f2 = (r3, f3)"
        by (cases "posix_rename P new name f2")
      have dn: "nanogen_dest_name st (desc_info d) dest = Some name"
        unfolding name_def using dest_name_generated [OF assms(2) i, of dest] by simp
      have res: "nanogen_write P st d dest f = Some (ExitStatus 0, posix_close P fd f3)"
        using fd r by (simp add: nanogen_write_def pack m w dn rn)
      have "posix_reliable K P \<longrightarrow> r3 = 0"
        using rn f2 unfolding posix_reliable_def by (metis fst_conv fun_upd_same option.distinct(1))
      moreover have "file_at P f3 = (if r3 = 0 then (file_at P f)(name \<mapsto> enc_desc d) else file_at P f2)"
        using ok(6) [OF rn] f2 r t fd by (auto simp: fun_eq_iff)
      ultimately show ?thesis
        using res f2 t fd passiveD(3) [OF ok(7)] by (auto simp: replaced_def)
    qed
  qed
qed


lemma reliable_open:
  assumes "posix_ok K P" "posix_reliable K P" "file_at P f name = Some content"
  shows "\<exists>fd f'. posix_open P name f = (fd, f') \<and> 0 \<le> fd \<and> cfs_content K f' fd = content \<and> cfs_pos K f' fd = 0 \<and>
    file_at P f' = file_at P f"
proof -
  obtain fd f' where o: "posix_open P name f = (fd, f')"
    by (cases "posix_open P name f")
  have fd: "0 \<le> fd"
    using assms(2,3) o unfolding posix_reliable_def by (metis fst_conv option.distinct(1))
  with posix_okD(1,2) [OF assms(1) o] o assms(3) show ?thesis by simp
qed

lemma nanogen_main_open:
  assumes "parse nanogen_options nanogen_parse_opt argv nanogen_default_arguments = Some (Some a)"
    and "arg_src_file a = Some src" "arg_tracker_ip a = Some ip" "posix_open P src f = (fd, f1)" "0 \<le> fd"
    and "nanotorrent_torrent_info_create K (stack_context st) (desc_info (stack_desc st)) fd (of_int (arg_piece_size a)) f1 =
      Some (ok, ti, f2)"
  shows "nanogen_main parse K P conv st argv f =
    (if ok then nanogen_write P st \<lparr>tracker_ip = snd (conv ip (tracker_ip (stack_desc st))),
       tracker_port = of_int (arg_tracker_port a), desc_info = ti\<rparr> (arg_dest_file a) (posix_close P fd f2)
     else Some (ExitStatus (- 1), posix_close P fd f2))"
  using assms by (cases "stack_desc st") (simp add: nanogen_main_def Let_def)

definition address_ok :: "(string \<Rightarrow> ip6addr \<Rightarrow> bool \<times> ip6addr) \<Rightarrow> bool" where
  "address_ok conv \<longleftrightarrow> (\<forall>s a. length a = 16 \<longrightarrow> length (snd (conv s a)) = 16)"

lemma nanogen_outcome:
  assumes "posix_ok K P" "posix_reliable K P" "cfs_ok K" "cfs_reliable K" "address_ok conv" "stack_ok st"
    and "parse nanogen_options nanogen_parse_opt argv nanogen_default_arguments = Some (Some a)"
    and "arg_src_file a = Some src" "arg_tracker_ip a = Some ip"
    and "file_at P f src = Some content" "length content < 65536" "0 < (of_int (arg_piece_size a) :: u16)"
  shows "if length content \<le> 31 * unat (of_int (arg_piece_size a) :: u16) then
      \<exists>f' d. nanogen_main parse K P conv st argv f = Some (ExitStatus 0, f') \<and> desc_ok d \<and> torrent_wf (desc_info d) \<and>
        tracker_ip d = snd (conv ip (tracker_ip (stack_desc st))) \<and> tracker_port d = of_int (arg_tracker_port a) \<and>
        unat (file_size (desc_info d)) = length content \<and> piece_size (desc_info d) = of_int (arg_piece_size a) \<and>
        (\<forall>i < unat (num_pieces (desc_info d)). piece_hashes (desc_info d) ! i =
           sha1_spec (take (piece_len (desc_info d) i) (drop (piece_off (desc_info d) i) content))) \<and>
        file_at P f' = (file_at P f)((case arg_dest_file a of Some name \<Rightarrow> name
           | None \<Rightarrow> generated_name (desc_info d)) \<mapsto> enc_desc d)
    else \<exists>f'. nanogen_main parse K P conv st argv f = Some (ExitStatus (- 1), f') \<and> file_at P f' = file_at P f"
proof -
  let ?ps = "of_int (arg_piece_size a) :: u16"
  obtain fd f1 where o: "posix_open P src f = (fd, f1)" "0 \<le> fd" "cfs_content K f1 fd = content" "file_at P f1 = file_at P f"
    using reliable_open [OF assms(1,2,10)] by blast
  have st: "length (next_block (stack_context st)) = 64" "hash_array (piece_hashes (desc_info (stack_desc st)))"
      "length (tracker_ip (stack_desc st)) = 16"
    using assms(6) by (simp_all add: stack_ok_def desc_ok_def info_ok_def)
  from info_create_outcome [OF assms(3,4,12) st(1,2) o(3)] obtain ok ti f2 where
    c: "nanotorrent_torrent_info_create K (stack_context st) (desc_info (stack_desc st)) fd ?ps f1 = Some (ok, ti, f2)"
      "ok \<longleftrightarrow> length content \<le> 31 * unat ?ps"
      "ok \<longrightarrow> created (unat ?ps) content ((desc_info (stack_desc st))\<lparr>file_size := of_nat (length content), piece_size := ?ps\<rparr>) ti"
    by blast
  note main = nanogen_main_open [where parse = parse and argv = argv and a = a and st = st, OF assms(7-9) o(1,2) c(1)]
  have f2: "file_at P (posix_close P fd f2) = file_at P f"
    using passiveD(3) info_create_passive [OF _ c(1)] posix_okD(7) [OF assms(1)] o(4) by metis
  show ?thesis
  proof (cases ok)
    case False
    then show ?thesis
      using main c(2) f2 by simp
  next
    case True
    define d where "d = \<lparr>tracker_ip = snd (conv ip (tracker_ip (stack_desc st))), tracker_port = of_int (arg_tracker_port a), desc_info = ti\<rparr>"
    have df: "tracker_ip d = snd (conv ip (tracker_ip (stack_desc st)))" "tracker_port d = of_int (arg_tracker_port a)" "desc_info d = ti"
      by (simp_all add: d_def)
    have sz: "file_size ti = of_nat (length content)" "piece_size ti = ?ps"
      using c(3) True by (simp_all add: created_def)
    have wf: "torrent_wf ti" "\<And>i. i < unat (num_pieces ti) \<Longrightarrow> piece_matches ti i content"
      using created_wf [of ti content "(desc_info (stack_desc st))\<lparr>file_size := of_nat (length content), piece_size := ?ps\<rparr>"]
        c(3) True sz assms(11,12) by simp_all
    have d: "desc_ok d"
      using wf(1) assms(5) st(3) by (simp add: desc_ok_def torrent_wf_def address_ok_def df)
    from nanogen_write_outcome [OF assms(1,6) d, of "arg_dest_file a" "posix_close P fd f2"] obtain status f' where
      w: "nanogen_write P st d (arg_dest_file a) (posix_close P fd f2) = Some (ExitStatus status, f')"
        "posix_reliable K P \<longrightarrow> status = 0 \<and> file_at P f' = (file_at P (posix_close P fd f2))
          ((case arg_dest_file a of Some name \<Rightarrow> name | None \<Rightarrow> generated_name (desc_info d)) \<mapsto> enc_desc d)"
      by blast
    have "unat (file_size ti) = length content"
      using assms(11) by (simp add: sz unat_of_nat)
    moreover have "\<forall>i < unat (num_pieces ti). piece_hashes ti ! i = sha1_spec (take (piece_len ti i) (drop (piece_off ti i) content))"
      using wf(2) by (simp add: piece_matches_def piece_bytes_def)
    moreover have "nanogen_main parse K P conv st argv f = Some (ExitStatus status, f')"
      using main True w(1) by (simp add: d_def)
    moreover have "length content \<le> 31 * unat ?ps"
      using True c(2) by simp
    moreover have "status = 0" "file_at P f' = (file_at P f)
        ((case arg_dest_file a of Some name \<Rightarrow> name | None \<Rightarrow> generated_name (desc_info d)) \<mapsto> enc_desc d)"
      using w(2) assms(2) f2 by simp_all
    ultimately show ?thesis
      using d wf(1) sz(2) df by (auto intro!: exI [of _ f'] exI [of _ d])
  qed
qed

text \<open>
  C12: \<^verbatim>\<open>nanogen\<close> makes a correct descriptor or nothing. On a host on which no call fails, for a source file of fewer than
  65536 bytes and a piece size that is not zero as an \<^verbatim>\<open>uint16_t\<close>: when the file fits into 31 pieces, it ends with status 0
  and the only file that has changed is the destination, which now holds the packed descriptor with the given tracker and the digest of
  every piece of the source file; without a destination on the command line its name is the info hash in hexadecimal.
  Otherwise it ends with status -1 and all files are as they were.
\<close>

theorem nanogen_writes_descriptor:
  assumes "posix_ok K P" "posix_reliable K P" "cfs_ok K" "cfs_reliable K" "address_ok conv" "stack_ok st"
    and "parse nanogen_options nanogen_parse_opt argv nanogen_default_arguments = Some (Some a)"
    and "arg_src_file a = Some src" "arg_tracker_ip a = Some ip"
    and "file_at P f src = Some content" "length content < 65536" "0 < (of_int (arg_piece_size a) :: u16)"
  shows "\<exists>status f'. nanogen_main parse K P conv st argv f = Some (ExitStatus status, f') \<and>
    (if length content \<le> 31 * unat (of_int (arg_piece_size a) :: u16) then
       status = 0 \<and> (\<exists>d. desc_ok d \<and> torrent_wf (desc_info d) \<and>
         tracker_ip d = snd (conv ip (tracker_ip (stack_desc st))) \<and> tracker_port d = of_int (arg_tracker_port a) \<and>
         unat (file_size (desc_info d)) = length content \<and> piece_size (desc_info d) = of_int (arg_piece_size a) \<and>
         (\<forall>i < unat (num_pieces (desc_info d)). piece_hashes (desc_info d) ! i =
            sha1_spec (take (piece_len (desc_info d) i) (drop (piece_off (desc_info d) i) content))) \<and>
         file_at P f' = (file_at P f)((case arg_dest_file a of Some name \<Rightarrow> name
            | None \<Rightarrow> generated_name (desc_info d)) \<mapsto> enc_desc d))
     else status = - 1 \<and> file_at P f' = file_at P f)"
  using nanogen_outcome [where parse = parse and argv = argv and a = a and st = st, OF assms] by (auto split: if_splits)

text \<open>
  C14: \<^verbatim>\<open>nanogen\<close> replaces files as a whole. Whatever calls of the host fail, and whatever the source file and the piece size
  are, the program ends with a status, and every file that existed before has its old contents, except that the destination may
  hold a complete packed descriptor instead: the output is written to a new temporary file first.
\<close>

theorem nanogen_replaces_whole_files:
  assumes "posix_ok K P" "cfs_ok K" "address_ok conv" "stack_ok st"
    and "parse nanogen_options nanogen_parse_opt argv nanogen_default_arguments = Some (Some a)"
    and "arg_src_file a = Some src" "arg_tracker_ip a = Some ip"
  shows "\<exists>status f' d. nanogen_main parse K P conv st argv f = Some (ExitStatus status, f') \<and> desc_ok d \<and>
    (\<forall>name. file_at P f name \<noteq> None \<longrightarrow> file_at P f' name = file_at P f name \<or>
       name = (case arg_dest_file a of Some dest \<Rightarrow> dest | None \<Rightarrow> generated_name (desc_info d)) \<and>
       file_at P f' name = Some (enc_desc d))"
proof -
  let ?ps = "of_int (arg_piece_size a) :: u16"
  have st: "length (next_block (stack_context st)) = 64" "hash_array (piece_hashes (desc_info (stack_desc st)))"
      "length (tracker_ip (stack_desc st)) = 16" "desc_ok (stack_desc st)"
    using assms(4) by (simp_all add: stack_ok_def desc_ok_def info_ok_def)
  obtain fd f1 where o: "posix_open P src f = (fd, f1)"
    by (cases "posix_open P src f")
  show ?thesis
  proof (cases "fd < 0")
    case True
    then show ?thesis
      using assms(5,6) o posix_okD(1) [OF assms(1) o] st(4)
      by (intro exI [of _ "- 1"] exI [of _ f1] exI [of _ "stack_desc st"]) (simp add: nanogen_main_def)
  next
    case False
    then have fd: "0 \<le> fd" by simp
    obtain ok ti f2 where
      c: "nanotorrent_torrent_info_create K (stack_context st) (desc_info (stack_desc st)) fd ?ps f1 = Some (ok, ti, f2)"
        "ok \<longrightarrow> info_ok ti"
      using info_create_total [OF assms(2) st(1,2)] by blast
    note main = nanogen_main_open [where parse = parse and argv = argv and a = a and st = st, OF assms(5-7) o fd c(1)]
    have f2: "file_at P (posix_close P fd f2) = file_at P f"
      using passiveD(3) info_create_passive [OF _ c(1)] posix_okD(7,1) [OF assms(1)] o by metis
    show ?thesis
    proof (cases ok)
      case False
      then show ?thesis
        using main f2 st(4) by (intro exI [of _ "- 1"] exI [of _ "posix_close P fd f2"] exI [of _ "stack_desc st"]) simp
    next
      case True
      define d where "d = \<lparr>tracker_ip = snd (conv ip (tracker_ip (stack_desc st))), tracker_port = of_int (arg_tracker_port a), desc_info = ti\<rparr>"
      have d: "desc_ok d"
        using c(2) True assms(3) st(3) by (simp add: desc_ok_def address_ok_def d_def)
      from nanogen_write_outcome [OF assms(1,4) d, of "arg_dest_file a" "posix_close P fd f2"] obtain status f' where
        w: "nanogen_write P st d (arg_dest_file a) (posix_close P fd f2) = Some (ExitStatus status, f')"
          "replaced (file_at P (posix_close P fd f2)) (case arg_dest_file a of Some dest \<Rightarrow> dest | None \<Rightarrow> generated_name (desc_info d))
             (enc_desc d) (file_at P f')"
        by blast
      have "nanogen_main parse K P conv st argv f = Some (ExitStatus status, f')"
        using main True w(1) by (simp add: d_def)
      then show ?thesis
        using d w(2) f2 unfolding replaced_def by (intro exI [of _ status] exI [of _ f'] exI [of _ d]) simp
    qed
  qed
qed


section \<open>nanoread\<close>

lemma concat_chunks20: "20 * k = length bs \<Longrightarrow> concat (chunks20 k bs) = bs"
  by (induction k bs rule: chunks20.induct) auto

text \<open>Unpacking from a buffer with room for the largest descriptor.\<close>

lemma unpack_desc_bytes:
  assumes "desc_ok old" "663 \<le> length m"
  shows "\<exists>d. nanotorrent_unpack_torrent_desc old (m, 0) = Some (d, (m, 23 + 20 * min 32 (unat (m ! 22)))) \<and> desc_ok d \<and>
    (unat (m ! 22) \<le> 32 \<longrightarrow> enc_desc d = take (23 + 20 * unat (m ! 22)) m)"
proof -
  have l: "length (piece_hashes (desc_info old)) = NANOTORRENT_MAX_PIECES" "hash_array (piece_hashes (desc_info old))"
    using assms(1) by (simp_all add: desc_ok_def info_ok_def hash_array_def)
  define n where "n = clamp_pieces (m ! 22)"
  have n: "unat n = min 32 (unat (m ! 22))" "unat n \<le> 32"
    by (simp_all add: n_def unat_clamp)
  define hs where "hs = chunks20 (unat n) (take (20 * unat n) (drop 23 m))"
  define ti where "ti = (desc_info old)\<lparr>file_size := dec_u16 (take 2 (drop 18 m)), piece_size := dec_u16 (take 2 (drop 20 m)),
    num_pieces := n, piece_hashes := hs @ drop (unat n) (piece_hashes (desc_info old))\<rparr>"
  define d where "d = \<lparr>tracker_ip = take 16 m, tracker_port = dec_u16 (take 2 (drop 16 m)), desc_info = ti\<rparr>"
  have "nanotorrent_unpack_torrent_info (desc_info old) (m, 18) = Some (ti, (m, 23 + 20 * unat n))"
    using unpack_info_eq [OF l(1), of 18 m] assms(2) n(2) by (simp add: Let_def n_def ti_def hs_def)
  then have u: "nanotorrent_unpack_torrent_desc old (m, 0) = Some (d, (m, 23 + 20 * unat n))"
    using unpack_desc_eq [OF l(1), of 0 m] assms(2) by (simp add: d_def)
  have "hash_array (piece_hashes ti)"
    using hash_array_fill [OF l(2) n(2), of "drop 23 m"] n(2) assms(2) by (simp add: ti_def hs_def)
  then have ok: "desc_ok d"
    using n(2) assms(2) by (simp add: desc_ok_def d_def info_ok_def ti_def NANOTORRENT_MAX_PIECES_def)
  have "enc_desc d = take (23 + 20 * unat n) m" if "unat (m ! 22) \<le> 32"
  proof -
    have nm: "n = m ! 22"
      using that n by (metis min.absorb2 unsigned_word_eqI)
    have one: "take 1 (drop 22 m) = [m ! 22]"
      using assms(2) by (simp add: take_Suc_conv_app_nth)
    have c: "concat hs = take (20 * unat n) (drop 23 m)"
      unfolding hs_def by (rule concat_chunks20) (use n(2) assms(2) in simp)
    have h: "info_hashes ti = hs"
      by (simp add: info_hashes_def ti_def hs_def)
    have u16: "enc_u16 (dec_u16 (take 2 (drop k m))) = take 2 (drop k m)" if "k < 600" for k
      using assms(2) that by (intro enc_dec_u16) simp
    have "take (23 + 20 * unat n) m = take 16 m @ take 2 (drop 16 m) @ take 2 (drop 18 m) @ take 2 (drop 20 m) @
        take 1 (drop 22 m) @ take (20 * unat n) (drop 23 m)"
    proof -
      have "23 + 20 * unat n = 16 + (2 + (2 + (2 + (1 + 20 * unat n))))" by simp
      then show ?thesis by (simp only: take_add drop_drop) simp
    qed
    then show ?thesis
      unfolding one by (simp add: enc_desc_def enc_info_def h c u16 d_def) (simp add: ti_def u16 nm)
  qed
  then show ?thesis
    using u ok n(1) by (intro exI [of _ d]) simp
qed

lemma nanoread_pieces_total: "i + n \<le> length hs \<Longrightarrow> nanoread_pieces hs i n =
    Some (concat (map (\<lambda>j. decimal_2 j @ '' | '' @ sha1_print (hs ! j) @ newline) [i..<i + n]))"
proof (induction n arbitrary: i)
  case (Suc n)
  then have "[i..<i + Suc n] = i # [Suc i..<Suc i + n]"
    by (simp add: upt_rec)
  then show ?case
    using Suc by simp
qed simp

lemma nanoread_print_view:
  assumes "desc_ok d" "desc_ok e" "desc_view d = desc_view e"
  shows "nanoread_print p h d = nanoread_print p h e"
proof -
  have v: "tracker_ip d = tracker_ip e" "tracker_port d = tracker_port e" "file_size (desc_info d) = file_size (desc_info e)"
      "piece_size (desc_info d) = piece_size (desc_info e)" "num_pieces (desc_info d) = num_pieces (desc_info e)"
      "info_hashes (desc_info d) = info_hashes (desc_info e)"
    using assms(3) by (simp_all add: desc_view_def info_view_def)
  let ?n = "unat (num_pieces (desc_info e))"
  have l: "?n \<le> length (piece_hashes (desc_info d))" "?n \<le> length (piece_hashes (desc_info e))"
    using assms(1,2) v(5) by (simp_all add: desc_ok_def info_ok_def hash_array_def)
  have "piece_hashes (desc_info d) ! j = piece_hashes (desc_info e) ! j" if "j < ?n" for j
    using that v(5,6) nth_take [of j ?n "piece_hashes (desc_info d)"] nth_take [of j ?n "piece_hashes (desc_info e)"]
    by (simp add: info_hashes_def)
  then have "nanoread_pieces (piece_hashes (desc_info d)) 0 ?n = nanoread_pieces (piece_hashes (desc_info e)) 0 ?n"
    using l by (auto simp: nanoread_pieces_total intro!: arg_cong [where f = concat] map_cong)
  then show ?thesis
    by (simp add: nanoread_print_def v)
qed

lemma nanoread_print_total: "desc_ok d \<Longrightarrow> \<exists>out. nanoread_print p h d = Some out"
  by (simp add: nanoread_print_def nanoread_pieces_total desc_ok_def info_ok_def hash_array_def)

text \<open>The hexadecimal info hash as \<^verbatim>\<open>sha1_write\<close> stores it.\<close>

definition hash_string :: "nanotorrent_torrent_info \<Rightarrow> string" where
  "hash_string ti = concat (map hex_byte (sha1_spec (enc_info ti))) @ [CHR 0x00]"


lemma nanoread_outcome:
  assumes "posix_ok K P" "posix_reliable K P" "stack_ok st" "file_at P f src = Some content"
    and "parse [] nanoread_parse_opt argv \<lparr>read_src_file = None\<rparr> = Some (Some \<lparr>read_src_file = Some src\<rparr>)"
  shows "\<exists>status out f'. nanoread_main parse P print6addr st argv f = Some (ExitStatus status, out, f') \<and> file_at P f' = file_at P f \<and>
    (if 23 \<le> length content \<and> length content = 23 + 20 * min 32 (unat (content ! 22))
     then status = 0 \<and> (unat (content ! 22) \<le> 32 \<longrightarrow>
       (\<exists>d. desc_ok d \<and> enc_desc d = content \<and> nanoread_print print6addr (hash_string (desc_info d)) d = Some out))
     else status = - 1 \<and> out = ERROR ''nanoread.c'' 92 ''main'' ''Malformed source file'')"
proof -
  obtain fd f1 where o: "posix_open P src f = (fd, f1)" "0 \<le> fd" "cfs_content K f1 fd = content" "cfs_pos K f1 fd = 0"
      "file_at P f1 = file_at P f"
    using reliable_open [OF assms(1,2,4)] by blast
  have st: "length (next_block (stack_context st)) = 64" "desc_ok (stack_desc st)" "length (stack_buffer st) = 1024"
      "645 \<le> length (stack_data st)" "length (stack_hash_string st) = 41"
    using assms(3) by (simp_all add: stack_ok_def)
  obtain r bs f2 where rd: "posix_read P fd 1024 f1 = (r, bs, f2)"
    by (rule prod_cases3)
  have r: "r = int (min 1024 (length content))"
    using assms(2) rd o(3,4) unfolding posix_reliable_def by (metis fst_conv minus_nat.diff_0)
  have rok: "file_at P f2 = file_at P f1" "r = int (length bs)" "bs = take (length bs) content"
  proof -
    have "posix_read_ok K P"
      using assms(1) by (simp add: posix_ok_def)
    then have "file_at P f2 = file_at P f1 \<and> (0 \<le> r \<longrightarrow> r = int (length bs) \<and> length bs \<le> 1024 \<and>
        bs = take (length bs) (drop (cfs_pos K f1 fd) (cfs_content K f1 fd)))"
      using rd unfolding posix_read_ok_def by blast
    then show "file_at P f2 = file_at P f1" "r = int (length bs)" "bs = take (length bs) content"
      using r o(3,4) by simp_all
  qed
  then have bs: "length bs = min 1024 (length content)" "bs = take 1024 content"
    using r by (simp, metis min_def nat_int take_all_iff nle_le)
  define m where "m = memcpy_at (stack_buffer st) 0 bs"
  have m: "length m = 1024" "m = bs @ drop (length bs) (stack_buffer st)"
    using st(3) bs(1) by (simp_all add: m_def memcpy_at_def)
  let ?q = "23 + 20 * min 32 (unat (m ! 22))"
  obtain d where d: "nanotorrent_unpack_torrent_desc (stack_desc st) (m, 0) = Some (d, (m, ?q))" "desc_ok d"
      "unat (m ! 22) \<le> 32 \<longrightarrow> enc_desc d = take (23 + 20 * unat (m ! 22)) m"
    using unpack_desc_bytes [OF st(2), of m] m(1) by auto
  have i: "info_ok (desc_info d)" using d(2) by (simp add: desc_ok_def)
  have w: "sha1_write (stack_hash_string st) (sha1_spec (enc_info (desc_info d))) = hash_string (desc_info d)"
    using sha1_write_eq [of "sha1_spec (enc_info (desc_info d))"] st(5) by (simp add: hash_string_def sha1_print_eq)
  obtain out where out: "nanoread_print print6addr (hash_string (desc_info d)) d = Some out"
    using nanoread_print_total [OF d(2)] by blast
  have main: "nanoread_main parse P print6addr st argv f =
      (if r = int ?q then Some (ExitStatus 0, out, f2)
       else Some (ExitStatus (- 1), ERROR ''nanoread.c'' 92 ''main'' ''Malformed source file'', posix_close P fd f2))"
    using o(1,2) rd rok(2) d(1) info_hash_spec [OF i st(4,1)] w out
    by (simp add: nanoread_main_def assms(5) st(3) m_def Let_def)
  have eq: "r = int ?q \<longleftrightarrow> 23 \<le> length content \<and> length content = 23 + 20 * min 32 (unat (content ! 22))"
  proof -
    have k: "r = int (23 + 20 * k) \<longleftrightarrow> length content = 23 + 20 * k" if "k \<le> 32" for k
      unfolding r of_nat_eq_iff using that by linarith
    have "m ! 22 = content ! 22" if "23 \<le> length content"
      using that by (simp add: m(2) bs nth_append)
    then show ?thesis
      using k [of "min 32 (unat (m ! 22))"] by auto
  qed
  have same: "enc_desc d = content" if "r = int ?q" "unat (content ! 22) \<le> 32"
  proof -
    have c: "m ! 22 = content ! 22" "bs = content" "length content = 23 + 20 * unat (content ! 22)"
      using that eq by (auto simp: m(2) bs nth_append min_def split: if_splits)
    then show ?thesis
      using d(3) that(2) m(2) by (metis append_eq_conv_conj)
  qed
  have f2: "file_at P f2 = file_at P f" "file_at P (posix_close P fd f2) = file_at P f"
    using passiveD(3) [OF posix_okD(7) [OF assms(1)]] rok(1) o(5) by simp_all
  show ?thesis
    using main eq same d(2) out f2 by auto
qed

text \<open>
  C15: \<^verbatim>\<open>nanoread\<close> accepts exactly the files whose length is the one their header announces: 23 bytes and 20 for each piece, of which
  at most 32 count. A shorter file makes it look at bytes of its buffer that were never set, but the answer does not depend on
  them: whatever the buffer holds, such a file is malformed, as is a longer one. When the header is within the limit of 32 pieces,
  the program prints the descriptor whose packed form is the file, with its info hash.
\<close>

theorem nanoread_accepts:
  assumes "posix_ok K P" "posix_reliable K P" "stack_ok st" "file_at P f src = Some content"
    and "parse [] nanoread_parse_opt argv \<lparr>read_src_file = None\<rparr> = Some (Some \<lparr>read_src_file = Some src\<rparr>)"
  shows "\<exists>status out f'. nanoread_main parse P print6addr st argv f = Some (ExitStatus status, out, f') \<and> file_at P f' = file_at P f \<and>
    (if 23 \<le> length content \<and> length content = 23 + 20 * min 32 (unat (content ! 22))
     then status = 0 \<and> (unat (content ! 22) \<le> 32 \<longrightarrow>
       (\<exists>d. desc_ok d \<and> enc_desc d = content \<and> nanoread_print print6addr (hash_string (desc_info d)) d = Some out))
     else status = - 1 \<and> out = ERROR ''nanoread.c'' 92 ''main'' ''Malformed source file'')"
  using nanoread_outcome [where parse = parse and argv = argv and st = st, OF assms] .

text \<open>
  C13: what \<^verbatim>\<open>nanogen\<close> has written, \<^verbatim>\<open>nanoread\<close> prints. After a run of \<^verbatim>\<open>nanogen\<close> without a destination on the command line, on a file that
  fits into 31 pieces, there is a new file named by the info hash; a run of \<^verbatim>\<open>nanoread\<close> on it ends with status 0 and prints that info
  hash and the tracker, sizes and digests that went into the file, whatever the buffers of the two programs held.
\<close>

theorem nanoread_prints_generated:
  assumes "posix_ok K P" "posix_reliable K P" "cfs_ok K" "cfs_reliable K" "address_ok conv" "stack_ok st" "stack_ok st'"
    and "parse nanogen_options nanogen_parse_opt argv nanogen_default_arguments = Some (Some a)"
    and "arg_src_file a = Some src" "arg_tracker_ip a = Some ip" "arg_dest_file a = None"
    and "file_at P f src = Some content" "length content < 65536"
    and "0 < (of_int (arg_piece_size a) :: u16)" "length content \<le> 31 * unat (of_int (arg_piece_size a) :: u16)"
  shows "\<exists>f' d name. nanogen_main parse K P conv st argv f = Some (ExitStatus 0, f') \<and>
    length name = 40 \<and> set name \<subseteq> set ''0123456789abcdef'' \<and>
    tracker_ip d = snd (conv ip (tracker_ip (stack_desc st))) \<and> tracker_port d = of_int (arg_tracker_port a) \<and>
    unat (file_size (desc_info d)) = length content \<and> piece_size (desc_info d) = of_int (arg_piece_size a) \<and>
    (\<forall>i < unat (num_pieces (desc_info d)). piece_hashes (desc_info d) ! i =
       sha1_spec (take (piece_len (desc_info d) i) (drop (piece_off (desc_info d) i) content))) \<and>
    (\<forall>parse' argv'. parse' [] nanoread_parse_opt argv' \<lparr>read_src_file = None\<rparr> =
        Some (Some \<lparr>read_src_file = Some (name @ ''.nanotorrent'')\<rparr>) \<longrightarrow>
      (\<exists>out f''. nanoread_main parse' P print6addr st' argv' f' = Some (ExitStatus 0, out, f'') \<and>
        nanoread_print print6addr (name @ [CHR 0x00]) d = Some out))"
proof -
  from nanogen_outcome [where parse = parse and argv = argv and a = a and st = st, OF assms(1-6,8-10,12-14)] obtain f' d where
    g: "nanogen_main parse K P conv st argv f = Some (ExitStatus 0, f')" "desc_ok d" "torrent_wf (desc_info d)"
      "tracker_ip d = snd (conv ip (tracker_ip (stack_desc st)))" "tracker_port d = of_int (arg_tracker_port a)"
      "unat (file_size (desc_info d)) = length content" "piece_size (desc_info d) = of_int (arg_piece_size a)"
      "\<forall>i < unat (num_pieces (desc_info d)). piece_hashes (desc_info d) ! i =
         sha1_spec (take (piece_len (desc_info d) i) (drop (piece_off (desc_info d) i) content))"
      "file_at P f' = (file_at P f)(generated_name (desc_info d) \<mapsto> enc_desc d)"
    using assms(11,15) by auto
  define name where "name = concat (map hex_byte (sha1_spec (enc_info (desc_info d))))"
  have n: "generated_name (desc_info d) = name @ ''.nanotorrent''" "hash_string (desc_info d) = name @ [CHR 0x00]"
    by (simp_all add: generated_name_def hash_string_def name_def)
  have hex: "length name = 40" "set name \<subseteq> set ''0123456789abcdef''"
    using sha1_print_chars [of "sha1_spec (enc_info (desc_info d))"] by (simp_all only: name_def sha1_print_eq length_sha1_spec)
  have "\<exists>out f''. nanoread_main parse' P print6addr st' argv' f' = Some (ExitStatus 0, out, f'') \<and>
        nanoread_print print6addr (name @ [CHR 0x00]) d = Some out"
    if p: "parse' [] nanoread_parse_opt argv' \<lparr>read_src_file = None\<rparr> =
        Some (Some \<lparr>read_src_file = Some (name @ ''.nanotorrent'')\<rparr>)" for parse' argv'
  proof -
    have "file_at P f' (name @ ''.nanotorrent'') = Some (enc_desc d)"
      by (simp add: g(9) n(1))
    note nanoread_outcome [where parse = parse' and argv = argv' and st = st' and print6addr = print6addr, OF assms(1,2,7) this p]
    moreover have "enc_desc d ! 22 = num_pieces (desc_info d)" "unat (num_pieces (desc_info d)) \<le> 32"
      using g(2) by (simp_all add: desc_ok_def info_ok_def enc_desc_def enc_info_def enc_u16_def nth_append NANOTORRENT_MAX_PIECES_def)
    ultimately obtain out f'' e where
      e: "nanoread_main parse' P print6addr st' argv' f' = Some (ExitStatus 0, out, f'')" "desc_ok e" "enc_desc e = enc_desc d"
        "nanoread_print print6addr (hash_string (desc_info e)) e = Some out"
      using length_enc_desc [OF g(2)] by auto
    have v: "desc_view e = desc_view d"
      by (rule desc.enc_determines [OF e(2) g(2) e(3)])
    have "enc_info (desc_info e) = enc_info (desc_info d)"
      using e(3) e(2) g(2) by (simp add: enc_desc_def desc_ok_def enc_u16_def)
    then have "hash_string (desc_info e) = name @ [CHR 0x00]"
      by (simp add: hash_string_def name_def)
    then show ?thesis
      using e(1,4) nanoread_print_view [OF e(2) g(2) v] by auto
  qed
  then show ?thesis
    using g hex by (intro exI [of _ f'] exI [of _ d] exI [of _ name]) blast
qed


section \<open>Piece size zero\<close>

lemma digest_zero: "nanotorrent_piece_digest K c fd 0 f = Some (0, c, f)"
  by (simp add: nanotorrent_piece_digest_def) (subst digest_loop.simps, simp)

lemma create_zero:
  assumes "length (next_block c) = 64" "hash_array (piece_hashes ti)"
  shows "create_loop K fd 0 c 0 ti f =
    Some (True, ti\<lparr>piece_hashes := (piece_hashes ti)[0 := sha1_spec []], num_pieces := 1\<rparr>, f)"
proof -
  have r: "avr_repr (sha1_reset c) []"
    using avr_reset [OF assms(1)] .
  obtain digest c2 where res: "sha1_result (sha1_reset c) = (True, digest, c2)"
    using avr.result_ok [OF r] by (cases "sha1_result (sha1_reset c)") auto
  have "digest = sha1_spec []"
    using avr.result_spec [OF r] res by simp
  then show ?thesis
    using assms(2) res
    by (subst create_loop.simps) (simp add: digest_zero create_end_def hash_array_def NANOTORRENT_MAX_PIECES_def)
qed

text \<open>
  C33: a piece size that is zero as an \<^verbatim>\<open>uint16_t\<close> (given as 0, as 65536 or as a word that is not a number) is not rejected.
  \<^verbatim>\<open>nanogen\<close> ends with status 0 and writes the descriptor of one piece with the digest of no bytes, whatever the file holds.
\<close>

theorem nanogen_zero_piece_size:
  assumes "posix_ok K P" "posix_reliable K P" "cfs_ok K" "cfs_reliable K" "address_ok conv" "stack_ok st"
    and "parse nanogen_options nanogen_parse_opt argv nanogen_default_arguments = Some (Some a)"
    and "arg_src_file a = Some src" "arg_tracker_ip a = Some ip"
    and "file_at P f src = Some content" "(of_int (arg_piece_size a) :: u16) = 0"
  shows "\<exists>f' d. nanogen_main parse K P conv st argv f = Some (ExitStatus 0, f') \<and>
    file_size (desc_info d) = of_nat (length content) \<and> piece_size (desc_info d) = 0 \<and>
    num_pieces (desc_info d) = 1 \<and> piece_hashes (desc_info d) ! 0 = sha1_spec [] \<and>
    file_at P f' = (file_at P f)((case arg_dest_file a of Some name \<Rightarrow> name
      | None \<Rightarrow> generated_name (desc_info d)) \<mapsto> enc_desc d)"
proof -
  obtain fd f1 where o: "posix_open P src f = (fd, f1)" "0 \<le> fd" "cfs_content K f1 fd = content" "file_at P f1 = file_at P f"
    using reliable_open [OF assms(1,2,10)] by blast
  let ?ti0 = "desc_info (stack_desc st)"
  have st: "length (next_block (stack_context st)) = 64" "hash_array (piece_hashes ?ti0)" "length (tracker_ip (stack_desc st)) = 16"
    using assms(6) by (simp_all add: stack_ok_def desc_ok_def info_ok_def)
  obtain r f2 where s1: "cfs_seek K fd 0 CFS_SEEK_END f1 = (r, f2)"
    by (cases "cfs_seek K fd 0 CFS_SEEK_END f1")
  obtain r2 f3 where s2: "cfs_seek K fd 0 CFS_SEEK_SET f2 = (r2, f3)"
    by (cases "cfs_seek K fd 0 CFS_SEEK_SET f2")
  have "0 \<le> r"
    using assms(4) s1 unfolding cfs_reliable_def by (metis fst_conv)
  then have r: "r = int (length content)"
    using assms(3) s1 o(3) unfolding cfs_ok_def cfs_seek_ok_def by blast
  define ti where "ti = ?ti0\<lparr>file_size := of_nat (length content), piece_size := 0,
    piece_hashes := (piece_hashes ?ti0)[0 := sha1_spec []], num_pieces := 1\<rparr>"
  have c: "nanotorrent_torrent_info_create K (stack_context st) ?ti0 fd (of_int (arg_piece_size a)) f1 = Some (True, ti, f3)"
    using create_zero [OF st(1), of "?ti0\<lparr>file_size := of_nat (length content), piece_size := 0\<rparr>"] st(2) s1 s2 r
    by (simp add: nanotorrent_torrent_info_create_def assms(11) ti_def)
  note main = nanogen_main_open [where parse = parse and argv = argv and a = a and st = st, OF assms(7-9) o(1,2) c]
  have f2: "file_at P (posix_close P fd f3) = file_at P f"
    using passiveD(3) info_create_passive [OF _ c] posix_okD(7) [OF assms(1)] o(4) by metis
  define d where "d = \<lparr>tracker_ip = snd (conv ip (tracker_ip (stack_desc st))), tracker_port = of_int (arg_tracker_port a), desc_info = ti\<rparr>"
  have "desc_ok d"
    using assms(5) st by (simp add: desc_ok_def d_def address_ok_def info_ok_def ti_def hash_array_update NANOTORRENT_MAX_PIECES_def)
  from nanogen_write_outcome [OF assms(1,6) this, of "arg_dest_file a" "posix_close P fd f3"] obtain status f' where
    w: "nanogen_write P st d (arg_dest_file a) (posix_close P fd f3) = Some (ExitStatus status, f')"
      "posix_reliable K P \<longrightarrow> status = 0 \<and> file_at P f' = (file_at P (posix_close P fd f3))
        ((case arg_dest_file a of Some name \<Rightarrow> name | None \<Rightarrow> generated_name (desc_info d)) \<mapsto> enc_desc d)"
    by blast
  have df: "desc_info d = ti" "piece_hashes ti ! 0 = sha1_spec []" "num_pieces ti = 1" "piece_size ti = 0"
      "file_size ti = of_nat (length content)"
    using st(2) by (simp_all add: d_def ti_def hash_array_def NANOTORRENT_MAX_PIECES_def)
  show ?thesis
    using main w assms(2) f2 df by (intro exI [of _ f'] exI [of _ d]) (simp add: d_def [symmetric])
qed

section \<open>A concrete run\<close>

definition demo_host :: sim_host where
  "demo_host = \<lparr>host_files = [(''movie'', replicate 700 7)], host_fds = (\<lambda>fd. ([], 0, False)), host_next = 3\<rparr>"

definition demo_stack :: tool_stack where
  "demo_stack = \<lparr>stack_context = used_context, stack_desc = sample_desc 0, stack_buffer = replicate 1024 0xAA,
     stack_data = replicate 645 0xAA, stack_hash_string = replicate 41 CHR ''x'', stack_name = replicate 128 CHR ''y''\<rparr>"

definition demo_address :: "string \<Rightarrow> ip6addr \<Rightarrow> bool \<times> ip6addr" where
  "demo_address s a = (True, replicate 16 0xFE)"

definition demo_arguments :: "int \<Rightarrow> nanogen_arguments" where
  "demo_arguments n = \<lparr>arg_src_file = Some ''movie'', arg_tracker_ip = Some ''fefe::'', arg_tracker_port = 33333,
     arg_dest_file = None, arg_piece_size = n\<rparr>"

lemma demo_stack_ok: "stack_ok demo_stack"
  by (simp add: stack_ok_def demo_stack_def desc_ok_def info_ok_def hash_array_def NANOTORRENT_MAX_PIECES_def)

lemma demo_address_ok: "address_ok demo_address"
  by (simp add: address_ok_def demo_address_def)

lemma demo_file: "file_at host_posix demo_host ''movie'' = Some (replicate 700 7)"
  by (simp add: host_posix_def host_file_def demo_host_def)

lemma demo_atoi: "atoi ''33333'' = Some 33333" "atoi ''65536'' = Some 65536" "atoi ''64K'' = Some 64"
  by (simp_all add: atoi_def is_digit_def is_space_def)

lemma demo_parse:
  "host_argp nanogen_options nanogen_parse_opt [''movie'', ''fefe::'', ''33333''] nanogen_default_arguments = Some (Some (demo_arguments 256))"
  "host_argp nanogen_options nanogen_parse_opt [''movie'', ''-p'', ''65536'', ''fefe::'', ''33333''] nanogen_default_arguments =
     Some (Some (demo_arguments 65536))"
  by (simp_all add: host_argp_def nanogen_options_def cmd_calls_def nanogen_parse_opt_def nanogen_default_arguments_def
      demo_arguments_def demo_atoi NANOGEN_DEFAULT_PIECE_SIZE_def)

lemmas host_ok = host_posix_ok host_posix_reliable host_cfs_ok host_cfs_reliable demo_address_ok demo_stack_ok

theorem nanogen_command_line_witness:
  "host_argp nanogen_options nanogen_parse_opt (cmd_words [CmdOption CHR ''p'' ''64K'', CmdArg ''movie'', CmdArg ''fefe::'', CmdArg ''33333'',
     CmdOption CHR ''o'' ''out'']) nanogen_default_arguments =
   Some (Some \<lparr>arg_src_file = Some ''movie'', arg_tracker_ip = Some ''fefe::'', arg_tracker_port = 33333,
     arg_dest_file = Some ''out'', arg_piece_size = 64\<rparr>)"
proof -
  let ?items = "[CmdOption CHR ''p'' ''64K'', CmdArg ''movie'', CmdArg ''fefe::'', CmdArg ''33333'', CmdOption CHR ''o'' ''out'']"
  have "cmd_ok nanogen_options ?items"
    by (simp add: cmd_ok_def nanogen_options_def)
  from nanogen_command_line [OF host_argp_ok this] show ?thesis
    by (simp add: demo_atoi)
qed

theorem nanogen_writes_descriptor_witness:
  "\<exists>f' d. nanogen_main host_argp host_contiki host_posix demo_address demo_stack [''movie'', ''fefe::'', ''33333''] demo_host =
     Some (ExitStatus 0, f') \<and> torrent_wf (desc_info d) \<and> tracker_port d = 33333 \<and>
     file_at host_posix f' (generated_name (desc_info d)) = Some (enc_desc d)"
proof -
  have a: "arg_src_file (demo_arguments 256) = Some ''movie''" "arg_tracker_ip (demo_arguments 256) = Some ''fefe::''"
    "length (replicate 700 (7 :: u8)) < 65536" "0 < (of_int (arg_piece_size (demo_arguments 256)) :: u16)"
    by (simp_all add: demo_arguments_def)
  from nanogen_writes_descriptor [where parse = host_argp and argv = "[''movie'', ''fefe::'', ''33333'']", OF host_ok demo_parse(1) a(1,2) demo_file a(3,4)] show ?thesis
    by (auto simp: demo_arguments_def)
qed

theorem nanogen_replaces_whole_files_witness:
  "\<exists>status f'. nanogen_main host_argp host_contiki host_posix demo_address demo_stack [''movie'', ''fefe::'', ''33333''] demo_host =
     Some (ExitStatus status, f') \<and> file_at host_posix f' ''movie'' = Some (replicate 700 7)"
proof -
  have a: "arg_src_file (demo_arguments 256) = Some ''movie''" "arg_tracker_ip (demo_arguments 256) = Some ''fefe::''"
    "arg_dest_file (demo_arguments 256) = None"
    by (simp_all add: demo_arguments_def)
  from nanogen_replaces_whole_files [where parse = host_argp and argv = "[''movie'', ''fefe::'', ''33333'']",
      OF host_ok(1,3,5,6) demo_parse(1) a(1,2), of demo_host] obtain status f' d where
    m: "nanogen_main host_argp host_contiki host_posix demo_address demo_stack [''movie'', ''fefe::'', ''33333''] demo_host =
      Some (ExitStatus status, f')"
    and k: "file_at host_posix demo_host ''movie'' \<noteq> None \<longrightarrow> file_at host_posix f' ''movie'' = file_at host_posix demo_host ''movie'' \<or>
      ''movie'' = generated_name (desc_info d) \<and> file_at host_posix f' ''movie'' = Some (enc_desc d)"
    unfolding a(3) option.case by blast
  have "length (generated_name (desc_info d)) = 52"
    using sha1_print_chars [of "sha1_spec (enc_info (desc_info d))"]
    by (simp only: generated_name_def sha1_print_eq length_sha1_spec length_append) simp
  then have "length (generated_name (desc_info d)) \<noteq> length ''movie''"
    by simp
  then have "''movie'' \<noteq> generated_name (desc_info d)"
    by (rule contrapos_nn) (erule arg_cong [THEN sym])
  with m k demo_file show ?thesis by auto
qed

theorem nanogen_zero_piece_size_witness:
  "\<exists>f' d. nanogen_main host_argp host_contiki host_posix demo_address demo_stack [''movie'', ''-p'', ''65536'', ''fefe::'', ''33333''] demo_host =
     Some (ExitStatus 0, f') \<and> piece_size (desc_info d) = 0 \<and> file_size (desc_info d) = 700 \<and>
     file_at host_posix f' (generated_name (desc_info d)) = Some (enc_desc d)"
proof -
  have a: "arg_src_file (demo_arguments 65536) = Some ''movie''" "arg_tracker_ip (demo_arguments 65536) = Some ''fefe::''"
    "(of_int (arg_piece_size (demo_arguments 65536)) :: u16) = 0"
    by (simp_all add: demo_arguments_def)
  from nanogen_zero_piece_size [where parse = host_argp and argv = "[''movie'', ''-p'', ''65536'', ''fefe::'', ''33333'']", OF host_ok demo_parse(2) a(1,2) demo_file a(3)] show ?thesis
    by (auto simp: demo_arguments_def)
qed

text \<open>A command line of \<^verbatim>\<open>nanoread\<close>.\<close>

lemma demo_read_parse: "s \<noteq> [] \<Longrightarrow> hd s \<noteq> CHR ''-'' \<Longrightarrow>
  host_argp [] nanoread_parse_opt [s] \<lparr>read_src_file = None\<rparr> = Some (Some \<lparr>read_src_file = Some s\<rparr>)"
  by (simp add: host_argp_def cmd_calls_def nanoread_parse_opt_def)

theorem nanoread_accepts_witness:
  "\<exists>out f'. nanoread_main host_argp host_posix (\<lambda>a. ''::'') demo_stack [''movie''] demo_host = Some (ExitStatus (- 1), out, f')"
proof -
  have "\<not> (23 \<le> length (replicate 700 (7 :: u8)) \<and> length (replicate 700 (7 :: u8)) = 23 + 20 * min 32 (unat (replicate 700 (7 :: u8) ! 22)))"
    by simp
  then show ?thesis
    using nanoread_accepts [where parse = host_argp and argv = "[''movie'']", OF host_ok(1,2,6) demo_file demo_read_parse, of "\<lambda>a. ''::''"] by fastforce
qed

theorem nanoread_prints_generated_witness:
  "\<exists>f' d name out f''. nanogen_main host_argp host_contiki host_posix demo_address demo_stack [''movie'', ''fefe::'', ''33333''] demo_host =
     Some (ExitStatus 0, f') \<and>
   nanoread_main host_argp host_posix (\<lambda>a. ''::'') demo_stack [name @ ''.nanotorrent''] f' = Some (ExitStatus 0, out, f'') \<and>
   unat (file_size (desc_info d)) = 700 \<and> nanoread_print (\<lambda>a. ''::'') (name @ [CHR 0x00]) d = Some out"
proof -
  have a: "arg_src_file (demo_arguments 256) = Some ''movie''" "arg_tracker_ip (demo_arguments 256) = Some ''fefe::''"
    "arg_dest_file (demo_arguments 256) = None" "length (replicate 700 (7 :: u8)) < 65536"
    "0 < (of_int (arg_piece_size (demo_arguments 256)) :: u16)"
    "length (replicate 700 (7 :: u8)) \<le> 31 * unat (of_int (arg_piece_size (demo_arguments 256)) :: u16)"
    by (simp_all add: demo_arguments_def)
  from nanoread_prints_generated [where parse = host_argp and argv = "[''movie'', ''fefe::'', ''33333'']", OF host_ok demo_stack_ok demo_parse(1) a(1-3) demo_file a(4-6), of "\<lambda>a. ''::''"] obtain f' d name where
    g: "nanogen_main host_argp host_contiki host_posix demo_address demo_stack [''movie'', ''fefe::'', ''33333''] demo_host =
      Some (ExitStatus 0, f')" "unat (file_size (desc_info d)) = length (replicate 700 (7 :: u8))"
    and r: "\<forall>parse' argv'. parse' [] nanoread_parse_opt argv' \<lparr>read_src_file = None\<rparr> =
        Some (Some \<lparr>read_src_file = Some (name @ ''.nanotorrent'')\<rparr>) \<longrightarrow>
      (\<exists>out f''. nanoread_main parse' host_posix (\<lambda>a. ''::'') demo_stack argv' f' = Some (ExitStatus 0, out, f'') \<and>
        nanoread_print (\<lambda>a. ''::'') (name @ [CHR 0x00]) d = Some out)"
      and n: "length name = 40" "set name \<subseteq> set ''0123456789abcdef''"
    by blast
  have "name \<noteq> []" "hd name \<noteq> CHR ''-''"
    using n by (cases name; force)+
  then have "host_argp [] nanoread_parse_opt [name @ ''.nanotorrent''] \<lparr>read_src_file = None\<rparr> =
      Some (Some \<lparr>read_src_file = Some (name @ ''.nanotorrent'')\<rparr>)"
    by (intro demo_read_parse) simp_all
  with r obtain out f'' where
    "nanoread_main host_argp host_posix (\<lambda>a. ''::'') demo_stack [name @ ''.nanotorrent''] f' = Some (ExitStatus 0, out, f'')"
    "nanoread_print (\<lambda>a. ''::'') (name @ [CHR 0x00]) d = Some out"
    by blast
  with g show ?thesis
    by (intro exI [of _ f'] exI [of _ d] exI [of _ name] exI [of _ out] exI [of _ f'']) simp
qed

end
