(* ===== verification/Demo.thy ===== *)
theory Demo
  imports Node_Props Tools_Props
begin

text \<open>
  \<^verbatim>\<open>peer/fs.h\<close>, \<^verbatim>\<open>peer/fs.c\<close> and \<^verbatim>\<open>peer/demo.c\<close>: the files compiled into the program, and the demonstration process, which
  reads a descriptor from the first of them, starts the peer and turns on a light when the file is complete. The table of
  files is generated by the build (\<^verbatim>\<open>fs-data.c\<close>), so it is an argument. The last property goes from the file a descriptor is made
  of to the device that has this file.
\<close>

section \<open>The static files\<close>

text \<open>
  A file of the table, with a pointer to the next one. \<open>fs_data\<close> is the memory at \<^verbatim>\<open>data\<close>, copied by \<^verbatim>\<open>nanotorrent_fs_cpy\<close>;
  \<open>size_bits\<close> is the width of \<^verbatim>\<open>size_t\<close>, to which the length is converted in the comparison.
\<close>

datatype httpd_fsdata_file =
  Fsdata (fs_next: "httpd_fsdata_file option") (fs_name: string) (fs_data: "u8 list") (fs_len: int)

definition nanotorrent_fs_next :: "httpd_fsdata_file \<Rightarrow> httpd_fsdata_file option" where
  "nanotorrent_fs_next file = fs_next file"

definition nanotorrent_fs_read :: "nat \<Rightarrow> httpd_fsdata_file \<Rightarrow> u8 list \<Rightarrow> nat \<Rightarrow> (nat \<times> u8 list) option" where
  "nanotorrent_fs_read size_bits file buffer buffer_len =
    (let len = min buffer_len (nat (fs_len file mod 2 ^ size_bits)) in
     if len \<le> length (fs_data file) \<and> len \<le> length buffer
     then Some (len, memcpy_at buffer 0 (take len (fs_data file))) else None)"

section \<open>The demonstration process\<close>

datatype demo_pc = DemoNotStarted | DemoWaitEvent | DemoEnded

text \<open>\<open>DDRB\<close> and \<open>PORTB\<close> are the registers of the AVR port with the light.\<close>

record ('f, 'm, 't) demo = "('f, 'm, 't) nanotorrent" +
  demo_pc :: demo_pc
  DDRB :: u8
  PORTB :: u8

definition empty_desc :: nanotorrent_torrent_desc where
  "empty_desc = \<lparr>tracker_ip = replicate 16 0, tracker_port = 0, desc_info = \<lparr>file_size = 0, piece_size = 0, num_pieces = 0,
     piece_hashes = replicate NANOTORRENT_MAX_PIECES (replicate 20 0)\<rparr>\<rparr>"

text \<open>\<open>buffer\<close> has the size of a descriptor structure. The arguments before the state are the locals of the functions called.\<close>

definition demo_start :: "nat \<Rightarrow> httpd_fsdata_file option \<Rightarrow> sha1_context \<Rightarrow> u8 list \<Rightarrow> u8 list \<Rightarrow>
    ('f, 'm, 't, 'a) nanotorrent_scheme \<Rightarrow> ('f, 'm, 't, 'a) nanotorrent_scheme option" where
  "demo_start size_bits nanotorrent_fs_root context data buffer s = do {
     root \<leftarrow> nanotorrent_fs_root;
     (len, buffer) \<leftarrow> nanotorrent_fs_read size_bits root buffer (length buffer);
     (d, _) \<leftarrow> nanotorrent_unpack_torrent_desc empty_desc (buffer, 0);
     nanotorrent_start context data d ''myprogram'' s }"

definition demo_stop :: "'a env_scheme \<Rightarrow> 'a env_scheme" where
  "demo_stop s = nanotorrent_stop s"

text \<open>The build for the AVR; \<open>DDB1\<close> and \<open>PB1\<close> are the bit numbers of the pin.\<close>

definition nanotorrent_demo_process :: "nat \<Rightarrow> httpd_fsdata_file option \<Rightarrow> nat \<Rightarrow> nat \<Rightarrow> sha1_context \<Rightarrow> u8 list \<Rightarrow> u8 list \<Rightarrow>
    event \<Rightarrow> ('f, 'm, 't, 'a) demo_scheme \<Rightarrow> ('f, 'm, 't, 'a) demo_scheme option" where
  "nanotorrent_demo_process size_bits nanotorrent_fs_root DDB1 PB1 context data buffer ev s =
    (if ev = PROCESS_EVENT_EXIT then Some ((demo_stop s)\<lparr>demo_pc := DemoEnded\<rparr>)
     else
       (case demo_pc s of
          DemoNotStarted \<Rightarrow> do {
            s \<leftarrow> demo_start size_bits nanotorrent_fs_root context data buffer s;
            let s = s\<lparr>DDRB := push_bit DDB1 1\<rparr>;
            let s = s\<lparr>PORTB := push_bit PB1 0\<rparr>;
            Some (s\<lparr>demo_pc := DemoWaitEvent\<rparr>) }
        | DemoWaitEvent \<Rightarrow> Some (if ev = seeding_event then s\<lparr>PORTB := push_bit PB1 1\<rparr> else s)
        | DemoEnded \<Rightarrow> Some s))"

section \<open>Starting from a static file\<close>

text \<open>A table of files whose first file holds the bytes.\<close>

definition holds :: "httpd_fsdata_file option \<Rightarrow> u8 list \<Rightarrow> bool" where
  "holds root bytes \<longleftrightarrow> (\<exists>file. root = Some file \<and> fs_data file = bytes \<and> fs_len file = int (length bytes))"

lemma empty_desc_ok: "desc_ok empty_desc"
  by (simp add: desc_ok_def empty_desc_def info_ok_def hash_array_def NANOTORRENT_MAX_PIECES_def)

lemma length_enc_desc_le: "desc_ok d \<Longrightarrow> length (enc_desc d) \<le> 663"
  by (simp add: length_enc_desc) (simp add: desc_ok_def info_ok_def NANOTORRENT_MAX_PIECES_def)

text \<open>The process starts the peer with the descriptor of the file.\<close>

lemma demo_process_start:
  assumes "desc_ok d" "holds root (enc_desc d)" "663 \<le> length buffer" "length (enc_desc d) < 2 ^ size_bits"
    and "demo_pc s = DemoNotStarted" "ev \<noteq> PROCESS_EVENT_EXIT" "645 \<le> length data" "length (next_block ctx) = 64"
  shows "\<exists>e. desc_ok e \<and> desc_view e = desc_view d \<and>
    nanotorrent_demo_process size_bits root DDB1 PB1 ctx data buffer ev s =
      nanotorrent_start ctx data e ''myprogram'' (s\<lparr>DDRB := push_bit DDB1 1, PORTB := 0, demo_pc := DemoWaitEvent\<rparr>)"
proof -
  obtain r where f: "root = Some r" "fs_data r = enc_desc d" "fs_len r = int (length (enc_desc d))"
    using assms(2) by (auto simp: holds_def)
  let ?m = "memcpy_at buffer 0 (enc_desc d)"
  have l: "length (enc_desc d) \<le> length buffer" "length ?m = length buffer"
    using length_enc_desc_le [OF assms(1)] assms(3) by simp_all
  have "nat (fs_len r mod 2 ^ size_bits) = length (enc_desc d)"
    using assms(4) f(3) by (simp add: nat_mod_distrib nat_power_eq)
  then have rd: "nanotorrent_fs_read size_bits r buffer (length buffer) = Some (length (enc_desc d), ?m)"
    using f(2) l(1) by (simp add: nanotorrent_fs_read_def)
  have t: "take (length (enc_desc d)) (drop 0 ?m) = enc_desc d"
    using l(1) by (simp add: memcpy_at_def)
  obtain e where e: "nanotorrent_unpack_torrent_desc empty_desc (?m, 0) = Some (e, (?m, 0 + length (enc_desc d)))"
      "desc_view e = desc_view d"
    using unpack_enc_desc [OF assms(1) empty_desc_ok _ t] l by auto
  have ok: "desc_ok e"
    using unpack_desc_bytes [OF empty_desc_ok, of ?m] assms(3) l(2) e(1) by auto
  then have "info_ok (desc_info e)"
    by (simp add: desc_ok_def)
  from info_hash_spec [OF this assms(7,8)] show ?thesis
    using ok e assms(5,6) rd f(1)
    by (intro exI [of _ e]) (simp add: nanotorrent_demo_process_def demo_start_def nanotorrent_start_def emit_def Let_def)
qed

section \<open>From the file to the device\<close>

lemma view_wf:
  assumes "torrent_wf (desc_info d)" "desc_ok e" "desc_view e = desc_view d"
  shows "torrent_wf (desc_info e)"
  using assms by (simp add: torrent_wf_def desc_ok_def desc_view_def info_view_def)

lemma view_hash:
  assumes "desc_ok d" "desc_ok e" "desc_view e = desc_view d" "i < unat (num_pieces (desc_info d))"
  shows "piece_hashes (desc_info e) ! i = piece_hashes (desc_info d) ! i"
proof -
  have "num_pieces (desc_info e) = num_pieces (desc_info d)" "info_hashes (desc_info e) = info_hashes (desc_info d)"
    using assms(3) by (simp_all add: desc_view_def info_view_def)
  then show ?thesis
    using assms(4) nth_take [of i "unat (num_pieces (desc_info d))" "piece_hashes (desc_info e)"]
      nth_take [of i "unat (num_pieces (desc_info d))" "piece_hashes (desc_info d)"]
    by (simp add: info_hashes_def)
qed

lemma pieces_fit_size:
  assumes "torrent_wf ti" "unat (file_size ti) \<le> (w - 2) * unat (piece_size ti)" "2 < w"
  shows "pieces_fit w ti"
proof -
  have n: "unat (num_pieces ti) \<le> 32"
    using assms(1) by (simp add: torrent_wf_def info_ok_def NANOTORRENT_MAX_PIECES_def)
  have "unat (num_pieces ti) + 1 < w" if "1 < unat (num_pieces ti)"
  proof -
    have a: "(unat (num_pieces ti) - 1) * unat (piece_size ti) < unat (file_size ti)"
      using assms(1) that by (simp add: torrent_wf_def)
    from less_le_trans [OF a assms(2)] have "unat (num_pieces ti) - 1 < w - 2"
      by (simp only: mult_less_cancel2)
    then show ?thesis using that by simp
  qed
  then show ?thesis
    using n assms(3) by (fastforce simp: pieces_fit_def)
qed

text \<open>A device whose file has the bytes of all pieces is a seed once it has started.\<close>

lemma demo_start_seeds:
  assumes "desc_ok d" "torrent_wf (desc_info d)" "0 < unat (file_size (desc_info d))" "pieces_fit (int_bits K) (desc_info d)"
    and "holds root (enc_desc d)" "sound_kernel K" "powered K s0" "demo_pc s0 = DemoNotStarted"
    and "cfs_open K ''myprogram'' (files s0) = (fd, g)" "0 \<le> fd"
    and "\<forall>i < unat (num_pieces (desc_info d)). piece_matches (desc_info d) i (cfs_content K g fd)"
    and "663 \<le> length buffer" "645 \<le> length data" "length (next_block ctx) = 64" "16 \<le> size_bits"
  shows "\<exists>s1 s2 s3 s. nanotorrent_demo_process size_bits root DDB1 PB1 ctx data buffer PROCESS_EVENT_INIT s0 = Some s1 \<and>
    nanotorrent_process K ctx PROCESS_EVENT_INIT s1 = Some s2 \<and>
    nanotorrent_peer_process K PROCESS_EVENT_INIT s2 = Some s3 \<and>
    nanotorrent_swarm_process K PROCESS_EVENT_INIT s3 = Some s \<and>
    nanotorrent_piece_is_seed (int_bits K) s \<and> desc_view (desc s) = desc_view d \<and> PORTB s1 = 0"
proof -
  let ?s0 = "s0\<lparr>DDRB := push_bit DDB1 1, PORTB := 0, demo_pc := DemoWaitEvent\<rparr>"
  have "(2 :: nat) ^ 16 \<le> 2 ^ size_bits"
    using assms(15) by (intro power_increasing) simp_all
  then have sz: "length (enc_desc d) < 2 ^ size_bits"
    using length_enc_desc_le [OF assms(1)] by simp
  obtain e where e: "desc_ok e" "desc_view e = desc_view d"
      "nanotorrent_demo_process size_bits root DDB1 PB1 ctx data buffer PROCESS_EVENT_INIT s0 = nanotorrent_start ctx data e ''myprogram'' ?s0"
    using demo_process_start [OF assms(1,5,12) sz assms(8) _ assms(13,14)] by blast
  have v: "file_size (desc_info e) = file_size (desc_info d)" "piece_size (desc_info e) = piece_size (desc_info d)"
      "num_pieces (desc_info e) = num_pieces (desc_info d)"
    using e(2) by (simp_all add: desc_view_def info_view_def)
  have k: "kernel_ok K" "cfs_reliable K"
    using assms(6) by (simp_all add: sound_kernel_def)
  have p: "powered K ?s0"
    using assms(7) by (simp add: powered_def)
  have fit: "pieces_fit (int_bits K) (desc_info e)"
    using assms(4) v(3) by (simp add: pieces_fit_def)
  have st: "startable K e ''myprogram'' ?s0"
    using view_wf [OF assms(2) e(1,2)] assms(3,9,10) fit v by (simp add: startable_def)
  from node_start_outcome [OF k(1) p st assms(14,13)] obtain s1 s2 s3 s where
    r: "nanotorrent_start ctx data e ''myprogram'' ?s0 = Some s1" "nanotorrent_process K ctx PROCESS_EVENT_INIT s1 = Some s2"
      "nanotorrent_peer_process K PROCESS_EVENT_INIT s2 = Some s3" "nanotorrent_swarm_process K PROCESS_EVENT_INIT s3 = Some s"
      "desc s = e" "cfs_reliable K \<longrightarrow> have_exact K s"
      "own_content K s = (case cfs_open K (take 15 ''myprogram'') (files ?s0) of (fd, f) \<Rightarrow> cfs_content K f fd)"
    by blast
  have c: "own_content K s = cfs_content K g fd"
    using r(7) assms(9) by simp
  have "piece_matches (desc_info e) i (cfs_content K g fd)" if "i < unat (num_pieces (desc_info d))" for i
    using assms(11) that view_hash [OF assms(1) e(1,2) that]
    by (simp add: piece_matches_def piece_bytes_def piece_off_def piece_len_def v)
  then have "{..<unat (num_pieces (desc_info e))} \<subseteq> bits (own_have s)"
    using r(5,6) k(2) c v(3) by (auto simp: have_exact_def)
  then have "nanotorrent_piece_is_seed (int_bits K) s"
    using is_seed_iff [of K s] fit r(5) by simp
  moreover have "PORTB s1 = 0"
    using r(1) by (auto simp: nanotorrent_start_def emit_def Let_def split: bind_splits)
  ultimately show ?thesis
    using e(2,3) r(1-5) by (intro exI [of _ s1] exI [of _ s2] exI [of _ s3] exI [of _ s]) simp
qed

text \<open>
  C6: from the file to the device, with a host and file systems that do not fail. When \<^verbatim>\<open>nanogen\<close> is run on a file with a piece size with which it fits into 31 pieces, and into two fewer pieces
  than an \<^verbatim>\<open>int\<close> of the device has bits, it writes a descriptor; a device that is built with this descriptor as its first static file
  and that has the bytes of the file under the name \<^verbatim>\<open>myprogram\<close> starts all processes and is a seed: every piece is complete. The
  descriptor it runs with is the one that was generated, whatever its buffers held, and its light is off.
\<close>

theorem generated_descriptor_seeds:
  assumes "posix_ok K P" "posix_reliable K P" "cfs_ok K" "cfs_reliable K" "address_ok conv" "stack_ok st"
    and "parse nanogen_options nanogen_parse_opt argv nanogen_default_arguments = Some (Some a)"
    and "arg_src_file a = Some src" "arg_tracker_ip a = Some ip"
    and "file_at P f src = Some content" "0 < length content" "length content < 65536"
    and "0 < (of_int (arg_piece_size a) :: u16)" "length content \<le> 31 * unat (of_int (arg_piece_size a) :: u16)"
    and "length content \<le> (int_bits D - 2) * unat (of_int (arg_piece_size a) :: u16)" "2 < int_bits D"
    and "sound_kernel D" "powered D s0" "demo_pc s0 = DemoNotStarted"
    and "cfs_open D ''myprogram'' (files s0) = (fd, g)" "0 \<le> fd" "cfs_content D g fd = content"
    and "663 \<le> length buffer" "645 \<le> length data" "length (next_block ctx) = 64" "16 \<le> size_bits"
  shows "\<exists>f' d. nanogen_main parse K P conv st argv f = Some (ExitStatus 0, f') \<and>
    file_at P f' (case arg_dest_file a of Some name \<Rightarrow> name | None \<Rightarrow> generated_name (desc_info d)) = Some (enc_desc d) \<and>
    (\<forall>root. holds root (enc_desc d) \<longrightarrow>
      (\<exists>s1 s2 s3 s. nanotorrent_demo_process size_bits root DDB1 PB1 ctx data buffer PROCESS_EVENT_INIT s0 = Some s1 \<and>
        nanotorrent_process D ctx PROCESS_EVENT_INIT s1 = Some s2 \<and>
        nanotorrent_peer_process D PROCESS_EVENT_INIT s2 = Some s3 \<and>
        nanotorrent_swarm_process D PROCESS_EVENT_INIT s3 = Some s \<and>
        nanotorrent_piece_is_seed (int_bits D) s \<and> desc_view (desc s) = desc_view d \<and> PORTB s1 = 0))"
proof -
  from nanogen_outcome [where parse = parse and argv = argv and a = a and st = st, OF assms(1-10,12,13)] obtain f' d where
    d: "nanogen_main parse K P conv st argv f = Some (ExitStatus 0, f')" "desc_ok d" "torrent_wf (desc_info d)"
      "unat (file_size (desc_info d)) = length content" "piece_size (desc_info d) = of_int (arg_piece_size a)"
      "\<forall>i < unat (num_pieces (desc_info d)). piece_hashes (desc_info d) ! i =
         sha1_spec (take (piece_len (desc_info d) i) (drop (piece_off (desc_info d) i) content))"
      "file_at P f' = (file_at P f)((case arg_dest_file a of Some name \<Rightarrow> name | None \<Rightarrow> generated_name (desc_info d)) \<mapsto> enc_desc d)"
    using assms(14) by auto
  have "pieces_fit (int_bits D) (desc_info d)"
    by (rule pieces_fit_size [OF d(3)]) (use assms(15,16) d(4,5) in simp_all)
  moreover have "0 < unat (file_size (desc_info d))"
    using assms(11) d(4) by simp
  moreover have "\<forall>i < unat (num_pieces (desc_info d)). piece_matches (desc_info d) i (cfs_content D g fd)"
    using d(6) assms(22) by (simp add: piece_matches_def piece_bytes_def)
  ultimately have "\<forall>root. holds root (enc_desc d) \<longrightarrow>
      (\<exists>s1 s2 s3 s. nanotorrent_demo_process size_bits root DDB1 PB1 ctx data buffer PROCESS_EVENT_INIT s0 = Some s1 \<and>
        nanotorrent_process D ctx PROCESS_EVENT_INIT s1 = Some s2 \<and>
        nanotorrent_peer_process D PROCESS_EVENT_INIT s2 = Some s3 \<and>
        nanotorrent_swarm_process D PROCESS_EVENT_INIT s3 = Some s \<and>
        nanotorrent_piece_is_seed (int_bits D) s \<and> desc_view (desc s) = desc_view d \<and> PORTB s1 = 0)"
    using demo_start_seeds [OF d(2,3) _ _ _ assms(17-21) _ assms(23-26)] by blast
  then show ?thesis
    using d(1,7) by (intro exI [of _ f'] exI [of _ d]) simp
qed

definition demo_device :: "(sim_file, sim_memb, sim_timer) demo" where
  "demo_device = nanotorrent.extend demo_node (demo.fields DemoNotStarted 0 0)"

lemma demo_device_fields:
  "pending_pieces demo_device = pending_pieces demo_node" "piece_counts demo_device = piece_counts demo_node"
  "peers_in demo_device = peers_in demo_node" "peers_out demo_device = peers_out demo_node" "peer_memb demo_device = peer_memb demo_node"
  "swarm_pc demo_device = swarm_pc demo_node" "main_pc demo_device = main_pc demo_node" "files demo_device = files demo_node"
  "demo_pc demo_device = DemoNotStarted"
  by (simp_all add: demo_device_def nanotorrent.defs demo.defs)

lemma demo_device_powered: "powered sim_contiki demo_device"
  using demo_powered by (simp add: powered_def demo_device_fields)

theorem generated_descriptor_seeds_witness:
  "\<exists>f' d s. nanogen_main host_argp host_contiki host_posix demo_address demo_stack [''movie'', ''fefe::'', ''33333''] demo_host =
     Some (ExitStatus 0, f') \<and> file_at host_posix f' (generated_name (desc_info d)) = Some (enc_desc d) \<and>
   nanotorrent_piece_is_seed 32 (s :: (sim_file, sim_memb, sim_timer) demo) \<and> desc_view (desc s) = desc_view d"
proof -
  have a: "arg_src_file (demo_arguments 256) = Some ''movie''" "arg_tracker_ip (demo_arguments 256) = Some ''fefe::''"
    "arg_dest_file (demo_arguments 256) = None" "0 < length (replicate 700 (7 :: u8))" "length (replicate 700 (7 :: u8)) < 65536"
    "0 < (of_int (arg_piece_size (demo_arguments 256)) :: u16)"
    "length (replicate 700 (7 :: u8)) \<le> 31 * unat (of_int (arg_piece_size (demo_arguments 256)) :: u16)"
    "length (replicate 700 (7 :: u8)) \<le> (int_bits sim_contiki - 2) * unat (of_int (arg_piece_size (demo_arguments 256)) :: u16)"
    "2 < int_bits sim_contiki"
    by (simp_all add: demo_arguments_def sim_simps)
  have o: "cfs_open sim_contiki ''myprogram'' (files demo_device) = (0, (replicate 700 7, 0))" "(0 :: int) \<le> 0"
    "cfs_content sim_contiki (replicate 700 7, 0) 0 = replicate 700 7"
    by (simp_all add: demo_device_fields demo_node_fields sim_open)
  have b: "663 \<le> length (replicate 664 (1 :: u8))" "645 \<le> length (replicate 645 (2 :: u8))" "length (next_block used_context) = 64"
    "(16 :: nat) \<le> 16"
    by simp_all
  from generated_descriptor_seeds [where parse = host_argp and argv = "[''movie'', ''fefe::'', ''33333'']",
      OF host_ok demo_parse(1) a(1,2) demo_file a(4-9) sim_sound demo_device_powered demo_device_fields(9) o b, of 1 1]
  obtain f' d where
    g: "nanogen_main host_argp host_contiki host_posix demo_address demo_stack [''movie'', ''fefe::'', ''33333''] demo_host =
      Some (ExitStatus 0, f')" "file_at host_posix f' (generated_name (desc_info d)) = Some (enc_desc d)"
    and r: "\<forall>root. holds root (enc_desc d) \<longrightarrow>
      (\<exists>s1 s2 s3 s. nanotorrent_demo_process 16 root 1 1 used_context (replicate 645 2) (replicate 664 1) PROCESS_EVENT_INIT demo_device = Some s1 \<and>
        nanotorrent_process sim_contiki used_context PROCESS_EVENT_INIT s1 = Some s2 \<and>
        nanotorrent_peer_process sim_contiki PROCESS_EVENT_INIT s2 = Some s3 \<and>
        nanotorrent_swarm_process sim_contiki PROCESS_EVENT_INIT s3 = Some s \<and>
        nanotorrent_piece_is_seed (int_bits sim_contiki) s \<and> desc_view (desc s) = desc_view d \<and> PORTB s1 = 0)"
    unfolding a(3) option.case by blast
  have "holds (Some (Fsdata None ''/movie.nt'' (enc_desc d) (int (length (enc_desc d))))) (enc_desc d)"
    by (simp add: holds_def)
  with r obtain s :: "(sim_file, sim_memb, sim_timer) demo" where
    "nanotorrent_piece_is_seed (int_bits sim_contiki) s" "desc_view (desc s) = desc_view d"
    by blast
  with g show ?thesis
    by (intro exI [of _ f'] exI [of _ d] exI [of _ s]) (simp add: sim_simps)
qed

end
