(* ===== verification/Download.thy ===== *)
theory Download
  imports Peer_Props
begin

text \<open>
  Two nodes that exchange datagrams: a node that hears a seed's HAVE message downloads the whole file from it. The
  network between them delivers every datagram once and in order; what is on the way is a datagram, and a
  round trip delivers it to the first node and what that sends to the second one. The handlers are those of
  \<^verbatim>\<open>peer.c\<close>; the network is part of the statement only.
\<close>

section \<open>Datagrams on the way\<close>

text \<open>The datagrams a node has sent with the peer protocol: their bytes and destinations.\<close>

fun datagrams :: "action list \<Rightarrow> (u8 list \<times> ip6addr) list" where
  "datagrams [] = []"
| "datagrams (UdpSendTo PeerSocket bs dest port # acts) =
    (if port = NANOTORRENT_PEER_PORT then [(bs, dest)] else []) @ datagrams acts"
| "datagrams (_ # acts) = datagrams acts"

text \<open>The first one that reaches the node \<open>ip\<close> on a link whose multicast address is \<open>mcast\<close>.\<close>

definition arrives :: "ip6addr \<Rightarrow> ip6addr \<Rightarrow> action list \<Rightarrow> (u8 list \<times> ip6addr) option" where
  "arrives ip mcast acts = List.find (\<lambda>(bs, dest). dest = ip \<or> dest = mcast) (datagrams acts)"

definition sent :: "'a env_scheme \<Rightarrow> 'b env_scheme \<Rightarrow> action list" where
  "sent s s' = drop (length (outputs s)) (outputs s')"

text \<open>A datagram is received at the start of the network buffer; \<open>behind\<close> is what the buffer holds behind it.\<close>

definition deliver :: "('f, 'm, 't) contiki \<Rightarrow> sha1_context \<Rightarrow> u8 list \<Rightarrow> ip6addr \<Rightarrow> u8 list \<times> ip6addr \<Rightarrow>
    ('f, 'm, 't, 'a) peer_state_scheme \<Rightarrow> ('f, 'm, 't, 'a) peer_state_scheme option" where
  "deliver K context behind src packet s = (case packet of (bs, dest) \<Rightarrow>
     nanotorrent_peer_handle_message K context src dest (bs @ behind) (of_nat (length bs)) s)"

fun round_trips :: "('f, 'm, 't) contiki \<Rightarrow> ('g, 'n, 'u) contiki \<Rightarrow> sha1_context \<Rightarrow> u8 list \<Rightarrow> ip6addr \<Rightarrow> ip6addr \<Rightarrow> nat \<Rightarrow>
    (u8 list \<times> ip6addr) option \<Rightarrow> ('f, 'm, 't, 'a) peer_state_scheme \<Rightarrow> ('g, 'n, 'u, 'b) peer_state_scheme \<Rightarrow>
    ((u8 list \<times> ip6addr) option \<times> ('f, 'm, 't, 'a) peer_state_scheme \<times> ('g, 'n, 'u, 'b) peer_state_scheme) option" where
  "round_trips KA KB context behind a b 0 way sA sB = Some (way, sA, sB)"
| "round_trips KA KB context behind a b (Suc n) None sA sB = Some (None, sA, sB)"
| "round_trips KA KB context behind a b (Suc n) (Some p) sA sB = do {
     sA' \<leftarrow> deliver KA context behind b p sA;
     (case arrives b (linklocal_allnodes_mcast KA) (sent sA sA') of
        None \<Rightarrow> round_trips KA KB context behind a b n None sA' sB
      | Some q \<Rightarrow> do {
          sB' \<leftarrow> deliver KB context behind a q sB;
          round_trips KA KB context behind a b n (arrives a (linklocal_allnodes_mcast KB) (sent sB sB')) sA' sB' }) }"

lemma datagrams_append [simp]: "datagrams (xs @ ys) = datagrams xs @ datagrams ys"
  by (induction xs rule: datagrams.induct) simp_all

lemma sent_append: "outputs s' = outputs s @ acts \<Longrightarrow> sent s s' = acts"
  by (simp add: sent_def)

lemma arrives_single:
  "dest = ip \<or> dest = mcast \<Longrightarrow> arrives ip mcast [UdpSendTo PeerSocket bs dest NANOTORRENT_PEER_PORT] = Some (bs, dest)"
  by (simp add: arrives_def)

lemma round_trips_idle: "round_trips KA KB context behind a b n None sA sB = Some (None, sA, sB)"
  by (cases n) simp_all

section \<open>Small facts about the handlers\<close>

lemma find_unique:
  assumes "net_ok K" "links_ok K s" "c \<in> set (peers s)" "conn_peer_info (conns s c) = peer"
  shows "nanotorrent_peer_find K peer s = Some c"
proof (cases "nanotorrent_peer_find K peer s")
  case None
  then show ?thesis
    using find_None [OF assms(1) None assms(3)] assms(4) by simp
next
  case (Some d)
  then show ?thesis
    using find_Some [OF assms(1) Some] assms(2-4) by (auto simp: links_ok_def inj_on_def)
qed

lemma update_have_frame:
  assumes "nanotorrent_peer_update_have K c have s = Some s'"
  shows "outputs s' = outputs s" "info_hash s' = info_hash s" "request_offset (conns s' d) = request_offset (conns s d)"
    "conn_peer_info (conns s' d) = conn_peer_info (conns s d)" "files s' = files s" "peers s' = peers s"
  using assms by (auto simp: nanotorrent_peer_update_have_def nanotorrent_select_update_have_def Let_def split: bind_splits if_splits)

lemma update_have_inv:
  assumes "peer_inv K s" "c \<in> set (peers s)"
  shows "\<exists>s'. nanotorrent_peer_update_have K c have s = Some s' \<and> peer_inv K s' \<and> (armed s \<longrightarrow> armed s') \<and> same_requests s s' \<and>
    same_store s s' \<and> only_conn c s s' \<and> conn_have (conns s' c) = conn_have (conns s c) OR have"
proof -
  have n: "net_inv K s" "pending_ok s" "have_ok K s"
    using assms(1) by (simp_all add: peer_inv_def)
  from update_have_outcome [OF n(1) assms(2), of "have"] obtain s' where
    u: "nanotorrent_peer_update_have K c have s = Some s'" "net_inv K s'" "same_requests s s'" "same_store s s'"
      "only_conn c s s'" "armed_conn s' c = armed_conn s c" "conn_have (conns s' c) = conn_have (conns s c) OR have"
    by blast
  have "peer_inv K s'"
    using n(2,3) u(2) same_requests_pending [OF u(3)] same_store_have [OF u(4), of K] by (simp add: peer_inv_def)
  moreover have "armed s \<longrightarrow> armed s'"
    using only_conn_armed [OF u(5)] u(3,6) assms(2) by (auto simp: same_requests_def armed_def)
  ultimately show ?thesis
    using u by blast
qed

text \<open>
  The message handler connects with the sender first: \<open>t\<close> is the state with the connection \<open>c\<close>, which is the state before when
  the two are connected already.
\<close>

definition met :: "('f, 'm, 't) contiki \<Rightarrow> ip6addr \<Rightarrow> nat \<Rightarrow> ('f, 'm, 't, 'a) peer_state_scheme \<Rightarrow> ('f, 'm, 't, 'a) peer_state_scheme \<Rightarrow> bool" where
  "met K ip c s t \<longleftrightarrow> nanotorrent_peer_accept K \<lparr>peer_ip = ip\<rparr> s = (Some c, t) \<and> outputs t = outputs s \<and> same_store s t \<and>
     info_hash t = info_hash s"

lemma met_known:
  assumes "kernel_ok K" "peer_inv K s" "c \<in> set (peers s)" "conn_peer_info (conns s c) = \<lparr>peer_ip = ip\<rparr>"
  shows "met K ip c s s"
  using find_unique [of K s c] assms
  by (simp add: met_def nanotorrent_peer_accept_def nanotorrent_peer_connect_with_def kernel_ok_def peer_inv_def net_inv_def)

lemma met_first:
  assumes "kernel_ok K" "peer_inv K s" "armed s" "peers s = []"
  shows "\<exists>c t. met K ip c s t \<and> peer_inv K t \<and> armed t \<and> peers t = [c] \<and> conn_peer_info (conns t c) = \<lparr>peer_ip = ip\<rparr> \<and>
    conn_have (conns t c) = 0 \<and> \<not> has_request (conns t c)"
proof -
  have n: "links_ok K s" and k: "memb_ok K" "list_ok K"
    using assms(1,2) by (simp_all add: peer_inv_def net_inv_def kernel_ok_def)
  have "memb_allocated K (peers_in s) = {}" "memb_capacity K (peers_in s) = 5"
    using n assms(4) by (simp_all add: links_ok_def NANOTORRENT_MAX_IN_PEERS_def NANOTORRENT_MAX_OUT_PEERS_def)
  then obtain c m where c: "memb_alloc K (peers_in s) = (Some c, m)"
    using memb_alloc_None [OF k(1), of "peers_in s"] by (cases "memb_alloc K (peers_in s)"; cases "fst (memb_alloc K (peers_in s))") auto
  define t where "t = nanotorrent_peer_add K c (set_conn c (\<lambda>x. x\<lparr>conn_peer_info := \<lparr>peer_ip = ip\<rparr>\<rparr>) (s\<lparr>peers_in := m\<rparr>))"
  have e: "nanotorrent_peer_connect_with K \<lparr>peer_ip = ip\<rparr> PeersIn s = (Some c, t)"
    using c assms(4) by (simp add: nanotorrent_peer_connect_with_def nanotorrent_peer_find_def alloc_conn_def t_def)
  have t: "peers t = [c]" "conn_peer_info (conns t c) = \<lparr>peer_ip = ip\<rparr>" "conn_have (conns t c) = 0" "\<not> has_request (conns t c)"
    "outputs t = outputs s" "info_hash t = info_hash s"
    using list_push_new [OF k(2), of c "[]"] assms(4) by (simp_all add: t_def nanotorrent_peer_add_def Let_def)
  have "peer_inv K t" "armed t" "same_store s t"
    using connect_with_inv [OF assms(1,2), of "\<lparr>peer_ip = ip\<rparr>" PeersIn] e assms(3) by auto
  then show ?thesis
    using e t by (intro exI [of _ c] exI [of _ t]) (simp add: met_def nanotorrent_peer_accept_def)
qed

text \<open>What the handler of messages does with a message of the torrent other than CLOSE.\<close>

lemma handle_message_eq:
  assumes "length (info_hash s) = 20" "25 \<le> length mem" "take 25 mem = enc_header h" "header_ok h"
    and "msg_info_hash h = info_hash s" "msg_type h \<noteq> NANOTORRENT_PEER_CLOSE"
    and "(if msg_type h = NANOTORRENT_PEER_DATA_REPLY
      then nanotorrent_peer_handle_data_reply K context mem datalen \<lparr>peer_ip = src\<rparr> s else Some s) = Some t"
    and "met K src c t t'"
  shows "nanotorrent_peer_handle_message K context src dest mem datalen s = do {
     s \<leftarrow> nanotorrent_peer_update_have K c (msg_have h) t';
     if msg_type h = NANOTORRENT_PEER_HAVE \<or> msg_type h = NANOTORRENT_PEER_DATA_REPLY then
       map_option snd (nanotorrent_peer_request_next K c s)
     else if msg_type h = NANOTORRENT_PEER_DATA_REQUEST then
       nanotorrent_peer_handle_data_request K mem datalen \<lparr>peer_ip = src\<rparr> s
     else Some s }"
proof -
  have "nanotorrent_unpack_peer_message_header (mem, 0) = Some (dec_header (take 25 mem), (mem, 25))"
    using header.parse_Some [of 0 mem] assms(2) by simp
  then have u: "nanotorrent_unpack_peer_message_header (mem, 0) = Some (h, (mem, 25))"
    using assms(3,4) header.dec_enc by simp
  have "sha1_cmp (info_hash s) (info_hash s)"
    using assms(1) by simp
  moreover have "nanotorrent_peer_accept K \<lparr>peer_ip = src\<rparr> t = (Some c, t')"
    using assms(8) by (simp add: met_def)
  ultimately show ?thesis
    using assms(5-7) unfolding nanotorrent_peer_handle_message_def Let_def by (simp add: u)
qed

section \<open>The seed answers\<close>

text \<open>
  A seed: connected to the node \<open>a\<close>, all the pieces complete, and the whole file on its store, each piece with the
  digest of the descriptor.
\<close>

definition seeding :: "('f, 'm, 't) contiki \<Rightarrow> ip6addr \<Rightarrow> nat \<Rightarrow> ('f, 'm, 't, 'a) peer_state_scheme \<Rightarrow> bool" where
  "seeding K a d s \<longleftrightarrow> peer_inv K s \<and> d \<in> set (peers s) \<and> conn_peer_info (conns s d) = \<lparr>peer_ip = a\<rparr> \<and>
     bits (own_have s) = {..<unat (num_pieces (the_info s))} \<and> unat (file_size (the_info s)) \<le> length (own_content K s) \<and>
     (\<forall>j < unat (num_pieces (the_info s)). piece_matches (the_info s) j (own_content K s))"

text \<open>The data reply with the bytes \<open>bs\<close> a node in the state \<open>s\<close> sends.\<close>

definition reply_of :: "('f, 'm, 't, 'a) peer_state_scheme \<Rightarrow> u8 \<Rightarrow> u16 \<Rightarrow> u8 list \<Rightarrow> u8 list" where
  "reply_of s i st bs =
    enc_data \<lparr>data_header = nanotorrent_peer_make_header NANOTORRENT_PEER_DATA_REPLY s, piece_index = i, data_start = st\<rparr> @ bs"

definition request_of :: "('f, 'm, 't, 'a) peer_state_scheme \<Rightarrow> u8 \<Rightarrow> u16 \<Rightarrow> u8 list" where
  "request_of s i st =
    enc_data \<lparr>data_header = nanotorrent_peer_make_header NANOTORRENT_PEER_DATA_REQUEST s, piece_index = i, data_start = st\<rparr>"

text \<open>The bytes of a file a reply carries: some of those of the piece, from its start on.\<close>

definition block_of :: "nanotorrent_torrent_info \<Rightarrow> nat \<Rightarrow> nat \<Rightarrow> u8 list \<Rightarrow> u8 list \<Rightarrow> bool" where
  "block_of ti i st content bs \<longleftrightarrow> bs \<noteq> [] \<and> st + length bs \<le> piece_len ti i \<and>
     bs = take (length bs) (drop (piece_off ti i + st) content)"

lemma make_header_simps [simp]:
  "msg_type (nanotorrent_peer_make_header t s) = t" "msg_info_hash (nanotorrent_peer_make_header t s) = info_hash s"
  "msg_have (nanotorrent_peer_make_header t s) = own_have s"
  by (simp_all add: nanotorrent_peer_make_header_def nanotorrent_piece_have_def)

lemma make_header_cong:
  "info_hash s' = info_hash s \<Longrightarrow> own_have s' = own_have s \<Longrightarrow> nanotorrent_peer_make_header t s' = nanotorrent_peer_make_header t s"
  by (simp add: nanotorrent_peer_make_header_def nanotorrent_piece_have_def)

lemma take_header: "header_ok (data_header d) \<Longrightarrow> take 25 (enc_data d @ bs) = enc_header (data_header d)"
  by (simp add: enc_data_def header.size_enc)

lemma message_types:
  "NANOTORRENT_PEER_DATA_REQUEST \<noteq> NANOTORRENT_PEER_CLOSE" "NANOTORRENT_PEER_DATA_REQUEST \<noteq> NANOTORRENT_PEER_HAVE"
  "NANOTORRENT_PEER_DATA_REQUEST \<noteq> NANOTORRENT_PEER_DATA_REPLY" "NANOTORRENT_PEER_DATA_REPLY \<noteq> NANOTORRENT_PEER_CLOSE"
  "NANOTORRENT_PEER_HAVE \<noteq> NANOTORRENT_PEER_CLOSE" "NANOTORRENT_PEER_HAVE \<noteq> NANOTORRENT_PEER_DATA_REPLY"
  by (simp_all add: NANOTORRENT_PEER_DATA_REQUEST_def NANOTORRENT_PEER_DATA_REPLY_def NANOTORRENT_PEER_CLOSE_def
      NANOTORRENT_PEER_HAVE_def)

lemma seed_answers:
  assumes "sound_kernel K" "28 < udp_payload K" "met K a d s0 s" "seeding K a d s" "length (info_hash r) = 20" "info_hash r = info_hash s"
    and "unat i < unat (num_pieces (the_info s))" "unat st < piece_len (the_info s) (unat i)" "piece_len (the_info s) (unat i) \<le> 256"
  shows "\<exists>s' bs dest'. deliver K context behind a (request_of r i st, dest) s0 = Some s' \<and> seeding K a d s' \<and>
    own_content K s' = own_content K s \<and> desc s' = desc s \<and> info_hash s' = info_hash s \<and> own_have s' = own_have s \<and>
    block_of (the_info s) (unat i) (unat st) (own_content K s) bs \<and> 28 + length bs < 2 ^ 16 \<and>
    arrives a (linklocal_allnodes_mcast K) (sent s0 s') = Some (reply_of s i st bs, dest')"
proof -
  define q where "q = \<lparr>data_header = nanotorrent_peer_make_header NANOTORRENT_PEER_DATA_REQUEST r, piece_index = i, data_start = st\<rparr>"
  define mem where "mem = enc_data q @ behind"
  have k: "kernel_ok K" "payload_ok K" "cfs_reliable K"
    using assms(1) by (simp_all add: sound_kernel_def)
  have sd: "peer_inv K s" "d \<in> set (peers s)" "conn_peer_info (conns s d) = \<lparr>peer_ip = a\<rparr>"
    "bits (own_have s) = {..<unat (num_pieces (the_info s))}" "unat (file_size (the_info s)) \<le> length (own_content K s)"
    using assms(4) by (simp_all add: seeding_def)
  have n: "net_inv K s"
    using sd(1) by (simp add: peer_inv_def)
  note fits = net_inv_fits [OF n]
  have ok: "header_ok (data_header q)"
    using assms(5) by (simp add: q_def header_ok_make)
  have l: "length (enc_data q) = 28"
    by (rule data.size_enc [OF ok])
  then have mem: "28 \<le> length mem" "take 28 mem = enc_data q" "dec_data (take 28 mem) = q"
    using ok by (simp_all add: mem_def data.dec_enc)
  have ih: "length (info_hash s0) = 20" "info_hash s0 = info_hash s" "outputs s = outputs s0"
    using fits(2) assms(3) by (simp_all add: met_def)
  obtain s1 where s1: "nanotorrent_peer_update_have K d (own_have r) s = Some s1" "peer_inv K s1" "same_requests s s1" "same_store s s1"
    using update_have_inv [OF sd(1,2)] by blast
  note f1 = update_have_frame [OF s1(1)]
  have e1: "desc s1 = desc s" "own_have s1 = own_have s" "own_content K s1 = own_content K s"
    using s1(4) by (simp_all add: same_store_def own_content_def)
  have m25: "25 \<le> length mem" and t25: "take 25 mem = enc_header (data_header q)"
    using mem(1) take_header [OF ok] by (simp_all add: mem_def)
  have hq: "data_header q = nanotorrent_peer_make_header NANOTORRENT_PEER_DATA_REQUEST r"
    by (simp add: q_def)
  have "deliver K context behind a (request_of r i st, dest) s0 = nanotorrent_peer_handle_message K context a dest mem 28 s0"
    using l by (simp add: deliver_def request_of_def mem_def flip: q_def)
  moreover have "nanotorrent_peer_handle_message K context a dest mem 28 s0 =
      nanotorrent_peer_handle_data_request K mem 28 \<lparr>peer_ip = a\<rparr> s1"
    using handle_message_eq [OF ih(1) m25 t25 ok _ _ _ assms(3), of "context" 28 dest] assms(6) s1(1) ih(2)
    by (simp add: hq message_types)
  ultimately have del: "deliver K context behind a (request_of r i st, dest) s0 =
      nanotorrent_peer_handle_data_request K mem 28 \<lparr>peer_ip = a\<rparr> s1"
    by simp
  have n1: "net_inv K s1"
    using s1(2) by (simp add: peer_inv_def)
  have c: "nanotorrent_piece_is_complete i s1"
    using assms(7) sd(4) e1 by (simp add: is_complete_iff valid_iff)
  have low: "unat st mod 256 = unat st"
    using assms(8,9) by simp
  have room: "piece_off (the_info s) (unat i) + unat st < length (own_content K s)"
    using piece_in_file [OF fits(6) assms(7)] assms(8) sd(5) by simp
  have parts: "piece_index (dec_data (take 28 mem)) = i" "data_start (dec_data (take 28 mem)) = st"
    using mem(3) by (simp_all add: q_def)
  from data_request_reply [OF k(1,2) s1(2) mem(1) parts [symmetric], of 28 "\<lparr>peer_ip = a\<rparr>"] obtain s' ds where
    s': "nanotorrent_peer_handle_data_request K mem 28 \<lparr>peer_ip = a\<rparr> s1 = Some s'" "outputs s' = outputs s1 @ ds" "peer_inv K s'"
    and ds: "ds = [] \<or> nanotorrent_piece_is_complete i s1 \<and>
      (\<exists>bs. bs \<noteq> [] \<and> length bs \<le> udp_payload K - 28 \<and> unat st mod 256 + length bs \<le> piece_len (the_info s1) (unat i) \<and>
         bs = take (length bs) (drop (piece_off (the_info s1) (unat i) + unat st mod 256) (own_content K s1)) \<and>
         ds = [UdpSendTo PeerSocket
           (enc_data \<lparr>data_header = nanotorrent_peer_make_header NANOTORRENT_PEER_DATA_REPLY s1, piece_index = i, data_start = st\<rparr> @ bs)
           (if nanotorrent_peer_is_local K \<lparr>peer_ip = a\<rparr> then linklocal_allnodes_mcast K else peer_ip \<lparr>peer_ip = a\<rparr>) NANOTORRENT_PEER_PORT])"
      "cfs_reliable K \<and> nanotorrent_piece_is_complete i s1 \<and> 28 < udp_payload K \<and>
        unat st mod 256 < piece_len (the_info s1) (unat i) \<and>
        piece_off (the_info s1) (unat i) + unat st mod 256 < length (own_content K s1) \<longrightarrow> ds \<noteq> []"
    by blast
  have "ds \<noteq> []"
    using ds(2) c k(3) assms(2,8) room unfolding e1 low by blast
  with ds(1) obtain bs where b: "bs \<noteq> []" "length bs \<le> udp_payload K - 28"
      "unat st mod 256 + length bs \<le> piece_len (the_info s1) (unat i)"
      "bs = take (length bs) (drop (piece_off (the_info s1) (unat i) + unat st mod 256) (own_content K s1))"
      "ds = [UdpSendTo PeerSocket
         (enc_data \<lparr>data_header = nanotorrent_peer_make_header NANOTORRENT_PEER_DATA_REPLY s1, piece_index = i, data_start = st\<rparr> @ bs)
         (if nanotorrent_peer_is_local K \<lparr>peer_ip = a\<rparr> then linklocal_allnodes_mcast K else peer_ip \<lparr>peer_ip = a\<rparr>) NANOTORRENT_PEER_PORT]"
    by blast
  have blk: "block_of (the_info s) (unat i) (unat st) (own_content K s) bs"
    unfolding block_of_def using b(1,3,4) unfolding e1 low by (intro conjI)
  define dest' where "dest' = (if nanotorrent_peer_is_local K \<lparr>peer_ip = a\<rparr> then linklocal_allnodes_mcast K else a)"
  have "ds = [UdpSendTo PeerSocket (reply_of s1 i st bs) dest' NANOTORRENT_PEER_PORT]"
    using b(5) by (simp add: reply_of_def dest'_def)
  then have "sent s0 s' = [UdpSendTo PeerSocket (reply_of s i st bs) dest' NANOTORRENT_PEER_PORT]"
    using s'(2) f1(1) ih(3) make_header_cong [OF f1(2) e1(2)] by (simp add: sent_append reply_of_def)
  then have ar: "arrives a (linklocal_allnodes_mcast K) (sent s0 s') = Some (reply_of s i st bs, dest')"
    by (simp add: arrives_single dest'_def)
  from handle_data_request_outcome [OF k(1) n1 mem(1), of 28 "\<lparr>peer_ip = a\<rparr>"] k(2) s'(1) have
    f: "same_net s1 s'" "same_requests s1 s'" "conns s' = conns s1" "own_content K s' = own_content K s1" "own_have s' = own_have s1"
    by (auto simp: payload_ok_def)
  have "28 + length bs < 2 ^ 16"
    using b(2) k(2) assms(2) by (simp add: payload_ok_def)
  moreover have "desc s' = desc s" "info_hash s' = info_hash s" "own_have s' = own_have s" "own_content K s' = own_content K s" "peers s' = peers s"
    using f e1 f1(2,6) by (simp_all add: same_net_def)
  moreover from this have "seeding K a d s'"
    using assms(4) s'(3) f(3) f1(4) by (simp add: seeding_def)
  moreover have "deliver K context behind a (request_of r i st, dest) s0 = Some s'"
    using del s'(1) by simp
  ultimately show ?thesis
    using ar blk by (intro exI [of _ s'] exI [of _ bs] exI [of _ dest'] conjI)
qed

section \<open>The state of the node that downloads\<close>

text \<open>
  It is connected to the seed \<open>b\<close> and requests from nobody else, and its complete pieces are those of the file
  \<open>content\<close> of the seed. While it waits for a piece, the bytes before the offset of the request are there.
\<close>

definition prefix_there :: "nanotorrent_torrent_info \<Rightarrow> nat \<Rightarrow> nat \<Rightarrow> u8 list \<Rightarrow> u8 list \<Rightarrow> bool" where
  "prefix_there ti i m content own \<longleftrightarrow>
     (\<forall>k < m. piece_off ti i + k < length own \<and> own ! (piece_off ti i + k) = content ! (piece_off ti i + k))"

definition leeching :: "('f, 'm, 't) contiki \<Rightarrow> ip6addr \<Rightarrow> nat \<Rightarrow> u8 list \<Rightarrow> ('f, 'm, 't, 'a) peer_state_scheme \<Rightarrow> bool" where
  "leeching K b c content s \<longleftrightarrow> peer_inv K s \<and> armed s \<and> c \<in> set (peers s) \<and> conn_peer_info (conns s c) = \<lparr>peer_ip = b\<rparr> \<and>
     bits (conn_have (conns s c)) \<subseteq> {..<unat (num_pieces (the_info s))} \<and>
     (\<forall>d \<in> set (peers s). has_request (conns s d) \<longrightarrow> d = c) \<and>
     (\<forall>j \<in> bits (own_have s). prefix_there (the_info s) j (piece_len (the_info s) j) content (own_content K s))"

definition awaiting :: "('f, 'm, 't) contiki \<Rightarrow> nat \<Rightarrow> u8 list \<Rightarrow> u8 \<Rightarrow> u16 \<Rightarrow> ('f, 'm, 't, 'a) peer_state_scheme \<Rightarrow> bool" where
  "awaiting K c content i st s \<longleftrightarrow> has_request (conns s c) \<and> request_index (conns s c) = i \<and> request_offset (conns s c) = st \<and>
     unat i < unat (num_pieces (the_info s)) \<and> unat i \<notin> bits (own_have s) \<and> unat st < piece_len (the_info s) (unat i) \<and>
     prefix_there (the_info s) (unat i) (unat st) content (own_content K s)"

lemma prefix_there_bytes:
  assumes "prefix_there ti i (piece_len ti i) content own" "piece_off ti i + piece_len ti i \<le> length content"
  shows "piece_bytes ti i own = piece_bytes ti i content"
proof (cases "piece_len ti i")
  case (Suc n)
  then have "piece_off ti i + n < length own"
    using assms(1) by (simp add: prefix_there_def)
  then have "piece_off ti i + piece_len ti i \<le> length own"
    using Suc by simp
  then show ?thesis
    using assms unfolding piece_bytes_def prefix_there_def by (intro nth_equalityI) simp_all
qed (simp add: piece_bytes_def)

lemma prefix_there_write:
  assumes "prefix_there ti j m content old" "writes_piece ti i old new" "j \<noteq> i" "m \<le> piece_len ti j"
  shows "prefix_there ti j m content new"
  using assms(1,2,4) piece_disjoint [OF assms(3), of ti] unfolding prefix_there_def writes_piece_def by fastforce

lemma leeching_idle_pending:
  assumes "leeching K b c content s" "\<not> has_request (conns s c)"
  shows "pending_pieces s = 0"
proof -
  have "\<not> requesting s d i" for d i
    using assms by (auto simp: leeching_def requesting_def)
  then have "bits (pending_pieces s) = {}"
    using assms(1) unfolding leeching_def peer_inv_def pending_ok_def by blast
  then show ?thesis by simp
qed

text \<open>Asking for the next piece: the node is complete, or waits for a missing piece, which it has just requested.\<close>

lemma leecher_proceeds:
  assumes "kernel_ok K" "leeching K b c content s" "\<not> has_request (conns s c)"
    and "bits (conn_have (conns s c)) = {..<unat (num_pieces (the_info s))}"
  shows "\<exists>s'. map_option snd (nanotorrent_peer_request_next K c s) = Some s' \<and> leeching K b c content s' \<and> same_store s s' \<and>
    info_hash s' = info_hash s \<and>
    (if {..<unat (num_pieces (the_info s))} \<subseteq> bits (own_have s) then s' = s
     else \<exists>i. awaiting K c content i 0 s' \<and>
       outputs s' = outputs s @ [UdpSendTo PeerSocket (request_of s' i 0) b NANOTORRENT_PEER_PORT])"
proof -
  have l: "peer_inv K s" "armed s" "c \<in> set (peers s)" "conn_peer_info (conns s c) = \<lparr>peer_ip = b\<rparr>"
    "\<forall>d \<in> set (peers s). has_request (conns s d) \<longrightarrow> d = c"
    using assms(2) by (simp_all add: leeching_def)
  have n: "net_inv K s" "pending_ok s" "have_ok K s"
    using l(1) by (simp_all add: peer_inv_def)
  note fits = net_inv_fits [OF n(1)]
  show ?thesis
  proof (cases "{..<unat (num_pieces (the_info s))} \<subseteq> bits (own_have s)")
    case True
    then have "nanotorrent_peer_request_next K c s = Some (False, s)"
      using assms(3) is_seed_iff [OF fits(7)] by (simp add: nanotorrent_peer_request_next_def)
    then show ?thesis
      using True assms(2) by simp
  next
    case False
    define M where "M = bits (conn_have (conns s c)) - bits (own_have s)"
    have M: "M \<noteq> {}"
      using False assms(4) by (auto simp: M_def)
    have S: "M = (let missing = bits (conn_have (conns s c)) - bits (own_have s); fresh = missing - bits (pending_pieces s)
        in if fresh \<noteq> {} then fresh
           else if 4 * unat (num_pieces (the_info s)) \<le> 5 * card (bits (own_have s)) then missing else {})"
      using M leeching_idle_pending [OF assms(2,3)] by (simp add: Let_def M_def)
    have "\<not> (has_request (conns s c) \<or> (\<forall>i < unat (num_pieces (the_info s)). i \<in> bits (own_have s)))"
      using False assms(3) by auto
    from request_next_selects [OF assms(1) l(1,3) _ S this] assms(4) obtain j s' where
      s': "is_rarest (piece_counts s) M j" "nanotorrent_peer_request_next K c s = Some (True, s')" "has_request (conns s' c)"
        "request_index (conns s' c) = of_nat j" "request_offset (conns s' c) = 0" "peer_inv K s'"
        "outputs s' = outputs s @ [UdpSendTo PeerSocket
          (enc_data \<lparr>data_header = nanotorrent_peer_make_header NANOTORRENT_PEER_DATA_REQUEST s, piece_index = of_nat j, data_start = 0\<rparr>)
          (peer_ip (conn_peer_info (conns s c))) NANOTORRENT_PEER_PORT]"
      unfolding if_not_P [OF M] by auto
    have "armed_conn s c"
      using l(2,3) by (simp add: armed_def)
    from request_next_outcome [OF n(1,2) l(3) this] s'(2) have
      f: "same_net s s'" "same_store s s'" "only_conn c s s'" "armed_conn s' c"
      by auto
    have e: "peers s' = peers s" "desc s' = desc s" "own_have s' = own_have s" "own_content K s' = own_content K s" "info_hash s' = info_hash s"
      "conn_peer_info (conns s' c) = conn_peer_info (conns s c)" "conn_have (conns s' c) = conn_have (conns s c)"
      using f(1,2) by (simp_all add: same_net_def same_store_def own_content_def)
    have "armed s'"
      using only_conn_armed [OF f(3) e(1) l(2) f(4)] .
    moreover have "\<forall>d \<in> set (peers s'). has_request (conns s' d) \<longrightarrow> d = c"
      using l(5) f(3) e(1) by (auto simp: only_conn_def)
    ultimately have lee: "leeching K b c content s'"
      using assms(2) s'(6) e by (simp add: leeching_def)
    have j: "j < unat (num_pieces (the_info s))" "j \<notin> bits (own_have s)"
      using s'(1) assms(4) by (auto simp: is_rarest_def M_def)
    then have uj: "unat (of_nat j :: u8) = j"
      using fits(3) by (simp add: unat_of_nat)
    have "0 < piece_len (the_info s) j"
      using wf_offset [OF fits(6) j(1)] fits(6,8) by (auto simp: piece_len_def torrent_wf_def)
    then have w: "awaiting K c content (of_nat j) 0 s'"
      using s'(3-5) j uj e by (simp add: awaiting_def prefix_there_def)
    have "outputs s' = outputs s @ [UdpSendTo PeerSocket (request_of s' (of_nat j) 0) b NANOTORRENT_PEER_PORT]"
      using s'(7) l(4) make_header_cong [OF e(5,3)] by (simp add: request_of_def)
    then show ?thesis
      using False s'(2) lee f(2) e(5) w by auto
  qed
qed

section \<open>Receiving a block\<close>

lemma stop_all_quiet:
  "outputs (nanotorrent_peer_request_stop_all K i s) = outputs s"
  "has_request (conns (nanotorrent_peer_request_stop_all K i s) d) \<Longrightarrow> has_request (conns s d)"
proof -
  have "outputs (fold (\<lambda>c s. if has_request (conns s c) \<and> request_index (conns s c) = i
      then nanotorrent_peer_request_stop_partial K c s else s) cs s) = outputs s \<and>
    (has_request (conns (fold (\<lambda>c s. if has_request (conns s c) \<and> request_index (conns s c) = i
      then nanotorrent_peer_request_stop_partial K c s else s) cs s) d) \<longrightarrow> has_request (conns s d))" for cs
  proof (induction cs arbitrary: s)
    case (Cons c cs)
    have "outputs (nanotorrent_peer_request_stop_partial K c s) = outputs s"
      by (simp add: nanotorrent_peer_request_stop_partial_def Let_def)
    moreover have "has_request (conns (nanotorrent_peer_request_stop_partial K c s) d) \<Longrightarrow> has_request (conns s d)"
      by (simp add: stop_partial_conns split: if_splits)
    ultimately show ?case
      using Cons.IH [of s] Cons.IH [of "nanotorrent_peer_request_stop_partial K c s"] by auto
  qed simp
  then show "outputs (nanotorrent_peer_request_stop_all K i s) = outputs s"
    "has_request (conns (nanotorrent_peer_request_stop_all K i s) d) \<Longrightarrow> has_request (conns s d)"
    by (simp_all add: nanotorrent_peer_request_stop_all_def Let_def)
qed

lemma post_quiet:
  "\<exists>acts. outputs (nanotorrent_peer_post_event s) = outputs s @ acts \<and> datagrams acts = []"
  "\<exists>acts. outputs (nanotorrent_peer_post_seeding K t) = outputs t @ acts \<and> datagrams acts = []"
proof -
  show "\<exists>acts. outputs (nanotorrent_peer_post_event s) = outputs s @ acts \<and> datagrams acts = []"
    by (intro exI [of _ "[ProcessPost MainProcess peer_event]"]) (simp add: nanotorrent_peer_post_event_def emit_def)
  show "\<exists>acts. outputs (nanotorrent_peer_post_seeding K t) = outputs t @ acts \<and> datagrams acts = []"
    by (intro exI [of _ "if posted_seeding_event t then [] else [ProcessPost PROCESS_BROADCAST seeding_event]"])
      (simp add: nanotorrent_peer_post_seeding_def Let_def)
qed

lemma receive_continues:
  assumes "kernel_ok K" "leeching K b c content s" "length (next_block context) = 64"
    and "has_request (conns s c)" "request_index (conns s c) = i" "unat i < unat (num_pieces (the_info s))" "unat i \<notin> bits (own_have s)"
    and "unat (st + len) < piece_len (the_info s) (unat i)"
    and "prefix_there (the_info s) (unat i) (unat (st + len)) content (own_content K s)"
  shows "\<exists>s'. nanotorrent_peer_receive_data K context c i st len s = Some s' \<and> leeching K b c content s' \<and>
    awaiting K c content i (st + len) s' \<and> own_have s' = own_have s \<and> desc s' = desc s \<and> info_hash s' = info_hash s \<and>
    outputs s' = outputs s @ [UdpSendTo PeerSocket (request_of s' i (st + len)) b NANOTORRENT_PEER_PORT]"
proof -
  have l: "peer_inv K s" "armed s" "c \<in> set (peers s)" "conn_peer_info (conns s c) = \<lparr>peer_ip = b\<rparr>"
    "\<forall>d \<in> set (peers s). has_request (conns s d) \<longrightarrow> d = c"
    using assms(2) by (simp_all add: leeching_def)
  have n: "net_inv K s" "pending_ok s" "have_ok K s"
    using l(1) by (simp_all add: peer_inv_def)
  note fits = net_inv_fits [OF n(1)]
  have v: "nanotorrent_piece_is_valid i s"
    using assms(6) by (simp add: valid_iff)
  have less: "st + len < nanotorrent_piece_size i s"
    using unat_piece_size [OF fits(6) v] assms(8) by (simp add: word_less_nat_alt)
  define t where "t = set_conn c (\<lambda>x. x\<lparr>request_offset := st + len\<rparr>) s"
  have t: "same_net s t" "same_store s t" "same_requests s t" "only_conn c s t" "outputs t = outputs s"
    by (simp_all add: t_def same_net_def same_store_def same_requests_def only_conn_def)
  have m: "net_inv K t" "pending_ok t" "c \<in> set (peers t)" "unat (request_index (conns t c)) < unat (num_pieces (the_info t))"
    using n same_net_inv [OF t(1), of K] same_requests_pending [OF t(3)] l(3) assms(5,6) by (simp_all add: t_def)
  from request_start_outcome [OF m] request_start_eq [OF m(1,3)] obtain s' r where
    s': "nanotorrent_peer_request_start K c t = Some s'" "same_net t s'" "same_store t s'" "only_conn c t s'"
      "conns s' c = (conns t c)\<lparr>has_request := True, request_retry := r\<rparr>"
      "outputs s' = outputs t @ [UdpSendTo PeerSocket
        (enc_data \<lparr>data_header = nanotorrent_peer_make_header NANOTORRENT_PEER_DATA_REQUEST t,
          piece_index = request_index (conns t c), data_start = request_offset (conns t c)\<rparr>)
        (peer_ip (conn_peer_info (conns t c))) NANOTORRENT_PEER_PORT]"
    by auto
  have e: "nanotorrent_peer_receive_data K context c i st len s = Some s'"
    using less s'(1) by (simp add: nanotorrent_peer_receive_data_def Let_def t_def)
  have f: "same_net s s'" "same_store s s'" "only_conn c s s'"
    using t s'(2-4) same_net_trans same_store_trans only_conn_trans by blast+
  have g: "peers s' = peers s" "desc s' = desc s" "own_have s' = own_have s" "own_content K s' = own_content K s"
    "info_hash s' = info_hash s" "conn_peer_info (conns s' c) = conn_peer_info (conns s c)" "conn_have (conns s' c) = conn_have (conns s c)"
    using f(1,2) by (simp_all add: same_net_def same_store_def own_content_def)
  have "peer_inv K s' \<and> armed s'"
    using receive_data_outcome [OF assms(1) l(1) armed_others [OF l(2)] assms(3) l(3) assms(4,5) v assms(7), of st len] e by auto
  moreover have "\<forall>d \<in> set (peers s'). has_request (conns s' d) \<longrightarrow> d = c"
    using l(5) f(3) g(1) by (auto simp: only_conn_def)
  ultimately have "leeching K b c content s'"
    using assms(2) g by (simp add: leeching_def)
  moreover have "awaiting K c content i (st + len) s'"
    using s'(5) assms(5-9) g by (simp add: awaiting_def t_def)
  moreover have "outputs s' = outputs s @ [UdpSendTo PeerSocket (request_of s' i (st + len)) b NANOTORRENT_PEER_PORT]"
  proof -
    have "info_hash t = info_hash s'" "own_have t = own_have s'"
      using t(1,2) g(3,5) by (simp_all add: same_net_def same_store_def)
    from make_header_cong [OF this] show ?thesis
      using s'(6) t(5) l(4) assms(5) by (simp add: request_of_def t_def)
  qed
  ultimately show ?thesis
    using e g by blast
qed

lemma receive_completes:
  assumes "kernel_ok K" "cfs_reliable K" "leeching K b c content s" "length (next_block context) = 64"
    and "has_request (conns s c)" "request_index (conns s c) = i" "unat i < unat (num_pieces (the_info s))" "unat i \<notin> bits (own_have s)"
    and "piece_len (the_info s) (unat i) \<le> unat (st + len)"
    and "prefix_there (the_info s) (unat i) (piece_len (the_info s) (unat i)) content (own_content K s)"
    and "piece_matches (the_info s) (unat i) content" "unat (file_size (the_info s)) \<le> length content"
  shows "\<exists>s'. nanotorrent_peer_receive_data K context c i st len s = Some s' \<and> leeching K b c content s' \<and>
    \<not> has_request (conns s' c) \<and> bits (own_have s') = insert (unat i) (bits (own_have s)) \<and> desc s' = desc s \<and>
    info_hash s' = info_hash s \<and> conn_have (conns s' c) = conn_have (conns s c) \<and>
    (\<exists>acts. outputs s' = outputs s @ acts \<and> datagrams acts = [])"
proof -
  have l: "peer_inv K s" "armed s" "c \<in> set (peers s)" "conn_peer_info (conns s c) = \<lparr>peer_ip = b\<rparr>"
    "\<forall>d \<in> set (peers s). has_request (conns s d) \<longrightarrow> d = c"
    using assms(3) by (simp_all add: leeching_def)
  have n: "net_inv K s" "pending_ok s" "have_ok K s"
    using l(1) by (simp_all add: peer_inv_def)
  note fits = net_inv_fits [OF n(1)]
  have v: "nanotorrent_piece_is_valid i s"
    using assms(7) by (simp add: valid_iff)
  have k: "cfs_ok K"
    using assms(1) by (simp add: kernel_ok_def)
  have more: "\<not> st + len < nanotorrent_piece_size i s"
    using unat_piece_size [OF fits(6) v] assms(9) by (simp add: word_less_nat_alt)
  have match: "piece_matches (the_info s) (unat i) (own_content K s)"
    using prefix_there_bytes [OF assms(10)] piece_in_file [OF fits(6) assms(7)] assms(11,12) by (simp add: piece_matches_def)
  define s1 where "s1 = nanotorrent_peer_request_stop K c s"
  note f1 = request_stop_frames [of s K c, folded s1_def]
  have e1: "the_info s1 = the_info s" "own_content K s1 = own_content K s" "outputs s1 = outputs s" "own_have s1 = own_have s"
    "\<not> has_request (conns s1 c)" "has_request (conns s1 d) \<Longrightarrow> has_request (conns s d)" for d
    using f1 by (simp_all add: same_net_def same_store_def own_content_def request_stop_env request_stop_conns s1_def split: if_splits)
  have wf1: "torrent_wf (the_info s1)" and v1: "nanotorrent_piece_is_valid i s1"
    using fits(6) v e1(1) by (simp_all add: valid_iff)
  from piece_verify_outcome [OF k wf1 assms(4), of i] obtain ctx f where
    vf: "nanotorrent_piece_verify K context i s1 = Some (True, ctx, s1\<lparr>files := f\<rparr>)" "cfs_content K f = cfs_content K (files s1)"
    using v1 match e1(1,2) assms(2) by auto
  define s2 where "s2 = nanotorrent_piece_set_complete (int_bits K) i True (s1\<lparr>files := f\<rparr>)"
  obtain h where s2: "s2 = s1\<lparr>files := f, own_have := h\<rparr>"
    unfolding s2_def using set_complete_frame by blast
  have h2: "bits (own_have s2) = insert (unat i) (bits (own_have s))"
    using set_complete_have [of "int_bits K" "s1\<lparr>files := f\<rparr>" i True] fits(7) v1 e1(1,4) by (simp add: s2_def)
  have oc: "own_content K s2 = own_content K s"
    using vf(2) e1(2) by (simp add: s2 own_content_def)
  have n2: "net_inv K s2" "pending_ok s2" "unat i < unat (num_pieces (the_info s2))"
    using n same_net_inv [OF f1(1), of K] request_stop_pending' [OF fits(1) n(2) l(3)] assms(7) e1(1)
    by (simp_all add: s2 s1_def)
  define s3 where "s3 = nanotorrent_peer_request_stop_all K i s2"
  note f3 = stop_all_outcome [OF net_inv_fits(1) [OF n2(1)] n2(2,3), folded s3_def]
  define t3 where "t3 = s3\<lparr>heartbeat_delay := heartbeat_delay s3 div 2,
    heartbeat := etimer_adjust K (minus_delay K (heartbeat_delay s3 div 2)) (heartbeat s3)\<rparr>"
  define s4 where "s4 = nanotorrent_peer_post_event t3"
  define s5 where "s5 = (if nanotorrent_piece_is_seed (int_bits K) s4 then nanotorrent_peer_post_seeding K s4 else s4)"
  have e: "nanotorrent_peer_receive_data K context c i st len s = Some s5"
    using more vf(1) by (simp add: nanotorrent_peer_receive_data_def Let_def s5_def s4_def t3_def s3_def s2_def flip: s1_def)
  have f4: "same_net s3 s4" "same_store s3 s4" "conns s4 = conns s3"
    by (simp_all add: s4_def t3_def nanotorrent_peer_post_event_def same_net_def same_store_def)
  have f5: "same_net s3 s5" "same_store s3 s5" "conns s5 = conns s3"
    using f4 same_net_trans [OF f4(1) post_seeding_frames(1)] same_store_trans [OF f4(2) post_seeding_frames(2)]
    by (simp_all add: s5_def post_seeding_frames(4))
  have g2: "peers s2 = peers s" "desc s2 = desc s" "info_hash s2 = info_hash s" "conn_peer_info (conns s2 c) = conn_peer_info (conns s c)"
    "conn_have (conns s2 c) = conn_have (conns s c)" "outputs s2 = outputs s"
    using f1 e1(3) by (simp_all add: s2 same_net_def same_store_def)
  have g: "peers s5 = peers s" "desc s5 = desc s" "info_hash s5 = info_hash s" "conn_peer_info (conns s5 c) = conn_peer_info (conns s c)"
    "conn_have (conns s5 c) = conn_have (conns s c)" "own_have s5 = own_have s2" "own_content K s5 = own_content K s2"
    using same_net_trans [OF f3(1) f5(1)] same_store_trans [OF f3(2) f5(2)] g2 by (simp_all add: same_net_def same_store_def own_content_def)
  have rq: "has_request (conns s5 d) \<Longrightarrow> has_request (conns s1 d)" for d
    using stop_all_quiet(2) [of K i s2 d] f5(3) by (simp add: s2 s3_def)
  have quiet: "\<exists>acts. outputs s5 = outputs s @ acts \<and> datagrams acts = []"
  proof -
    have "outputs t3 = outputs s"
      using stop_all_quiet(1) [of K i s2] g2(6) by (simp add: s3_def t3_def)
    then obtain xs where xs: "outputs s4 = outputs s @ xs" "datagrams xs = []"
      using post_quiet(1) [of t3] by (auto simp: s4_def)
    obtain ys where "outputs (nanotorrent_peer_post_seeding K s4) = outputs s4 @ ys" "datagrams ys = []"
      using post_quiet(2) by blast
    with xs show ?thesis
      unfolding s5_def by (intro exI [of _ "if nanotorrent_piece_is_seed (int_bits K) s4 then xs @ ys else xs"]) simp
  qed
  have "peer_inv K s5 \<and> armed s5"
    using receive_data_outcome [OF assms(1) l(1) armed_others [OF l(2)] assms(4) l(3) assms(5,6) v assms(8), of st len] e by auto
  moreover have "\<forall>d \<in> set (peers s5). has_request (conns s5 d) \<longrightarrow> d = c"
    using l(5) e1(6) [OF rq] unfolding g(1) by simp
  moreover have "\<forall>j \<in> bits (own_have s5). prefix_there (the_info s5) j (piece_len (the_info s5) j) content (own_content K s5)"
    using assms(3,10) unfolding g(2,6,7) h2 oc leeching_def by blast
  ultimately have "leeching K b c content s5"
    using assms(3) g(1-5) by (simp add: leeching_def)
  moreover have "\<not> has_request (conns s5 c)" "bits (own_have s5) = insert (unat i) (bits (own_have s))"
    using rq e1(5) h2 g(6) by auto
  ultimately show ?thesis
    using e g(2,3,5) quiet by blast
qed

text \<open>The block is written behind the bytes that are there: at least one byte more of the piece is on the store.\<close>

lemma block_nth:
  assumes "block_of ti i st content bs" "k < length bs" "piece_off ti i + piece_len ti i \<le> length content"
  shows "bs ! k = content ! (piece_off ti i + st + k)"
proof -
  have b: "st + length bs \<le> piece_len ti i" "bs = take (length bs) (drop (piece_off ti i + st) content)"
    using assms(1) by (simp_all add: block_of_def)
  have "bs ! k = take (length bs) (drop (piece_off ti i + st) content) ! k"
    using b(2) by (rule arg_cong [where f = "\<lambda>xs. xs ! k"])
  also have "\<dots> = content ! (piece_off ti i + st + k)"
    using assms(2,3) b(1) by simp
  finally show ?thesis .
qed

lemma block_stored:
  assumes "sound_kernel K" "peer_inv K s" "unat i < unat (num_pieces (the_info s))"
    and "piece_len (the_info s) (unat i) \<le> 256" "prefix_there (the_info s) (unat i) (unat st) content (own_content K s)"
    and "block_of (the_info s) (unat i) (unat st) content bs" "unat (file_size (the_info s)) \<le> length content"
    and "unat len = length bs"
  shows "\<exists>w f. nanotorrent_piece_write K i (ucast (st :: u16)) (bs @ behind) len s = Some (w, s\<lparr>files := f\<rparr>) \<and>
    0 < w \<and> nat w \<le> length bs \<and> writes_piece (the_info s) (unat i) (own_content K s) (cfs_content K f (own_file s)) \<and>
    prefix_there (the_info s) (unat i) (unat st + nat w) content (cfs_content K f (own_file s))"
proof -
  let ?ti = "the_info s" and ?i = "unat i"
  have k: "cfs_ok K" "cfs_reliable K" "cfs_writes_some K"
    using assms(1) by (simp_all add: sound_kernel_def kernel_ok_def)
  have "net_inv K s"
    using assms(2) by (simp add: peer_inv_def)
  note fits = net_inv_fits [OF this]
  have v: "nanotorrent_piece_is_valid i s"
    using assms(3) by (simp add: valid_iff)
  have b: "bs \<noteq> []" "unat st + length bs \<le> piece_len ?ti ?i"
    using assms(6) by (simp_all add: block_of_def)
  then have st: "unat st < piece_len ?ti ?i" "unat st mod 256 = unat st"
    using assms(4) by (cases bs; simp)+
  then have low: "unat (ucast st :: u8) = unat st"
    by (simp add: unsigned_ucast_eq take_bit_eq_mod)
  have "min (unat len) (piece_len ?ti ?i) \<le> length (bs @ behind)"
    using assms(8) by simp
  from piece_write_outcome [OF k(1) fits(6) this, of "ucast st"] obtain w f where
    w: "nanotorrent_piece_write K i (ucast st) (bs @ behind) len s = Some (w, s\<lparr>files := f\<rparr>)"
      "writes_piece ?ti ?i (own_content K s) (cfs_content K f (own_file s))"
    and kept: "\<forall>j < length (own_content K s). j < piece_off ?ti ?i + unat (ucast st :: u8) \<or>
          piece_off ?ti ?i + unat (ucast st :: u8) + nat w \<le> j \<longrightarrow> cfs_content K f (own_file s) ! j = own_content K s ! j"
    and r: "0 \<le> w \<longrightarrow> nat w \<le> unat len \<and>
       (\<forall>k < nat w. cfs_content K f (own_file s) ! (piece_off ?ti ?i + unat (ucast st :: u8) + k) = (bs @ behind) ! k) \<and>
       (0 < w \<longrightarrow> piece_off ?ti ?i + unat (ucast st :: u8) + nat w \<le> length (cfs_content K f (own_file s)))"
    by blast
  have pos: "0 < w"
    using piece_write_some [OF k(2,3) fits(6) v _ _ _ w(1)] st(1) low assms(8) b(1) by simp
  then have n: "nat w \<le> length bs"
    using r assms(8) by simp
  have inside: "piece_off ?ti ?i + piece_len ?ti ?i \<le> length content"
    using piece_in_file [OF fits(6) assms(3)] assms(7) by simp
  let ?new = "cfs_content K f (own_file s)"
  have "piece_off ?ti ?i + k < length ?new \<and> ?new ! (piece_off ?ti ?i + k) = content ! (piece_off ?ti ?i + k)"
    if "k < unat st + nat w" for k
  proof (cases "k < unat st")
    case True
    then have "piece_off ?ti ?i + k < length (own_content K s)" "own_content K s ! (piece_off ?ti ?i + k) = content ! (piece_off ?ti ?i + k)"
      using assms(5) by (simp_all add: prefix_there_def)
    then show ?thesis
      using True kept low w(2) by (simp add: writes_piece_def)
  next
    case False
    define m where "m = k - unat st"
    have m: "k = unat st + m" "m < nat w"
      using that False by (simp_all add: m_def)
    have "?new ! (piece_off ?ti ?i + unat st + m) = bs ! m"
      using r pos low n m(2) by (simp add: nth_append)
    moreover have "bs ! m = content ! (piece_off ?ti ?i + unat st + m)"
      using block_nth [OF assms(6) _ inside] m(2) n by simp
    moreover have "piece_off ?ti ?i + unat st + nat w \<le> length ?new"
      using r pos low by simp
    ultimately show ?thesis
      using m(2) unfolding m(1) by (simp add: add.assoc)
  qed
  then have "prefix_there ?ti ?i (unat st + nat w) content ?new"
    by (simp add: prefix_there_def)
  then show ?thesis
    using w pos n by blast
qed

lemma leecher_receiver:
  assumes "leeching K b c content s" "awaiting K c content i st s" "unat st + unat len < 2 ^ 16" "0 < unat len"
  shows "nanotorrent_peer_data_receiver K \<lparr>peer_ip = b\<rparr> i st len s = Some (Some c, s)"
proof -
  have w: "has_request (conns s c)" "request_index (conns s c) = i" "request_offset (conns s c) = st" "unat i \<notin> bits (own_have s)"
    using assms(2) by (simp_all add: awaiting_def)
  have l: "pending_ok s" "c \<in> set (peers s)" "\<forall>d \<in> set (peers s). has_request (conns s d) \<longrightarrow> d = c"
    using assms(1) by (simp_all add: leeching_def peer_inv_def)
  have "requesting s c (unat i)"
    using w l(2) by (simp add: requesting_def)
  then have p: "nanotorrent_peer_has_request i s"
    using l(1) by (auto simp: nanotorrent_peer_has_request_def bits_get pending_ok_def)
  from pending_find_request [OF l(1) this] l(3) have "nanotorrent_peer_find_request K \<lparr>peer_ip = b\<rparr> i s = Some c"
    by blast
  moreover have "unat st < u16_sum K st len"
    using assms(3,4) by (simp add: u16_sum_def unat_add_fits)
  ultimately show ?thesis
    using p w(3,4) by (simp add: nanotorrent_peer_data_receiver_def is_complete_iff)
qed

text \<open>A data reply of the seed: the node asks for the next block of the piece, or has the whole piece.\<close>

definition next_block_asked :: "('f, 'm, 't) contiki \<Rightarrow> ip6addr \<Rightarrow> nat \<Rightarrow> u8 list \<Rightarrow> u8 \<Rightarrow> u16 \<Rightarrow>
    ('f, 'm, 't, 'a) peer_state_scheme \<Rightarrow> ('f, 'm, 't, 'a) peer_state_scheme \<Rightarrow> bool" where
  "next_block_asked K b c content i st s s' \<longleftrightarrow> own_have s' = own_have s \<and>
     (\<exists>st'. unat st < unat st' \<and> awaiting K c content i st' s' \<and>
        outputs s' = outputs s @ [UdpSendTo PeerSocket (request_of s' i st') b NANOTORRENT_PEER_PORT])"

definition piece_added :: "nat \<Rightarrow> u8 \<Rightarrow> ('f, 'm, 't, 'a) peer_state_scheme \<Rightarrow> ('f, 'm, 't, 'a) peer_state_scheme \<Rightarrow> bool" where
  "piece_added c i s s' \<longleftrightarrow> bits (own_have s') = insert (unat i) (bits (own_have s)) \<and> \<not> has_request (conns s' c) \<and>
     (\<exists>acts. outputs s' = outputs s @ acts \<and> datagrams acts = [])"

lemma leecher_receives:
  assumes "sound_kernel K" "leeching K b c content s" "awaiting K c content i st s" "length (next_block context) = 64"
    and "piece_len (the_info s) (unat i) \<le> 256" "block_of (the_info s) (unat i) (unat st) content bs"
    and "piece_matches (the_info s) (unat i) content" "unat (file_size (the_info s)) \<le> length content"
    and "header_ok h" "28 + length bs < 2 ^ 16"
  shows "\<exists>s'. nanotorrent_peer_handle_data_reply K context
      (enc_data \<lparr>data_header = h, piece_index = i, data_start = st\<rparr> @ bs @ behind) (of_nat (28 + length bs)) \<lparr>peer_ip = b\<rparr> s = Some s' \<and>
    leeching K b c content s' \<and> desc s' = desc s \<and> info_hash s' = info_hash s \<and>
    (next_block_asked K b c content i st s s' \<or> piece_added c i s s')"
proof -
  let ?ti = "the_info s" and ?i = "unat i"
  have k: "kernel_ok K" "cfs_reliable K"
    using assms(1) by (simp_all add: sound_kernel_def)
  have l: "peer_inv K s" "armed s" "c \<in> set (peers s)" "conn_peer_info (conns s c) = \<lparr>peer_ip = b\<rparr>"
    using assms(2) by (simp_all add: leeching_def)
  have w: "has_request (conns s c)" "request_index (conns s c) = i" "?i < unat (num_pieces ?ti)" "?i \<notin> bits (own_have s)"
    "prefix_there ?ti ?i (unat st) content (own_content K s)"
    using assms(3) by (simp_all add: awaiting_def)
  define q where "q = \<lparr>data_header = h, piece_index = i, data_start = st\<rparr>"
  define mem where "mem = enc_data q @ bs @ behind"
  have "length (enc_data q) = 28"
    using assms(9) by (intro data.size_enc) (simp add: q_def)
  then have m: "28 \<le> length mem" "take 28 mem = enc_data q" "drop 28 mem = bs @ behind"
    by (simp_all add: mem_def)
  have "dec_data (enc_data q) = q"
    using assms(9) by (intro data.dec_enc) (simp add: q_def)
  then have u: "nanotorrent_unpack_peer_data (mem, 0) = Some (q, (mem, 28))"
    using data.parse_Some [of 0 mem] m(1,2) by simp
  define len where "len = (of_nat (28 + length bs) - 28 :: u16)"
  have b: "0 < length bs" "unat st + length bs \<le> piece_len ?ti ?i"
    using assms(6) by (simp_all add: block_of_def)
  have ln: "unat len = length bs"
  proof -
    have "unat (of_nat (28 + length bs) :: u16) = 28 + length bs"
      using assms(10) unfolding unat_of_nat by simp
    moreover from this have "unat len = unat (of_nat (28 + length bs) :: u16) - unat (28 :: u16)"
      unfolding len_def by (intro unat_sub_fits) simp
    ultimately show ?thesis by simp
  qed
  from block_stored [OF assms(1) l(1) w(3) assms(5) w(5) assms(6,8) ln, of behind] obtain r f where
    r: "nanotorrent_piece_write K i (ucast st) (bs @ behind) len s = Some (r, s\<lparr>files := f\<rparr>)" "0 < r" "nat r \<le> length bs"
      "writes_piece ?ti ?i (own_content K s) (cfs_content K f (own_file s))"
      "prefix_there ?ti ?i (unat st + nat r) content (cfs_content K f (own_file s))"
    by blast
  define s1 where "s1 = s\<lparr>files := f\<rparr>"
  have e1: "own_content K s1 = cfs_content K f (own_file s)"
    by (simp add: s1_def own_content_def)
  have "peer_inv K s1"
    unfolding s1_def by (rule write_outcome_have [OF k(1) l(1) w(4) r(1,4)])
  moreover have "\<forall>j \<in> bits (own_have s). prefix_there ?ti j (piece_len ?ti j) content (cfs_content K f (own_file s))"
    using assms(2) w(4) prefix_there_write [OF _ r(4)] unfolding leeching_def by (metis order_refl)
  ultimately have lee: "leeching K b c content s1"
    using assms(2) by (simp add: leeching_def s1_def own_content_def armed_def armed_conn_def)
  have su: "unat (st + of_int r) = unat st + nat r"
  proof -
    have "unat (of_int r :: u16) = nat r"
    proof -
      have "of_int r = (of_nat (nat r) :: u16)"
        using r(2) by simp
      then show ?thesis
        using r(3) assms(10) by (simp add: unat_of_nat)
    qed
    then show ?thesis
      using r(3) b(2) assms(5) by (simp add: unat_add_fits)
  qed
  have e: "nanotorrent_peer_handle_data_reply K context mem (of_nat (28 + length bs)) \<lparr>peer_ip = b\<rparr> s =
      nanotorrent_peer_receive_data K context c i st (of_int r) s1"
  proof -
    have rc: "nanotorrent_peer_data_receiver K \<lparr>peer_ip = b\<rparr> i st len s = Some (Some c, s)"
      using b assms(5) ln by (intro leecher_receiver [OF assms(2,3)]) simp_all
    have "nanotorrent_piece_is_valid i s"
      using w(3) by (simp add: valid_iff)
    moreover have "of_nat (28 + length bs) - of_nat 28 = len" "piece_index q = i" "data_start q = st"
      by (simp_all add: len_def q_def)
    ultimately show ?thesis
      using rc r(1,2) m(3) unfolding nanotorrent_peer_handle_data_reply_def u Let_def by (simp add: s1_def)
  qed
  have s1: "has_request (conns s1 c)" "request_index (conns s1 c) = i" "?i < unat (num_pieces (the_info s1))"
    "?i \<notin> bits (own_have s1)" "the_info s1 = ?ti" "desc s1 = desc s" "info_hash s1 = info_hash s" "own_have s1 = own_have s"
    "outputs s1 = outputs s"
    using w by (simp_all add: s1_def)
  show ?thesis
  proof (cases "unat (st + of_int r) < piece_len ?ti ?i")
    case True
    then have lt: "unat (st + of_int r) < piece_len (the_info s1) ?i"
      and pr: "prefix_there (the_info s1) ?i (unat (st + of_int r)) content (own_content K s1)"
      using r(5) su e1 s1(5) by simp_all
    from receive_continues [OF k(1) lee assms(4) s1(1-4) lt pr] obtain s' where
      s': "nanotorrent_peer_receive_data K context c i st (of_int r) s1 = Some s'" "leeching K b c content s'"
        "awaiting K c content i (st + of_int r) s'" "own_have s' = own_have s1" "desc s' = desc s1" "info_hash s' = info_hash s1"
        "outputs s' = outputs s1 @ [UdpSendTo PeerSocket (request_of s' i (st + of_int r)) b NANOTORRENT_PEER_PORT]"
      by blast
    have "next_block_asked K b c content i st s s'"
      unfolding next_block_asked_def using s'(3,4,7) s1(8,9) su r(2) by (intro conjI exI [of _ "st + of_int r"]) simp_all
    then show ?thesis
      using e s' s1(6,7) unfolding mem_def q_def by auto
  next
    case False
    have "nat r \<le> piece_len ?ti ?i - unat st"
      using r(3) b(2) by simp
    with False have full: "unat st + nat r = piece_len ?ti ?i"
      using su b by simp
    then have ge: "piece_len (the_info s1) ?i \<le> unat (st + of_int r)"
      and pr: "prefix_there (the_info s1) ?i (piece_len (the_info s1) ?i) content (own_content K s1)"
      using r(5) su e1 s1(5) by simp_all
    have mt: "piece_matches (the_info s1) ?i content" "unat (file_size (the_info s1)) \<le> length content"
      using assms(7,8) s1(5) by simp_all
    from receive_completes [OF k lee assms(4) s1(1-4) ge pr mt] obtain s' where
      s': "nanotorrent_peer_receive_data K context c i st (of_int r) s1 = Some s'" "leeching K b c content s'"
        "\<not> has_request (conns s' c)" "bits (own_have s') = insert ?i (bits (own_have s1))" "desc s' = desc s1"
        "info_hash s' = info_hash s1" "\<exists>acts. outputs s' = outputs s1 @ acts \<and> datagrams acts = []"
      by blast
    then have "piece_added c i s s'"
      using s1(8,9) by (simp add: piece_added_def)
    then show ?thesis
      using e s' s1(6,7) unfolding mem_def q_def by auto
  qed
qed

section \<open>Messages of the seed\<close>

text \<open>The bytes of the file that are still to come when the offset of the request is \<open>st\<close>.\<close>

definition bytes_left :: "('f, 'm, 't, 'a) peer_state_scheme \<Rightarrow> nat \<Rightarrow> nat" where
  "bytes_left s st = (\<Sum>j \<in> {..<unat (num_pieces (the_info s))} - bits (own_have s). piece_len (the_info s) j) - st"

definition asks :: "('f, 'm, 't) contiki \<Rightarrow> ip6addr \<Rightarrow> nat \<Rightarrow> u8 list \<Rightarrow> u8 \<Rightarrow> u16 \<Rightarrow>
    ('f, 'm, 't, 'a) peer_state_scheme \<Rightarrow> ('f, 'm, 't, 'a) peer_state_scheme \<Rightarrow> bool" where
  "asks K b c content i st s s' \<longleftrightarrow> awaiting K c content i st s' \<and> datagrams (sent s s') = [(request_of s' i st, b)]"

definition complete_and_quiet :: "('f, 'm, 't, 'a) peer_state_scheme \<Rightarrow> ('f, 'm, 't, 'a) peer_state_scheme \<Rightarrow> bool" where
  "complete_and_quiet s s' \<longleftrightarrow> {..<unat (num_pieces (the_info s'))} \<subseteq> bits (own_have s') \<and> datagrams (sent s s') = []"

lemma bytes_left_awaiting:
  assumes "awaiting K c content i st s"
  shows "piece_len (the_info s) (unat i) \<le> bytes_left s 0" "unat st < bytes_left s 0"
proof -
  have "unat i \<in> {..<unat (num_pieces (the_info s))} - bits (own_have s)"
    using assms by (simp add: awaiting_def)
  then show "piece_len (the_info s) (unat i) \<le> bytes_left s 0"
    unfolding bytes_left_def by (simp add: member_le_sum)
  then show "unat st < bytes_left s 0"
    using assms by (simp add: awaiting_def)
qed

lemma bytes_left_added:
  assumes "awaiting K c content i st s" "bits (own_have s') = insert (unat i) (bits (own_have s))" "desc s' = desc s"
  shows "bytes_left s' 0 + piece_len (the_info s) (unat i) = bytes_left s 0"
proof -
  let ?A = "{..<unat (num_pieces (the_info s))} - bits (own_have s)"
  have "unat i \<in> ?A" "{..<unat (num_pieces (the_info s))} - bits (own_have s') = ?A - {unat i}"
    using assms(1,2) by (auto simp: awaiting_def)
  then show ?thesis
    unfolding bytes_left_def assms(3) by (simp add: sum.remove add.commute)
qed

lemma leecher_updates:
  assumes "leeching K b c content s" "bits have = {..<unat (num_pieces (the_info s))}"
  shows "\<exists>s'. nanotorrent_peer_update_have K c have s = Some s' \<and> leeching K b c content s' \<and>
    bits (conn_have (conns s' c)) = {..<unat (num_pieces (the_info s))} \<and> has_request (conns s' c) = has_request (conns s c) \<and>
    (\<forall>i st. awaiting K c content i st s' = awaiting K c content i st s) \<and> own_have s' = own_have s \<and> desc s' = desc s \<and>
    info_hash s' = info_hash s \<and> outputs s' = outputs s"
proof -
  have l: "peer_inv K s" "armed s" "c \<in> set (peers s)" "bits (conn_have (conns s c)) \<subseteq> {..<unat (num_pieces (the_info s))}"
    using assms(1) by (simp_all add: leeching_def)
  from update_have_inv [OF l(1,3), of "have"] l(2) obtain s' where
    u: "nanotorrent_peer_update_have K c have s = Some s'" "peer_inv K s'" "armed s'" "same_requests s s'" "same_store s s'"
      "conn_have (conns s' c) = conn_have (conns s c) OR have"
    by blast
  note f = update_have_frame [OF u(1)]
  have g: "own_have s' = own_have s" "desc s' = desc s" "own_content K s' = own_content K s"
    "has_request (conns s' d) = has_request (conns s d)" "request_index (conns s' d) = request_index (conns s d)" for d
    using u(4,5) by (simp_all add: same_store_def same_requests_def own_content_def)
  have h: "bits (conn_have (conns s' c)) = {..<unat (num_pieces (the_info s))}"
    using l(4) assms(2) unfolding u(6) by (auto simp: bits_def bit_or_iff)
  have "leeching K b c content s'"
    using assms(1) u(2,3) f(4,6) g h by (simp add: leeching_def)
  moreover have "awaiting K c content i st s' = awaiting K c content i st s" for i st
    by (simp add: awaiting_def g f(3))
  ultimately show ?thesis
    using u(1) h g f(1,2) by blast
qed

text \<open>A HAVE message of the seed makes an idle node ask for a piece.\<close>

lemma leecher_hears:
  assumes "sound_kernel K" "met K b c s0 s" "leeching K b c content s" "\<not> has_request (conns s c)" "length (info_hash s) = 20"
    and "header_ok h" "msg_type h = NANOTORRENT_PEER_HAVE" "msg_info_hash h = info_hash s"
    and "bits (msg_have h) = {..<unat (num_pieces (the_info s))}"
  shows "\<exists>s'. deliver K context behind b (enc_header h, dest) s0 = Some s' \<and> leeching K b c content s' \<and> desc s' = desc s \<and>
    info_hash s' = info_hash s \<and> own_have s' = own_have s \<and> (complete_and_quiet s0 s' \<or> (\<exists>i. asks K b c content i 0 s0 s'))"
proof -
  have k: "kernel_ok K"
    using assms(1) by (simp add: sound_kernel_def)
  have m: "length (info_hash s0) = 20" "info_hash s0 = info_hash s" "outputs s = outputs s0"
    using assms(2,5) by (simp_all add: met_def)
  have len: "length (enc_header h) = 25"
    by (rule header.size_enc [OF assms(6)])
  from leecher_updates [OF assms(3,9)] obtain u where
    u: "nanotorrent_peer_update_have K c (msg_have h) s = Some u" "leeching K b c content u"
      "bits (conn_have (conns u c)) = {..<unat (num_pieces (the_info s))}" "\<not> has_request (conns u c)" "own_have u = own_have s"
      "desc u = desc s" "info_hash u = info_hash s" "outputs u = outputs s"
    using assms(4) by auto
  have "bits (conn_have (conns u c)) = {..<unat (num_pieces (the_info u))}"
    using u(3,6) by simp
  from leecher_proceeds [OF k u(2,4) this] obtain s' where
    s': "map_option snd (nanotorrent_peer_request_next K c u) = Some s'" "leeching K b c content s'" "same_store u s'" "info_hash s' = info_hash u"
      "if {..<unat (num_pieces (the_info u))} \<subseteq> bits (own_have u) then s' = u
       else \<exists>i. awaiting K c content i 0 s' \<and> outputs s' = outputs u @ [UdpSendTo PeerSocket (request_of s' i 0) b NANOTORRENT_PEER_PORT]"
    by blast
  have "deliver K context behind b (enc_header h, dest) s0 = map_option snd (nanotorrent_peer_request_next K c u)"
    using handle_message_eq [OF m(1) _ _ assms(6) _ _ _ assms(2), of "enc_header h @ behind" "context" 25 dest] len assms(7,8) u(1) m(2)
    by (simp add: deliver_def message_types)
  moreover have "complete_and_quiet s0 s' \<or> (\<exists>i. asks K b c content i 0 s0 s')"
    using s'(3,5) u(5,6,8) m(3) by (auto simp: complete_and_quiet_def asks_def sent_def same_store_def split: if_splits)
  ultimately show ?thesis
    using s' u(5-7) by (simp add: same_store_def)
qed

text \<open>A data reply brings the download forward: fewer bytes are left, or the node is complete.\<close>

lemma leecher_served:
  assumes "sound_kernel K" "leeching K b c content s" "awaiting K c content i st s" "length (next_block context) = 64"
    and "piece_len (the_info s) (unat i) \<le> 256" "block_of (the_info s) (unat i) (unat st) content bs"
    and "piece_matches (the_info s) (unat i) content" "unat (file_size (the_info s)) \<le> length content"
    and "header_ok h" "28 + length bs < 2 ^ 16" "msg_type h = NANOTORRENT_PEER_DATA_REPLY" "msg_info_hash h = info_hash s"
    and "bits (msg_have h) = {..<unat (num_pieces (the_info s))}"
  shows "\<exists>s'. deliver K context behind b (enc_data \<lparr>data_header = h, piece_index = i, data_start = st\<rparr> @ bs, dest) s = Some s' \<and>
    leeching K b c content s' \<and> desc s' = desc s \<and> info_hash s' = info_hash s \<and>
    (complete_and_quiet s s' \<or>
     (\<exists>j st'. asks K b c content j st' s s' \<and> bytes_left s' (unat st') < bytes_left s (unat st)))"
proof -
  have k: "kernel_ok K"
    using assms(1) by (simp add: sound_kernel_def)
  have n: "net_inv K s"
    using assms(2) by (simp add: leeching_def peer_inv_def)
  define mem where "mem = enc_data \<lparr>data_header = h, piece_index = i, data_start = st\<rparr> @ bs @ behind"
  have len: "length (enc_data \<lparr>data_header = h, piece_index = i, data_start = st\<rparr>) = 28"
    using assms(9) by (intro data.size_enc) simp
  have m: "25 \<le> length mem" "take 25 mem = enc_header h"
    using len take_header [of "\<lparr>data_header = h, piece_index = i, data_start = st\<rparr>" "bs @ behind"] assms(9)
    by (simp_all add: mem_def)
  from leecher_receives [OF assms(1-10), of behind] obtain t where
    t: "nanotorrent_peer_handle_data_reply K context mem (of_nat (28 + length bs)) \<lparr>peer_ip = b\<rparr> s = Some t"
      "leeching K b c content t" "desc t = desc s" "info_hash t = info_hash s"
      "next_block_asked K b c content i st s t \<or> piece_added c i s t"
    unfolding mem_def by blast
  have mt: "met K b c t t"
    using t(2) by (intro met_known [OF k]) (simp_all add: leeching_def)
  have "bits (msg_have h) = {..<unat (num_pieces (the_info t))}"
    using assms(13) t(3) by simp
  from leecher_updates [OF t(2) this] obtain u where
    u: "nanotorrent_peer_update_have K c (msg_have h) t = Some u" "leeching K b c content u"
      "bits (conn_have (conns u c)) = {..<unat (num_pieces (the_info t))}" "has_request (conns u c) = has_request (conns t c)"
      "\<And>i st. awaiting K c content i st u = awaiting K c content i st t" "own_have u = own_have t"
      "desc u = desc t" "info_hash u = info_hash t" "outputs u = outputs t"
    by blast
  have d: "deliver K context behind b (enc_data \<lparr>data_header = h, piece_index = i, data_start = st\<rparr> @ bs, dest) s =
      map_option snd (nanotorrent_peer_request_next K c u)"
    using handle_message_eq [OF net_inv_fits(2) [OF n] m assms(9,12) _ _ mt, of "context" "of_nat (28 + length bs)" dest]
      t(1) u(1) assms(11) len by (simp add: deliver_def message_types mem_def)
  from t(5) show ?thesis
  proof
    assume "next_block_asked K b c content i st s t"
    then obtain st' where nb: "own_have t = own_have s" "unat st < unat st'" "awaiting K c content i st' t"
      "outputs t = outputs s @ [UdpSendTo PeerSocket (request_of t i st') b NANOTORRENT_PEER_PORT]"
      unfolding next_block_asked_def by blast
    have "has_request (conns u c)"
      using u(4) nb(3) by (simp add: awaiting_def)
    then have "nanotorrent_peer_request_next K c u = Some (False, u)"
      by (simp add: nanotorrent_peer_request_next_def)
    moreover have "request_of u i st' = request_of t i st'"
      using make_header_cong [OF u(8,6)] by (simp add: request_of_def)
    then have "asks K b c content i st' s u"
      using nb(3,4) u(5,9) by (simp add: asks_def sent_def)
    moreover have "bytes_left u (unat st') < bytes_left s (unat st)"
      using bytes_left_awaiting(2) [OF assms(3)] nb(1,2) u(6,7) t(3) by (simp add: bytes_left_def)
    ultimately show ?thesis
      using d u(2,7,8) t(3,4) by auto
  next
    assume "piece_added c i s t"
    then obtain acts where pa: "bits (own_have t) = insert (unat i) (bits (own_have s))" "\<not> has_request (conns t c)"
      "outputs t = outputs s @ acts" "datagrams acts = []"
      unfolding piece_added_def by blast
    have "\<not> has_request (conns u c)" "bits (conn_have (conns u c)) = {..<unat (num_pieces (the_info u))}"
      using u(3,4,7) pa(2) by simp_all
    from leecher_proceeds [OF k u(2) this] obtain s' where
      s': "map_option snd (nanotorrent_peer_request_next K c u) = Some s'" "leeching K b c content s'" "same_store u s'" "info_hash s' = info_hash u"
        "if {..<unat (num_pieces (the_info u))} \<subseteq> bits (own_have u) then s' = u
         else \<exists>i. awaiting K c content i 0 s' \<and> outputs s' = outputs u @ [UdpSendTo PeerSocket (request_of s' i 0) b NANOTORRENT_PEER_PORT]"
      by blast
    have g: "own_have s' = own_have t" "desc s' = desc s" "info_hash s' = info_hash s"
      using s'(3,4) u(6-8) t(3,4) by (simp_all add: same_store_def)
    have left: "bytes_left s' 0 < bytes_left s (unat st)"
    proof -
      have "bytes_left s' 0 + piece_len (the_info s) (unat i) = bytes_left s 0"
        using pa(1) g(1) by (intro bytes_left_added [OF assms(3) _ g(2)]) simp
      moreover have "unat st < piece_len (the_info s) (unat i)"
        using assms(3) by (simp add: awaiting_def)
      ultimately show ?thesis
        by (simp add: bytes_left_def)
    qed
    have "complete_and_quiet s s' \<or> (\<exists>j. asks K b c content j 0 s s')"
      using s'(5) u(6,7,9) pa(3,4) g(1,2) t(3) by (auto simp: complete_and_quiet_def asks_def sent_def split: if_splits)
    then show ?thesis
    proof
      assume "\<exists>j. asks K b c content j 0 s s'"
      then obtain j where "asks K b c content j 0 s s'" by blast
      then show ?thesis
        using d s'(1,2) g(2,3) left
        by (intro exI [of _ s'] conjI disjI2 exI [of _ j] exI [of _ "0 :: u16"]) simp_all
    qed (use d s'(1,2) g(2,3) in auto)
  qed
qed

section \<open>The download\<close>

text \<open>Between two round trips: the node waits for a block of a piece, and a reply with such a block is on the way to it.\<close>

definition same_torrent :: "'a nanotorrent_torrent_state_scheme \<Rightarrow> 'b nanotorrent_torrent_state_scheme \<Rightarrow> bool" where
  "same_torrent s t \<longleftrightarrow> the_info s = the_info t \<and> info_hash s = info_hash t"

definition transferring :: "('f, 'm, 't) contiki \<Rightarrow> ('g, 'n, 'u) contiki \<Rightarrow> ip6addr \<Rightarrow> ip6addr \<Rightarrow> nat \<Rightarrow> nat \<Rightarrow> u8 \<Rightarrow> u16 \<Rightarrow>
    u8 list \<times> ip6addr \<Rightarrow> ('f, 'm, 't, 'a) peer_state_scheme \<Rightarrow> ('g, 'n, 'u, 'b) peer_state_scheme \<Rightarrow> bool" where
  "transferring KA KB a b c d i st p sA sB \<longleftrightarrow> leeching KA b c (own_content KB sB) sA \<and> awaiting KA c (own_content KB sB) i st sA \<and>
     seeding KB a d sB \<and> same_torrent sA sB \<and>
     (\<exists>h bs dest. p = (enc_data \<lparr>data_header = h, piece_index = i, data_start = st\<rparr> @ bs, dest) \<and> header_ok h \<and>
        msg_type h = NANOTORRENT_PEER_DATA_REPLY \<and> msg_info_hash h = info_hash sA \<and>
        bits (msg_have h) = {..<unat (num_pieces (the_info sA))} \<and>
        block_of (the_info sA) (unat i) (unat st) (own_content KB sB) bs \<and> 28 + length bs < 2 ^ 16)"

lemma arrives_sent:
  "datagrams acts = [(bs, ip)] \<Longrightarrow> arrives ip mcast acts = Some (bs, ip)" "datagrams acts = [] \<Longrightarrow> arrives ip mcast acts = None"
  by (simp_all add: arrives_def)

lemma seed_replies:
  assumes "sound_kernel KB" "28 < udp_payload KB" "met KB a d s0 sB" "seeding KB a d sB" "same_torrent s' sB"
    and "leeching KA b c (own_content KB sB) s'" "awaiting KA c (own_content KB sB) i st s'"
    and "unat (piece_size (the_info s')) \<le> 256"
  shows "\<exists>sB' q. deliver KB context behind a (request_of s' i st, b) s0 = Some sB' \<and>
    arrives a (linklocal_allnodes_mcast KB) (sent s0 sB') = Some q \<and> transferring KA KB a b c d i st q s' sB' \<and>
    own_content KB sB' = own_content KB sB"
proof -
  have t: "the_info s' = the_info sB" "info_hash s' = info_hash sB"
    using assms(5) by (simp_all add: same_torrent_def)
  have n: "net_inv KA s'"
    using assms(6) by (simp add: leeching_def peer_inv_def)
  have w: "unat i < unat (num_pieces (the_info sB))" "unat st < piece_len (the_info sB) (unat i)" "piece_len (the_info sB) (unat i) \<le> 256"
    using assms(7,8) t(1) by (simp_all add: awaiting_def piece_len_def)
  from seed_answers [OF assms(1-4) net_inv_fits(2) [OF n] t(2) w] obtain sB' bs dest' where
    r: "deliver KB context behind a (request_of s' i st, b) s0 = Some sB'" "seeding KB a d sB'" "own_content KB sB' = own_content KB sB"
      "desc sB' = desc sB" "info_hash sB' = info_hash sB" "block_of (the_info sB) (unat i) (unat st) (own_content KB sB) bs"
      "28 + length bs < 2 ^ 16" "arrives a (linklocal_allnodes_mcast KB) (sent s0 sB') = Some (reply_of sB i st bs, dest')"
    by blast
  have "bits (own_have sB) = {..<unat (num_pieces (the_info s'))}"
    using assms(4) t(1) by (simp add: seeding_def)
  then have "transferring KA KB a b c d i st (reply_of sB i st bs, dest') s' sB'"
    unfolding transferring_def using assms(6,7) r t net_inv_fits(2) [OF n]
    by (intro conjI exI [of _ "nanotorrent_peer_make_header NANOTORRENT_PEER_DATA_REPLY sB"] exI [of _ bs] exI [of _ dest'])
      (simp_all add: same_torrent_def reply_of_def header_ok_make)
  then show ?thesis
    using r(1,3,8) by blast
qed

lemma download_loop:
  assumes "sound_kernel KA" "sound_kernel KB" "28 < udp_payload KB" "length (next_block context) = 64"
    and "unat (piece_size (the_info sA)) \<le> 256" "transferring KA KB a b c d i st p sA sB" "bytes_left sA (unat st) \<le> n"
  shows "\<exists>sA' sB'. round_trips KA KB context behind a b n (Some p) sA sB = Some (None, sA', sB') \<and>
    leeching KA b c (own_content KB sB) sA' \<and> desc sA' = desc sA \<and> {..<unat (num_pieces (the_info sA))} \<subseteq> bits (own_have sA') \<and>
    own_content KB sB' = own_content KB sB"
  using assms(5-)
proof (induction n arbitrary: p i st sA sB)
  case 0
  then show ?case
    using bytes_left_awaiting(2) [of KA c "own_content KB sB" i st sA] by (simp add: transferring_def bytes_left_def)
next
  case (Suc n)
  have tr: "leeching KA b c (own_content KB sB) sA" "awaiting KA c (own_content KB sB) i st sA" "seeding KB a d sB" "same_torrent sA sB"
    using Suc.prems(2) by (simp_all add: transferring_def)
  from Suc.prems(2) have "\<exists>h bs dest. p = (enc_data \<lparr>data_header = h, piece_index = i, data_start = st\<rparr> @ bs, dest) \<and> header_ok h \<and>
      msg_type h = NANOTORRENT_PEER_DATA_REPLY \<and> msg_info_hash h = info_hash sA \<and> bits (msg_have h) = {..<unat (num_pieces (the_info sA))} \<and>
      block_of (the_info sA) (unat i) (unat st) (own_content KB sB) bs \<and> 28 + length bs < 2 ^ 16"
    by (simp add: transferring_def)
  then obtain h bs dest where p: "p = (enc_data \<lparr>data_header = h, piece_index = i, data_start = st\<rparr> @ bs, dest)" "header_ok h"
    "msg_type h = NANOTORRENT_PEER_DATA_REPLY" "msg_info_hash h = info_hash sA" "bits (msg_have h) = {..<unat (num_pieces (the_info sA))}"
    "block_of (the_info sA) (unat i) (unat st) (own_content KB sB) bs" "28 + length bs < 2 ^ 16"
    by blast
  have s: "piece_len (the_info sA) (unat i) \<le> 256" "piece_matches (the_info sA) (unat i) (own_content KB sB)"
    "unat (file_size (the_info sA)) \<le> length (own_content KB sB)"
    using Suc.prems(1) tr(2-4) by (simp_all add: piece_len_def seeding_def same_torrent_def awaiting_def)
  from leecher_served [OF assms(1) tr(1,2) assms(4) s(1) p(6) s(2,3) p(2,7,3,4,5), of behind dest] obtain s' where
    s': "deliver KA context behind b p sA = Some s'" "leeching KA b c (own_content KB sB) s'" "desc s' = desc sA" "info_hash s' = info_hash sA"
      "complete_and_quiet sA s' \<or> (\<exists>j st'. asks KA b c (own_content KB sB) j st' sA s' \<and> bytes_left s' (unat st') < bytes_left sA (unat st))"
    unfolding p(1) by blast
  from s'(5) show ?case
  proof
    assume "complete_and_quiet sA s'"
    then have "round_trips KA KB context behind a b (Suc n) (Some p) sA sB = Some (None, s', sB)"
      "{..<unat (num_pieces (the_info sA))} \<subseteq> bits (own_have s')"
      using s'(1,3) by (simp_all add: complete_and_quiet_def arrives_sent round_trips_idle)
    then show ?thesis
      using s'(2,3) by blast
  next
    assume "\<exists>j st'. asks KA b c (own_content KB sB) j st' sA s' \<and> bytes_left s' (unat st') < bytes_left sA (unat st)"
    then obtain j st' where j: "awaiting KA c (own_content KB sB) j st' s'" "datagrams (sent sA s') = [(request_of s' j st', b)]"
      "bytes_left s' (unat st') \<le> n"
      using Suc.prems(3) by (auto simp: asks_def)
    have same: "same_torrent s' sB" "unat (piece_size (the_info s')) \<le> 256"
      using tr(4) s'(3,4) Suc.prems(1) by (simp_all add: same_torrent_def)
    have "met KB a d sB sB"
      using tr(3) assms(2) by (intro met_known) (simp_all add: seeding_def sound_kernel_def)
    from seed_replies [OF assms(2,3) this tr(3) same(1) s'(2) j(1) same(2), of "context" behind] obtain sB' q where
      q: "deliver KB context behind a (request_of s' j st', b) sB = Some sB'"
        "arrives a (linklocal_allnodes_mcast KB) (sent sB sB') = Some q" "transferring KA KB a b c d j st' q s' sB'"
        "own_content KB sB' = own_content KB sB"
      by blast
    have "round_trips KA KB context behind a b (Suc n) (Some p) sA sB = round_trips KA KB context behind a b n (Some q) s' sB'"
      using s'(1) j(2) q(1,2) by (simp add: arrives_sent)
    then show ?thesis
      using Suc.IH [OF same(2) q(3) j(3)] s'(3) q(4) by auto
  qed
qed

lemma bytes_left_le:
  assumes "torrent_wf (the_info s)"
  shows "bytes_left s st \<le> unat (file_size (the_info s))"
proof -
  let ?ti = "the_info s" and ?n = "unat (num_pieces (the_info s))"
  have n: "0 < ?n"
    using assms by (simp add: torrent_wf_def)
  then have "(\<Sum>j < ?n. piece_len ?ti j) = unat (file_size ?ti)"
    using pieces_cover [OF assms, of "?n - 1"] last_piece_end [OF assms, of "?n - 1"] by simp
  moreover have "(\<Sum>j \<in> {..<?n} - bits (own_have s). piece_len ?ti j) \<le> (\<Sum>j < ?n. piece_len ?ti j)"
    by (rule sum_mono2) auto
  ultimately show ?thesis
    by (simp add: bytes_left_def)
qed

lemma whole_file:
  assumes "torrent_wf ti" "\<And>j. j < unat (num_pieces ti) \<Longrightarrow> prefix_there ti j (piece_len ti j) content own"
    and "unat (file_size ti) \<le> length content"
  shows "take (unat (file_size ti)) own = take (unat (file_size ti)) content"
proof -
  let ?ps = "unat (piece_size ti)" and ?fs = "unat (file_size ti)"
  have b: "k < length own \<and> own ! k = content ! k" if "k < ?fs" for k
  proof -
    have ps: "0 < ?ps" "?fs \<le> unat (num_pieces ti) * ?ps"
      using assms(1) by (simp_all add: torrent_wf_def)
    define j where "j = k div ?ps"
    have j: "k = piece_off ti j + k mod ?ps"
      by (simp add: j_def piece_off_def)
    have "j < unat (num_pieces ti)"
      using that ps by (simp add: j_def div_less_iff_less_mult)
    moreover have "k mod ?ps < piece_len ti j"
      using that ps(1) j by (auto simp: piece_len_def piece_off_def)
    ultimately show ?thesis
      using assms(2) [of j] j unfolding prefix_there_def by metis
  qed
  have "?fs \<le> length own"
    using b [of "?fs - 1"] by (cases ?fs) auto
  then show ?thesis
    using assms(3) b by (intro nth_equalityI) simp_all
qed

lemma download_from_seed:
  assumes "sound_kernel KA" "sound_kernel KB" "28 < udp_payload KB" "length (next_block context) = 64"
    and "met KA b c s0 sA" "leeching KA b c (own_content KB sB) sA" "\<not> has_request (conns sA c)" "met KB a d t0 sB" "seeding KB a d sB"
    and "same_torrent sA sB" "unat (piece_size (the_info sA)) \<le> 256" "unat (file_size (the_info sA)) < n"
  shows "\<exists>sA' sB'. round_trips KA KB context behind a b n
      (Some (enc_header (nanotorrent_peer_make_header NANOTORRENT_PEER_HAVE sB), dest)) s0 t0 = Some (None, sA', sB') \<and>
    nanotorrent_piece_is_seed (int_bits KA) sA' \<and>
    take (unat (file_size (the_info sA))) (own_content KA sA') = take (unat (file_size (the_info sA))) (own_content KB sB)"
proof -
  let ?C = "own_content KB sB" and ?h = "nanotorrent_peer_make_header NANOTORRENT_PEER_HAVE sB"
  have "net_inv KA sA"
    using assms(6) by (simp add: leeching_def peer_inv_def)
  note fits = net_inv_fits [OF this]
  have t: "the_info sA = the_info sB" "info_hash sA = info_hash sB"
    using assms(10) by (simp_all add: same_torrent_def)
  have long: "unat (file_size (the_info sA)) \<le> length ?C"
    using assms(9) t(1) by (simp add: seeding_def)
  obtain m where m: "n = Suc m" "unat (file_size (the_info sA)) \<le> m"
    using assms(12) by (cases n) simp_all
  have h: "header_ok ?h" "msg_type ?h = NANOTORRENT_PEER_HAVE" "msg_info_hash ?h = info_hash sA"
    "bits (msg_have ?h) = {..<unat (num_pieces (the_info sA))}"
    using fits(2) t assms(9) by (simp_all add: header_ok_make seeding_def)
  from leecher_hears [OF assms(1,5-7) fits(2) h, of "context" behind dest] obtain s' where
    s': "deliver KA context behind b (enc_header ?h, dest) s0 = Some s'" "leeching KA b c ?C s'" "desc s' = desc sA"
      "info_hash s' = info_hash sA" "own_have s' = own_have sA" "complete_and_quiet s0 s' \<or> (\<exists>i. asks KA b c ?C i 0 s0 s')"
    by blast
  have "\<exists>sA' sB'. round_trips KA KB context behind a b n (Some (enc_header ?h, dest)) s0 t0 = Some (None, sA', sB') \<and>
    leeching KA b c ?C sA' \<and> desc sA' = desc sA \<and> {..<unat (num_pieces (the_info sA))} \<subseteq> bits (own_have sA')"
    using s'(6)
  proof
    assume "complete_and_quiet s0 s'"
    then show ?thesis
      using s'(1-3) m(1) by (simp add: complete_and_quiet_def arrives_sent round_trips_idle)
  next
    assume "\<exists>i. asks KA b c ?C i 0 s0 s'"
    then obtain i where i: "awaiting KA c ?C i 0 s'" "datagrams (sent s0 s') = [(request_of s' i 0, b)]"
      by (auto simp: asks_def)
    have same: "same_torrent s' sB" "unat (piece_size (the_info s')) \<le> 256"
      using assms(10,11) s'(3,4) by (simp_all add: same_torrent_def)
    from seed_replies [OF assms(2,3,8,9) same(1) s'(2) i(1) same(2), of "context" behind] obtain sB' q where
      q: "deliver KB context behind a (request_of s' i 0, b) t0 = Some sB'"
        "arrives a (linklocal_allnodes_mcast KB) (sent t0 sB') = Some q" "transferring KA KB a b c d i 0 q s' sB'"
        "own_content KB sB' = ?C"
      by blast
    have "bytes_left s' (unat (0 :: u16)) \<le> m"
      using bytes_left_le [of s' 0] fits(6) m(2) s'(3) by simp
    from download_loop [OF assms(1-4) same(2) q(3) this, of behind] show ?thesis
      using s'(1,3) i(2) q(1,2,4) m(1) by (simp add: arrives_sent) blast
  qed
  then obtain sA' sB' where f: "round_trips KA KB context behind a b n (Some (enc_header ?h, dest)) s0 t0 = Some (None, sA', sB')"
    "leeching KA b c ?C sA'" "desc sA' = desc sA" "{..<unat (num_pieces (the_info sA))} \<subseteq> bits (own_have sA')"
    by blast
  have "nanotorrent_piece_is_seed (int_bits KA) sA'"
    using is_seed_iff [of KA sA'] fits(7) f(3,4) by simp
  moreover have "take (unat (file_size (the_info sA))) (own_content KA sA') = take (unat (file_size (the_info sA))) ?C"
    using f(2-4) long by (intro whole_file [OF fits(6)]) (auto simp: leeching_def)
  ultimately show ?thesis
    using f(1) by blast
qed

lemma bytes_prefix_there:
  assumes "piece_bytes ti i own = piece_bytes ti i content" "piece_off ti i + piece_len ti i \<le> length content"
  shows "prefix_there ti i (piece_len ti i) content own"
proof -
  have "length (piece_bytes ti i own) = piece_len ti i"
    using assms by (simp add: piece_bytes_def)
  then have l: "k < piece_len ti i \<Longrightarrow> piece_off ti i + k < length own" for k
    by (simp add: piece_bytes_def)
  have "own ! (piece_off ti i + k) = content ! (piece_off ti i + k)" if "k < piece_len ti i" for k
    using arg_cong [OF assms(1), of "\<lambda>bs. bs ! k"] assms(2) l [OF that] that by (simp add: piece_bytes_def)
  then show ?thesis
    using l by (simp add: prefix_there_def)
qed

text \<open>
  C3: a node that hears a seed downloads the file, when its pieces have at most 256 bytes. The file systems do not fail. Both nodes run the peer process, were started with the same torrent and have got
  where they are by any sequence of steps after which they have no connection; the seed \<open>B\<close> has the whole file,
  and what \<open>A\<close> has are pieces of it. (The code never changes the end of a larger piece, see \<open>large_piece_tail_kept\<close>.) When the HAVE message of the seed reaches \<open>A\<close>, each delivers the other's
  datagrams, and the exchange comes to its end in at most as many round trips as the file has bytes, and one: no handler fails, nothing
  is on the way any more, and \<open>A\<close> is a seed whose file has the bytes of the file of \<open>B\<close>.
\<close>

theorem download_completes:
  assumes "sound_kernel KA" "sound_kernel KB" "28 < udp_payload KB" "length (next_block context) = 64"
    and A: "reach (peer_started KA a0) (peer_step KA) sA" "peers sA = []"
    and B: "reach (peer_started KB b0) (peer_step KB) sB" "peers sB = []"
    and "same_torrent sA sB" "nanotorrent_piece_is_seed (int_bits KB) sB" "unat (file_size (the_info sB)) \<le> length (own_content KB sB)"
    and "\<forall>j < unat (num_pieces (the_info sB)). piece_matches (the_info sB) j (own_content KB sB)"
    and "\<forall>j \<in> bits (own_have sA). piece_bytes (the_info sA) j (own_content KA sA) = piece_bytes (the_info sA) j (own_content KB sB)"
    and "unat (piece_size (the_info sA)) \<le> 256" "unat (file_size (the_info sA)) < n"
  shows "\<exists>sA' sB'. round_trips KA KB context behind a b n
      (Some (enc_header (nanotorrent_peer_make_header NANOTORRENT_PEER_HAVE sB), dest)) sA sB = Some (None, sA', sB') \<and>
    nanotorrent_piece_is_seed (int_bits KA) sA' \<and>
    take (unat (file_size (the_info sA))) (own_content KA sA') = take (unat (file_size (the_info sA))) (own_content KB sB)"
proof -
  have k: "kernel_ok KA" "kernel_ok KB"
    using assms(1,2) by (simp_all add: sound_kernel_def)
  note iA = peer_reach_inv [OF assms(1) A(1)] and iB = peer_reach_inv [OF assms(2) B(1)]
  have "net_inv KB sB"
    using iB(1) by (simp add: peer_inv_def)
  note fB = net_inv_fits [OF this]
  have t: "the_info sA = the_info sB"
    using assms(9) by (simp add: same_torrent_def)
  from met_first [OF k(1) iA A(2), of b] obtain c tA where
    mA: "met KA b c sA tA" "peer_inv KA tA" "armed tA" "peers tA = [c]" "conn_peer_info (conns tA c) = \<lparr>peer_ip = b\<rparr>"
      "conn_have (conns tA c) = 0" "\<not> has_request (conns tA c)"
    by blast
  from met_first [OF k(2) iB B(2), of a] obtain d tB where
    mB: "met KB a d sB tB" "peer_inv KB tB" "peers tB = [d]" "conn_peer_info (conns tB d) = \<lparr>peer_ip = a\<rparr>"
    by blast
  have eA: "own_have tA = own_have sA" "the_info tA = the_info sA" "own_content KA tA = own_content KA sA" "info_hash tA = info_hash sA"
    using mA(1) by (simp_all add: met_def same_store_def own_content_def)
  have eB: "own_have tB = own_have sB" "the_info tB = the_info sB" "own_content KB tB = own_content KB sB" "info_hash tB = info_hash sB"
    using mB(1) by (simp_all add: met_def same_store_def own_content_def)
  have h: "bits (own_have sA) \<subseteq> {..<unat (num_pieces (the_info sB))}" "bits (own_have sB) = {..<unat (num_pieces (the_info sB))}"
    using iA(1) iB(1) assms(10) is_seed_iff [of KB sB] fB(7) t by (auto simp: peer_inv_def have_ok_def)
  have "prefix_there (the_info sA) j (piece_len (the_info sA) j) (own_content KB sB) (own_content KA sA)" if "j \<in> bits (own_have sA)" for j
  proof (rule bytes_prefix_there)
    show "piece_off (the_info sA) j + piece_len (the_info sA) j \<le> length (own_content KB sB)"
      using assms(11) piece_in_file [OF fB(6), of j] h(1) that t by auto
  qed (use assms(13) that in simp)
  then have lA: "leeching KA b c (own_content KB tB) tA"
    using mA eA eB(3) by (simp add: leeching_def)
  have sB: "seeding KB a d tB"
    using mB h(2) assms(11,12) eB by (simp add: seeding_def)
  have "same_torrent tA tB"
    using assms(9) eA(2,4) eB(2,4) by (simp add: same_torrent_def)
  from download_from_seed [OF assms(1-4) mA(1) lA mA(7) mB(1) sB this, of n behind dest] show ?thesis
    using assms(14,15) eA eB make_header_cong [OF eB(4,1)] by simp
qed

text \<open>
  The two nodes of the witness: 700 bytes in pieces of 256, 256 and 188, a node that has them all and one with an empty file. Both have
  just been started.
\<close>

lemma started_frame:
  assumes "peer_started K s0 s"
  shows "peers s = [] \<and> info_hash s = info_hash s0"
proof -
  define t where "t = (nanotorrent_peer_init K s0)\<lparr>heartbeat := etimer_set K (now s0) 0 (heartbeat (nanotorrent_peer_init K s0))\<rparr>"
  have "length (info_hash t) = 20" "peers t = []" "info_hash t = info_hash s0"
    using assms by (simp_all add: t_def peer_started_def fresh_def torrent_fits_def)
  moreover have "peer_process_round K t = Some s"
    using assms by (simp add: peer_started_def nanotorrent_peer_process_def Let_def t_def)
  ultimately show ?thesis
    using send_have_multicast_eq [of t K]
    by (auto simp: peer_process_round_def nanotorrent_peer_post_seeding_def Let_def split: if_splits)
qed

definition movie_torrent :: nanotorrent_torrent_info where
  "movie_torrent = demo_info\<lparr>piece_hashes := (replicate 32 (replicate 20 0x11))
     [0 := sha1_spec (replicate 256 7), 1 := sha1_spec (replicate 256 7), 2 := sha1_spec (replicate 188 7)]\<rparr>"

definition movie_node :: "u32 \<Rightarrow> u8 list \<Rightarrow> (sim_file, sim_memb, sim_timer) peer_state" where
  "movie_node have content = demo_start\<lparr>desc := \<lparr>tracker_ip = replicate 16 0, tracker_port = 1, desc_info = movie_torrent\<rparr>,
     own_have := have, files := (content, 0)\<rparr>"

lemma movie_torrent_simps [simp]:
  "num_pieces movie_torrent = 3" "piece_size movie_torrent = 256" "file_size movie_torrent = 700"
  by (simp_all add: movie_torrent_def) (simp_all add: demo_info_def)

lemma movie_torrent_wf: "torrent_wf movie_torrent"
proof -
  have "hash_array (piece_hashes movie_torrent)"
    by (auto simp: movie_torrent_def hash_array_def NANOTORRENT_MAX_PIECES_def dest!: subsetD [OF set_update_subset_insert])
  then show ?thesis
    by (simp add: torrent_wf_def info_ok_def NANOTORRENT_MAX_PIECES_def)
qed

lemma movie_pieces:
  assumes "j < 3"
  shows "piece_matches movie_torrent j (replicate 700 7)"
proof -
  have "j = 0 \<or> j = 1 \<or> j = 2"
    using assms by auto
  then show ?thesis
    by (elim disjE) (simp_all add: piece_matches_def piece_bytes_def piece_len_def piece_off_def movie_torrent_def demo_info_def)
qed

lemma movie_bits: "bits 7 = {..<3}"
  by (auto simp: bits_7)

lemma movie_fresh:
  assumes "\<forall>j \<in> bits have. j < 3 \<and> piece_matches movie_torrent j content"
  shows "fresh sim_contiki (movie_node have content)"
proof -
  have "torrent_fits sim_contiki (movie_node have content)"
    using movie_torrent_wf by (simp add: movie_node_def torrent_fits_def pieces_fit_def sim_simps)
  moreover have "have_ok sim_contiki (movie_node have content)"
    using assms by (auto simp: have_ok_def movie_node_def own_content_def sim_simps intro: matches_verified)
  ultimately show ?thesis
    using demo_fresh by (simp add: fresh_def movie_node_def)
qed

lemma movie_started:
  assumes "\<forall>j \<in> bits have. j < 3 \<and> piece_matches movie_torrent j content"
  shows "\<exists>s. reach (peer_started sim_contiki (movie_node have content)) (peer_step sim_contiki) s \<and> peers s = [] \<and>
    info_hash s = replicate 20 1 \<and> the_info s = movie_torrent \<and> own_have s = have \<and> own_content sim_contiki s = content"
proof -
  let ?s0 = "movie_node have content"
  have "\<exists>s. peer_started sim_contiki ?s0 s \<and> same_store ?s0 s"
    using peer_process_outcome [of sim_contiki PROCESS_EVENT_INIT ?s0] movie_fresh [OF assms] sim_sound
    by (auto simp: peer_started_def sound_kernel_def)
  then obtain s where s: "peer_started sim_contiki ?s0 s" "same_store ?s0 s"
    by blast
  then show ?thesis
    using started_frame [OF s(1)] reach_start [of "peer_started sim_contiki ?s0" s] s
    by (intro exI [of _ s]) (simp add: same_store_def own_content_def sim_simps movie_node_def)
qed

theorem download_completes_witness:
  "\<exists>(sA :: (sim_file, sim_memb, sim_timer) peer_state) (sB :: (sim_file, sim_memb, sim_timer) peer_state) sA' sB'.
    own_content sim_contiki sA = [] \<and> own_content sim_contiki sB = replicate 700 7 \<and>
    round_trips sim_contiki sim_contiki used_context [] (replicate 15 0 @ [5]) (replicate 15 0 @ [6]) 701
      (Some (enc_header (nanotorrent_peer_make_header NANOTORRENT_PEER_HAVE sB), replicate 15 0 @ [5])) sA sB = Some (None, sA', sB') \<and>
    nanotorrent_piece_is_seed 32 sA' \<and> take 700 (own_content sim_contiki sA') = replicate 700 7"
proof -
  from movie_started [of 0 "[]"] obtain sA where
    A: "reach (peer_started sim_contiki (movie_node 0 [])) (peer_step sim_contiki) sA" "peers sA = []" "info_hash sA = replicate 20 1"
      "the_info sA = movie_torrent" "own_have sA = 0" "own_content sim_contiki sA = []"
    by auto
  have "\<forall>j \<in> bits 7. j < 3 \<and> piece_matches movie_torrent j (replicate 700 7)"
    using movie_pieces by (simp add: movie_bits)
  from movie_started [OF this] obtain sB where
    B: "reach (peer_started sim_contiki (movie_node 7 (replicate 700 7))) (peer_step sim_contiki) sB" "peers sB = []"
      "info_hash sB = replicate 20 1" "the_info sB = movie_torrent" "own_have sB = 7" "own_content sim_contiki sB = replicate 700 7"
    by auto
  have fits: "pieces_fit (int_bits sim_contiki) (the_info sB)"
    using movie_torrent_wf by (simp add: B pieces_fit_def sim_simps)
  have "same_torrent sA sB" "nanotorrent_piece_is_seed (int_bits sim_contiki) sB" "28 < udp_payload sim_contiki"
    using A B is_seed_iff [OF fits] by (simp_all add: same_torrent_def sim_simps movie_bits)
  from download_completes [OF sim_sound sim_sound this(3) _ A(1,2) B(1,2) this(1,2), of used_context 701 "[]"
      "replicate 15 0 @ [5]" "replicate 15 0 @ [6]" "replicate 15 0 @ [5]"]
  show ?thesis
    using A(4-6) B(4-6) movie_pieces by (simp add: sim_simps) blast
qed

end
