(* ===== verification/Spec2Isabelle.thy ===== *)
theory Spec2Isabelle
  imports Demo Download
begin

text \<open>
  NanoTorrent, a BitTorrent-like file distribution for small devices, written in C for the Contiki operating system.
  This development models the peer program under \<^verbatim>\<open>src/peer\<close>.

  \<^bold>\<open>The program.\<close> A torrent is a file cut into at most 32 pieces, described by a descriptor with the SHA-1 digest of every
  piece and the address of a tracker. Three processes share one state. The main process (\<^verbatim>\<open>nanotorrent.c\<close>) opens the file,
  verifies its pieces, starts the two others and connects with the peers the tracker names. The swarm process
  (\<^verbatim>\<open>swarm.c\<close>) announces the peer to the tracker and keeps the list of known peers. The peer process (\<^verbatim>\<open>peer.c\<close>) keeps
  the connections, selects the pieces to request (\<^verbatim>\<open>piece-select.c\<close>), retries (\<^verbatim>\<open>retry.c\<close>) and answers messages; received data
  goes to the piece store (\<^verbatim>\<open>piece.c\<close>), which marks a piece complete once its digest is right. The processes tell each
  other by posted events. Two command line programs make and print descriptors (\<^verbatim>\<open>nanogen.c\<close>, \<^verbatim>\<open>nanoread.c\<close>); the demonstration
  (\<^verbatim>\<open>demo.c\<close>) starts the peer with a descriptor that is compiled into it (\<^verbatim>\<open>fs.c\<close>).

  \<^bold>\<open>Conventions.\<close> C integers are words of their width; where the result depends on the width of \<^verbatim>\<open>int\<close> it is the parameter
  \<open>int_bits\<close>. A struct is a record; the static variables of a file are fields of one state record that the files extend one after
  the other (\<open>env\<close>, \<open>nanotorrent_torrent_state\<close>, \<open>piece_state\<close>, \<open>select_state\<close>, \<open>peer_state\<close>, \<open>nanotorrent_swarm\<close>, \<open>nanotorrent\<close>), so
  a function of an early file applies unchanged to the state of the whole program. A pointer to a connection is a number, a
  buffer is a byte list with a position. \<open>None\<close> is an execution without a defined result: a null pointer dereference, an access
  outside an array, a loop that does not end. Everything sent, posted, started or stopped is appended to
  \<open>outputs\<close>. A protothread is a function from the event and the place where it waits to its next wait.

  \<^bold>\<open>Theories.\<close>
  \<^item> \<open>Prelude\<close>: integer types, word and list facts, reachable states and the locale \<open>component\<close> with the invariant rule.
  \<^item> \<open>Digits\<close>, \<open>Bitset\<close>: \<^verbatim>\<open>bitset.h\<close>, \<^verbatim>\<open>bitset.c\<close>; the vectors as finite sets, the population count as cardinality.
  \<^item> \<open>Sha1_Spec\<close>: the hash standard. \<open>Sha1_Avr\<close>: \<^verbatim>\<open>crypto/avr/sha1.c\<close>, \<open>Sha1_Ref\<close>: \<^verbatim>\<open>crypto/ref/sha1.c\<close>, with the wrappers; both
    refine the standard through one locale of streaming hashes. \<open>Crypto\<close>: \<^verbatim>\<open>crypto.c\<close> and the agreement of the two.
  \<^item> \<open>Pack\<close>: \<^verbatim>\<open>pack/*.c\<close>, every message and the descriptor; a locale of codecs gives round trips and the behaviour at the end of a buffer.
  \<^item> \<open>Contiki\<close>: what the program uses of the operating system, as the record \<open>contiki\<close> with its documented behaviour as predicates
    (\<open>list_ok\<close>, \<open>memb_ok\<close>, \<open>etimer_ok\<close>, \<open>cfs_ok\<close>, \<open>net_ok\<close>), and \<open>sim_contiki\<close>, a concrete system that satisfies them.
  \<^item> \<open>Piece\<close>: \<^verbatim>\<open>piece.c\<close>. \<open>Torrent\<close>: \<^verbatim>\<open>torrent.c\<close>. \<open>Retry\<close>: \<^verbatim>\<open>retry.c\<close>. \<open>Select\<close>: \<^verbatim>\<open>piece-select.c\<close> and the state of \<^verbatim>\<open>peer.c\<close>.
  \<^item> \<open>Peer\<close>, \<open>Messages\<close>: \<^verbatim>\<open>peer.c\<close>. \<open>Peer_Inv\<close>, \<open>Exchange\<close>: its invariant and the outcome of every function under it.
    \<open>Peer_Props\<close>: its properties. \<open>Peer_Frame\<close>: its functions leave the other components' state alone.
    \<open>Download\<close>: two nodes that exchange datagrams, each in a state of this component, and the download of a file from a seed.
  \<^item> \<open>Swarm\<close>: \<^verbatim>\<open>swarm.c\<close>. \<open>Swarm_Inv\<close>: its invariant and outcomes. \<open>Swarm_Props\<close>: its properties.
  \<^item> \<open>Nanotorrent\<close>: \<^verbatim>\<open>nanotorrent.c\<close>. \<open>Node\<close>: the whole program as interleaved steps of its components, and its invariant.
    \<open>Node_Props\<close>: the properties of the whole program.
  \<^item> \<open>Tools\<close>: \<^verbatim>\<open>nanogen.c\<close>, \<^verbatim>\<open>nanoread.c\<close>, the macro \<^verbatim>\<open>ERROR\<close> of \<^verbatim>\<open>common.h\<close>; the calls of the host as the record \<open>posix\<close>, the command line
    parser as an argument, their documented behaviour (\<open>posix_ok\<close>, \<open>posix_reliable\<close>, \<open>argp_ok\<close>), and a concrete host.
    \<open>Tools_Props\<close>: the properties of the two programs. \<open>Demo\<close>: \<^verbatim>\<open>fs.c\<close>, \<^verbatim>\<open>fs.h\<close>, \<^verbatim>\<open>demo.c\<close>, and the way of a descriptor from nanogen to a device.

  \<^bold>\<open>What is shown.\<close> For the whole program, under the assumptions below, in every state reachable from its start and for every order
  of events, datagrams and replies: each handler runs to a result (\<open>node_never_faults\<close>), complete pieces are verified and stay so
  (\<open>node_data_integrity\<close>), starting finds exactly the pieces in the file, connecting with the swarm ends, and it is known
  exactly when the main process ends (\<open>main_ends_only\<close>): on its timer for seeding, when it has lost the swarm, and also, which is not meant, when the swarm
  has been joined before the process has seen it being joined. For two nodes in any reachable states without connections, and a network that loses
  nothing: a node that hears the HAVE message of a seed connects with it and downloads the whole file, byte for byte
  (\<open>download_completes\<close>); what this needs, pieces of at most 256 bytes, is no accident:
  no message changes the end of a larger one in the file (\<open>large_piece_tail_kept\<close>). For the whole tool chain: a device built with the descriptor that nanogen made of a file, and with
  that file, starts as a seed (\<open>generated_descriptor_seeds\<close>); nanogen never leaves a half-written file under an existing
  name, and nanoread accepts a file by its length alone and prints what nanogen wrote. For the components: the bookkeeping of connections, counts and requests is consistent
  (\<open>peer_bookkeeping\<close>); the next request is for a rarest wanted piece; retries are bounded and give up; membership in
  the swarm moves forward only; packets and descriptors survive the wire; the two hash implementations compute
  SHA-1; piece arithmetic does not wrap and the pieces tile the file. Shown as well are situations in which
  the code does not do what it means to (\<open>restart_keeps_pending_pieces\<close>, \<open>large_piece_tail_kept\<close>, \<open>swarm_failed_join_is_silent\<close>,
  \<open>swarm_after_join\<close>, \<open>bitset_set_16_bit_int\<close>, \<open>nanogen_zero_piece_size\<close>).

  \<^bold>\<open>Assumptions.\<close> The invariant of the peer component and the properties of its reachable states and of those of the whole program need the
  following, which the code relies on and does not check.
  The network (\<open>datagram_ok\<close>, \<open>datagram_full\<close>, \<open>reply_ok\<close>): a datagram is in a buffer of at least 28 bytes, a data reply is longer than
  its header, and a tracker's reply holds the addresses it announces; \<open>empty_reply_faults\<close>, \<open>short_reply_overreads\<close>
  and \<open>swarm_short_reply_overreads\<close> show what happens otherwise. The file system (\<open>cfs_reliable\<close> and \<open>cfs_writes_some\<close> in \<open>sound_kernel\<close>): no seek
  and no read fails, and a write of some bytes writes at least one. This is more than Contiki documents: when a write fails, or stores nothing, the request
  of the piece is left without a retry and a null pointer is called back (\<open>failed_write_faults\<close>). What is shown of a single
  write or of one handler running (\<open>piece_write_confined\<close>, \<open>handle_message_outcome\<close>) does not need it. The packets (\<open>payload_ok\<close>): one that is sent has room for
  a header. The torrent (\<open>startable\<close>, \<open>pieces_fit\<close>): a well-formed descriptor of a file that is not empty and can be opened, of at most
  two fewer pieces than an \<^verbatim>\<open>int\<close> has bits, which is 14 on the default target, where an \<^verbatim>\<open>int\<close> has 16 bits, and 30 with 32 bits, although 32
  pieces are allowed; with more, shifting a one in an \<^verbatim>\<open>int\<close> leaves it (\<open>bitset_set_16_bit_int\<close>). The tools (\<open>posix_reliable\<close>): no call of the
  host fails, except in \<open>nanogen_replaces_whole_files\<close>, which needs no such assumption.

  \<^bold>\<open>Loops.\<close> No fuel is used. Loops over arrays and lists are structural recursion, the loop of
  \<^verbatim>\<open>nanotorrent_torrent_info_create\<close> and the block loops of the hashes are functions with a measure, the read loop of \<^verbatim>\<open>nanotorrent_piece_digest\<close> and the loop of
  \<^verbatim>\<open>nanotorrent_connect_swarm\<close> are partial functions that are shown to return a result. The number of round trips in \<open>Download\<close> is a
  bound that the theorem names, the bytes of the file and one: every round trip but the first stores a byte at least.

  \<^bold>\<open>Configuration.\<close> The default one of \<^verbatim>\<open>config.h\<close>: tracker and link-local optimisations on, whole addresses as peer identities.

  \<^bold>\<open>Simplifications.\<close> The exit handlers of the processes are modelled as the whole reaction to the exit event; the composed system
  runs until the main process is stopped. Processes are entered one after the other, as Contiki does.

  \<^bold>\<open>Not modelled.\<close> The operating system, a git submodule (a parameter, see \<open>Contiki\<close>); \<^verbatim>\<open>crypto/avr/sha1-asm.S\<close>, assembler; \<^verbatim>\<open>symbols.c\<close>,
  an empty generated table; debug output and the messages of nanogen; the table of static files, which the build generates; the declarations of other hashes in \<^verbatim>\<open>crypto/ref/sha.h\<close>, which have no code;
  the tracker (Java), the packet dissector and scripts (Lua, shell) and the text of the thesis.
\<close>

end
